theory Spec2Isabelle
  imports Complex_Main "HOL-Library.Sublist"
begin

section \<open>Trust score service: embedding of \<^verbatim>\<open>backend/ai-trust-score.py\<close>\<close>

text \<open>
  Conventions of the embedding.
  \<^item> A Python float is a value of \<open>pyfloat\<close>: a finite IEEE double (a real that the
    rounding \<open>rnd\<close> leaves alone), an infinity or NaN. Each arithmetic operation is the
    exact operation followed by rounding to the nearest double, ties to even, and overflows
    to an infinity, as IEEE 754 prescribes; the sign of zero is not modelled. \<^verbatim>\<open>math.exp\<close>
    is taken to return the double nearest to the exponential, and to raise on overflow as
    CPython does. \<^verbatim>\<open>sum\<close> adds from left to right. Python integers are \<^typ>\<open>int\<close>,
    lengths are \<^typ>\<open>nat\<close>, strings are \<^typ>\<open>string\<close>; an integer that meets a float is
    first converted to a float.
  \<^item> Every exception the modelled code can raise is a value of \<open>py_error\<close>. A function
    that can raise and has no effect returns \<open>py_error + _\<close>, with \<open>Inl\<close> for the
    exception; one that has effects returns that outcome together with the world it
    leaves, also when it raises.
  \<^item> The two effects the scoring code has are threaded through a \<open>world\<close>: the
    number of wall-clock reads made so far, and the log of the texts handed to
    \<^verbatim>\<open>analyze_sentiment\<close>. The wall clock itself is a function from the index of a read
    to the value \<^verbatim>\<open>time.time()\<close> returns at that read, so the clock may advance
    between two reads of one request. \<^verbatim>\<open>datetime.now()\<close> is a read of the same clock, and
    \<^verbatim>\<open>calculation_time\<close> holds the value read rather than its ISO text.
  \<^item> The environment-configured constants are the fields of a \<open>config\<close> record;
    \<open>default_config\<close> holds the defaults written in the source.
  \<^item> Logging, the Redis cache and the HTTP transport are not modelled: no property below
    depends on them.
\<close>

subsection \<open>Python primitives\<close>

datatype py_error =
    ZeroDivisionError
  | OverflowError
  | IndexError
  | PipelineError
  | ValueError
  | HTTPException nat

text \<open>\<^verbatim>\<open>int(x)\<close> on a float truncates towards zero.\<close>

definition py_int :: "real \<Rightarrow> int" where
  "py_int x = (if 0 \<le> x then \<lfloor>x\<rfloor> else \<lceil>x\<rceil>)"

text \<open>Rounding to the nearest integer, a tie going to the even neighbour.\<close>

definition round_half_even :: "real \<Rightarrow> int" where
  "round_half_even x =
     (let f = \<lfloor>x\<rfloor>; d = x - of_int f
      in if d < 1 / 2 then f
         else if 1 / 2 < d then f + 1
         else if even f then f else f + 1)"

subsection \<open>IEEE doubles\<close>

text \<open>
  A double is an integer of magnitude below \<open>2\<^sup>5\<^sup>3\<close> times a power of two not below
  \<open>2\<^sup>-\<^sup>1\<^sup>0\<^sup>7\<^sup>4\<close>. \<open>rnd x\<close> is the double nearest to \<open>x\<close> when the exponent is not
  bounded above: \<open>x\<close> is scaled by its unit in the last place, rounded to an integer and
  scaled back. \<open>fmax\<close> is the largest finite double; a rounded value beyond it is an
  overflow.
\<close>

definition pow2 :: "int \<Rightarrow> real" where
  "pow2 e = 2 powr (of_int e)"

definition binade :: "real \<Rightarrow> int" where
  "binade x = \<lfloor>log 2 \<bar>x\<bar>\<rfloor>"

definition ulp_exp :: "real \<Rightarrow> int" where
  "ulp_exp x = max (binade x - 52) (- 1074)"

definition rnd :: "real \<Rightarrow> real" where
  "rnd x = (if x = 0 then 0
            else of_int (round_half_even (x / pow2 (ulp_exp x))) * pow2 (ulp_exp x))"

definition fmax :: real where
  "fmax = (2 ^ 53 - 1) * 2 ^ 971"

datatype pyfloat = Fin real | PInf | NInf | NaN

text \<open>The float an exact result becomes; also \<^verbatim>\<open>float(s)\<close> of a decimal numeral.\<close>

definition fin :: "real \<Rightarrow> pyfloat" where
  "fin z = (let r = rnd z in if fmax < r then PInf else if r < - fmax then NInf else Fin r)"

definition to_float :: "real \<Rightarrow> pyfloat" where
  "to_float z = fin z"

fun fneg :: "pyfloat \<Rightarrow> pyfloat" where
  "fneg (Fin x) = Fin (- x)"
| "fneg PInf = NInf"
| "fneg NInf = PInf"
| "fneg NaN = NaN"

fun fadd :: "pyfloat \<Rightarrow> pyfloat \<Rightarrow> pyfloat" where
  "fadd (Fin x) (Fin y) = fin (x + y)"
| "fadd NaN b = NaN"
| "fadd a NaN = NaN"
| "fadd PInf NInf = NaN"
| "fadd NInf PInf = NaN"
| "fadd PInf b = PInf"
| "fadd a PInf = PInf"
| "fadd NInf b = NInf"
| "fadd a NInf = NInf"

definition fsub :: "pyfloat \<Rightarrow> pyfloat \<Rightarrow> pyfloat" where
  "fsub a b = fadd a (fneg b)"

fun fmul :: "pyfloat \<Rightarrow> pyfloat \<Rightarrow> pyfloat" where
  "fmul (Fin x) (Fin y) = fin (x * y)"
| "fmul NaN b = NaN"
| "fmul a NaN = NaN"
| "fmul (Fin x) PInf = (if x = 0 then NaN else if 0 < x then PInf else NInf)"
| "fmul (Fin x) NInf = (if x = 0 then NaN else if 0 < x then NInf else PInf)"
| "fmul PInf (Fin y) = (if y = 0 then NaN else if 0 < y then PInf else NInf)"
| "fmul NInf (Fin y) = (if y = 0 then NaN else if 0 < y then NInf else PInf)"
| "fmul PInf PInf = PInf"
| "fmul PInf NInf = NInf"
| "fmul NInf PInf = NInf"
| "fmul NInf NInf = PInf"

text \<open>\<^verbatim>\<open>a / b\<close> on floats raises on a zero divisor, whatever the dividend.\<close>

fun fdiv :: "pyfloat \<Rightarrow> pyfloat \<Rightarrow> py_error + pyfloat" where
  "fdiv a (Fin y) =
     (if y = 0 then Inl ZeroDivisionError
      else Inr (case a of
                  Fin x \<Rightarrow> fin (x / y)
                | PInf \<Rightarrow> (if 0 < y then PInf else NInf)
                | NInf \<Rightarrow> (if 0 < y then NInf else PInf)
                | NaN \<Rightarrow> NaN))"
| "fdiv a NaN = Inr NaN"
| "fdiv NaN b = Inr NaN"
| "fdiv (Fin x) b = Inr (Fin 0)"
| "fdiv a b = Inr NaN"

text \<open>
  The conversion of an integer to a float, and \<^verbatim>\<open>a / b\<close> on two integers: both give the
  nearest double and raise \<^verbatim>\<open>OverflowError\<close> when it is out of range.
\<close>

definition int_to_float :: "int \<Rightarrow> py_error + pyfloat" where
  "int_to_float n =
     (let r = rnd (of_int n) in if fmax < \<bar>r\<bar> then Inl OverflowError else Inr (Fin r))"

definition int_truediv :: "int \<Rightarrow> int \<Rightarrow> py_error + pyfloat" where
  "int_truediv a b =
     (if b = 0 then Inl ZeroDivisionError
      else (let r = rnd (of_int a / of_int b)
            in if fmax < \<bar>r\<bar> then Inl OverflowError else Inr (Fin r)))"

text \<open>\<^verbatim>\<open>a > b\<close>: false as soon as one side is NaN.\<close>

fun fgt :: "pyfloat \<Rightarrow> pyfloat \<Rightarrow> bool" where
  "fgt NaN b = False"
| "fgt a NaN = False"
| "fgt (Fin x) (Fin y) = (y < x)"
| "fgt PInf PInf = False"
| "fgt PInf b = True"
| "fgt a PInf = False"
| "fgt NInf b = False"
| "fgt a NInf = True"

text \<open>
  \<^verbatim>\<open>max(a, b)\<close> and \<^verbatim>\<open>min(a, b)\<close> keep the first argument unless the second is strictly
  greater, respectively strictly smaller.
\<close>

definition py_max :: "pyfloat \<Rightarrow> pyfloat \<Rightarrow> pyfloat" where
  "py_max a b = (if fgt b a then b else a)"

definition py_min :: "pyfloat \<Rightarrow> pyfloat \<Rightarrow> pyfloat" where
  "py_min a b = (if fgt a b then b else a)"

text \<open>
  \<^verbatim>\<open>round(x, n)\<close>: the exact value of the double is rounded to the nearest multiple of
  \<open>10\<^sup>-\<^sup>n\<close>, a tie going to the even neighbour, and the decimal result is converted back
  to a double; infinities and NaN are returned as they are.
\<close>

definition dec_round :: "real \<Rightarrow> nat \<Rightarrow> real" where
  "dec_round x n = of_int (round_half_even (x * 10 ^ n)) / 10 ^ n"

fun py_round :: "pyfloat \<Rightarrow> nat \<Rightarrow> pyfloat" where
  "py_round (Fin x) n = fin (dec_round x n)"
| "py_round a n = a"

text \<open>
  \<^verbatim>\<open>math.exp\<close>: \<^verbatim>\<open>OverflowError\<close> when the result of a finite argument is out of range; a
  result too small is 0.
\<close>

fun math_exp :: "pyfloat \<Rightarrow> py_error + pyfloat" where
  "math_exp (Fin x) =
     (let r = rnd (exp x) in if fmax < r then Inl OverflowError else Inr (Fin r))"
| "math_exp PInf = Inr PInf"
| "math_exp NInf = Inr (Fin 0)"
| "math_exp NaN = Inr NaN"

subsection \<open>Data model and configuration\<close>

record review =
  client_address :: string
  client_verified :: bool
  rating :: int
  comment :: string
  timestamp :: int

text \<open>The constraint \<^verbatim>\<open>Field(..., ge=1, le=5)\<close> checked when a \<^verbatim>\<open>Review\<close> is built.\<close>

definition valid_review :: "review \<Rightarrow> bool" where
  "valid_review r = (1 \<le> rating r \<and> rating r \<le> 5)"

record config =
  TIME_DECAY_FACTOR :: pyfloat
  SENTIMENT_WEIGHT :: pyfloat
  VERIFIED_CLIENT_WEIGHT :: pyfloat
  UNVERIFIED_CLIENT_WEIGHT :: pyfloat

definition default_config :: config where
  "default_config =
     \<lparr>TIME_DECAY_FACTOR = to_float (5 / 100), SENTIMENT_WEIGHT = to_float (3 / 10),
      VERIFIED_CLIENT_WEIGHT = to_float (15 / 10), UNVERIFIED_CLIENT_WEIGHT = to_float (8 / 10)\<rparr>"

definition TIME_UNIT :: int where
  "TIME_UNIT = 60 * 60 * 24 * 30"

record trust_score =
  score :: pyfloat
  confidence :: pyfloat
  review_count :: nat
  average_rating :: pyfloat
  sentiment_adjustment :: pyfloat
  recency_factor :: pyfloat
  calculation_time :: real

subsection \<open>The world: wall clock and adapter log\<close>

type_synonym clock = "nat \<Rightarrow> real"

record world =
  reads :: nat
  sentiment_calls :: "string list"

text \<open>\<^verbatim>\<open>time.time()\<close>, and the instant \<^verbatim>\<open>datetime.now()\<close> formats.\<close>

definition time_time :: "clock \<Rightarrow> world \<Rightarrow> real \<times> world" where
  "time_time clk w = (clk (reads w), w\<lparr>reads := Suc (reads w)\<rparr>)"

subsection \<open>Sentiment adapter\<close>

text \<open>
  The classifier \<^verbatim>\<open>sentiment_analyzer\<close> is external: a call either raises or returns a
  list of predictions, each a label with a score. The global is \<^verbatim>\<open>None\<close> when the model
  failed to load.
\<close>

type_synonym prediction = "string \<times> pyfloat"
type_synonym pipeline = "string \<Rightarrow> py_error + prediction list"

text \<open>The body of the \<^verbatim>\<open>try\<close> block of \<^verbatim>\<open>analyze_sentiment\<close>.\<close>

definition analyze_sentiment_try :: "pipeline \<Rightarrow> string \<Rightarrow> py_error + pyfloat" where
  "analyze_sentiment_try analyzer tx =
     (let truncated_text = take 512 tx
      in case analyzer truncated_text of
           Inl e \<Rightarrow> Inl e
         | Inr results \<Rightarrow>
             (case results of
                [] \<Rightarrow> Inl IndexError
              | result # _ \<Rightarrow>
                  Inr (if fst result = ''POSITIVE'' then snd result else fneg (snd result))))"

definition analyze_sentiment ::
  "pipeline option \<Rightarrow> string \<Rightarrow> world \<Rightarrow> (py_error + pyfloat) \<times> world" where
  "analyze_sentiment sentiment_analyzer tx w =
     (let w1 = w\<lparr>sentiment_calls := sentiment_calls w @ [tx]\<rparr>
      in if sentiment_analyzer = None \<or> tx = [] then (Inr (Fin 0), w1)
         else (case analyze_sentiment_try (the sentiment_analyzer) tx of
                 Inl e \<Rightarrow> (Inr (Fin 0), w1)
               | Inr sentiment_score \<Rightarrow> (Inr sentiment_score, w1)))"

subsection \<open>Time decay\<close>

definition calculate_time_decay ::
  "config \<Rightarrow> clock \<Rightarrow> int \<Rightarrow> world \<Rightarrow> (py_error + pyfloat) \<times> world" where
  "calculate_time_decay cfg clk ts w =
     (let (t, w1) = time_time clk w;
          current_time = py_int t;
          age_in_seconds = current_time - ts
      in case int_truediv age_in_seconds TIME_UNIT of
           Inl e \<Rightarrow> (Inl e, w1)
         | Inr age_in_units \<Rightarrow>
             (case math_exp (fmul (fneg (TIME_DECAY_FACTOR cfg)) age_in_units) of
                Inl e \<Rightarrow> (Inl e, w1)
              | Inr decay_factor \<Rightarrow> (Inr decay_factor, w1)))"

subsection \<open>Aggregation\<close>

record loop_sums =
  weighted_sum :: pyfloat
  weight_sum :: pyfloat
  sentiment_sum :: pyfloat

text \<open>One iteration of the \<^verbatim>\<open>for review in reviews\<close> loop of \<^verbatim>\<open>calculate_trust_score\<close>.\<close>

definition review_step ::
  "config \<Rightarrow> pipeline option \<Rightarrow> clock \<Rightarrow> review \<Rightarrow> loop_sums \<Rightarrow> world \<Rightarrow>
   (py_error + loop_sums) \<times> world" where
  "review_step cfg sa clk r s w =
     (case calculate_time_decay cfg clk (timestamp r) w of
        (Inl e, w1) \<Rightarrow> (Inl e, w1)
      | (Inr time_weight, w1) \<Rightarrow>
          (let client_weight =
                 (if client_verified r then VERIFIED_CLIENT_WEIGHT cfg
                  else UNVERIFIED_CLIENT_WEIGHT cfg);
               total_weight = fmul time_weight client_weight
           in case int_to_float (rating r) of
                Inl e \<Rightarrow> (Inl e, w1)
              | Inr rating_float \<Rightarrow>
                  (let s1 = s\<lparr>weighted_sum := fadd (weighted_sum s) (fmul rating_float total_weight),
                              weight_sum := fadd (weight_sum s) total_weight\<rparr>
                   in if comment r \<noteq> [] then
                        (case analyze_sentiment sa (comment r) w1 of
                           (Inl e, w2) \<Rightarrow> (Inl e, w2)
                         | (Inr sentiment_score, w2) \<Rightarrow>
                             (Inr (s1\<lparr>sentiment_sum :=
                                          fadd (sentiment_sum s1) (fmul sentiment_score total_weight)\<rparr>),
                              w2))
                      else (Inr s1, w1))))"

fun review_loop ::
  "config \<Rightarrow> pipeline option \<Rightarrow> clock \<Rightarrow> review list \<Rightarrow> loop_sums \<Rightarrow> world \<Rightarrow>
   (py_error + loop_sums) \<times> world" where
  "review_loop cfg sa clk [] s w = (Inr s, w)"
| "review_loop cfg sa clk (r # rs) s w =
     (case review_step cfg sa clk r s w of
        (Inl e, w1) \<Rightarrow> (Inl e, w1)
      | (Inr s1, w1) \<Rightarrow> review_loop cfg sa clk rs s1 w1)"

text \<open>
  The values computed between the loop and the result: \<^verbatim>\<open>weighted_rating\<close>,
  \<^verbatim>\<open>average_sentiment\<close>, \<^verbatim>\<open>sentiment_adjustment\<close>, \<^verbatim>\<open>adjusted_rating\<close> and the unrounded
  \<^verbatim>\<open>trust_score\<close>.
\<close>

record rating_values =
  weighted_rating :: pyfloat
  average_sentiment :: pyfloat
  sentiment_adjustment_raw :: pyfloat
  adjusted_rating :: pyfloat
  trust_score_raw :: pyfloat

definition rating_of_sums :: "config \<Rightarrow> loop_sums \<Rightarrow> py_error + rating_values" where
  "rating_of_sums cfg s =
     (case (if fgt (weight_sum s) (Fin 0) then fdiv (weighted_sum s) (weight_sum s)
            else Inr (Fin 3)) of
        Inl e \<Rightarrow> Inl e
      | Inr wr \<Rightarrow>
          (case (if fgt (weight_sum s) (Fin 0) then fdiv (sentiment_sum s) (weight_sum s)
                 else Inr (Fin 0)) of
             Inl e \<Rightarrow> Inl e
           | Inr av \<Rightarrow>
               (let sa = fmul av (SENTIMENT_WEIGHT cfg);
                    ar = py_min (Fin 5) (py_max (Fin 1) (fadd wr sa));
                    ts = fmul (fsub ar (Fin 1)) (Fin 25)
                in Inr \<lparr>weighted_rating = wr, average_sentiment = av,
                         sentiment_adjustment_raw = sa, adjusted_rating = ar,
                         trust_score_raw = ts\<rparr>)))"

text \<open>\<^verbatim>\<open>sum(calculate_time_decay(r.timestamp) for r in reviews)\<close>, summed left to right.\<close>

fun decay_sum ::
  "config \<Rightarrow> clock \<Rightarrow> review list \<Rightarrow> pyfloat \<Rightarrow> world \<Rightarrow> (py_error + pyfloat) \<times> world" where
  "decay_sum cfg clk [] acc w = (Inr acc, w)"
| "decay_sum cfg clk (r # rs) acc w =
     (case calculate_time_decay cfg clk (timestamp r) w of
        (Inl e, w1) \<Rightarrow> (Inl e, w1)
      | (Inr d, w1) \<Rightarrow> decay_sum cfg clk rs (fadd acc d) w1)"

text \<open>The statement \<^verbatim>\<open>avg_decay = sum(...) / len(reviews)\<close>.\<close>

definition avg_decay ::
  "config \<Rightarrow> clock \<Rightarrow> review list \<Rightarrow> world \<Rightarrow> (py_error + pyfloat) \<times> world" where
  "avg_decay cfg clk reviews w =
     (case decay_sum cfg clk reviews (Fin 0) w of
        (Inl e, w1) \<Rightarrow> (Inl e, w1)
      | (Inr sum_decay, w1) \<Rightarrow>
          (case int_to_float (int (length reviews)) of
             Inl e \<Rightarrow> (Inl e, w1)
           | Inr n \<Rightarrow>
               (case fdiv sum_decay n of
                  Inl e \<Rightarrow> (Inl e, w1)
                | Inr m \<Rightarrow> (Inr m, w1))))"

definition calculate_trust_score ::
  "config \<Rightarrow> pipeline option \<Rightarrow> clock \<Rightarrow> review list \<Rightarrow> world \<Rightarrow>
   (py_error + trust_score) \<times> world" where
  "calculate_trust_score cfg sa clk reviews w =
     (if reviews = [] then
        (let (t, w1) = time_time clk w
         in (Inr \<lparr>score = Fin 50, confidence = Fin 0, review_count = 0, average_rating = Fin 0,
                   sentiment_adjustment = Fin 0, recency_factor = Fin 1, calculation_time = t\<rparr>,
             w1))
      else
        (case review_loop cfg sa clk reviews
                \<lparr>weighted_sum = Fin 0, weight_sum = Fin 0, sentiment_sum = Fin 0\<rparr> w of
           (Inl e, w1) \<Rightarrow> (Inl e, w1)
         | (Inr s, w1) \<Rightarrow>
             (case rating_of_sums cfg s of
                Inl e \<Rightarrow> (Inl e, w1)
              | Inr v \<Rightarrow>
                  (case int_truediv (int (length reviews)) 10 of
                     Inl e \<Rightarrow> (Inl e, w1)
                   | Inr ratio \<Rightarrow>
                       (case avg_decay cfg clk reviews w1 of
                          (Inl e, w2) \<Rightarrow> (Inl e, w2)
                        | (Inr mean_decay, w2) \<Rightarrow>
                            (let (t, w3) = time_time clk w2
                             in (Inr \<lparr>score = py_round (trust_score_raw v) 1,
                                       confidence = py_round (py_min (Fin 1) ratio) 2,
                                       review_count = length reviews,
                                       average_rating = py_round (weighted_rating v) 2,
                                       sentiment_adjustment =
                                         py_round (sentiment_adjustment_raw v) 2,
                                       recency_factor = py_round mean_decay 2,
                                       calculation_time = t\<rparr>,
                                 w3)))))))"

subsection \<open>Fetching the blockchain reviews\<close>

text \<open>
  \<^verbatim>\<open>fetch_blockchain_reviews\<close> is a placeholder: it returns the empty list when the
  blockchain is not in use or no contract is bound, the list \<^verbatim>\<open>reviews\<close> it has just set
  to \<^verbatim>\<open>[]\<close> otherwise, and \<^verbatim>\<open>[]\<close> again from its handler if anything raises. The two
  globals it tests are parameters.
\<close>

definition fetch_blockchain_reviews :: "bool \<Rightarrow> bool \<Rightarrow> string \<Rightarrow> review list" where
  "fetch_blockchain_reviews use_blockchain contract freelancer_address =
     (if \<not> use_blockchain \<or> \<not> contract then []
      else (let reviews = [] in reviews))"

subsection \<open>Merging the two review sources\<close>

text \<open>
  The two \<^verbatim>\<open>for\<close> statements of \<^verbatim>\<open>get_trust_score\<close> that build \<^verbatim>\<open>combined_reviews\<close> from the
  reviews fetched from the blockchain and from the API, with the set \<^verbatim>\<open>seen_clients\<close>.
\<close>

record merge_state =
  seen_clients :: "string set"
  combined_reviews :: "review list"

fun merge_blockchain :: "review list \<Rightarrow> merge_state \<Rightarrow> merge_state" where
  "merge_blockchain [] m = m"
| "merge_blockchain (r # rs) m =
     merge_blockchain rs
       \<lparr>seen_clients = insert (client_address r) (seen_clients m),
        combined_reviews = combined_reviews m @ [r]\<rparr>"

fun merge_api :: "review list \<Rightarrow> merge_state \<Rightarrow> merge_state" where
  "merge_api [] m = m"
| "merge_api (r # rs) m =
     (if client_address r \<notin> seen_clients m then
        merge_api rs
          \<lparr>seen_clients = insert (client_address r) (seen_clients m),
           combined_reviews = combined_reviews m @ [r]\<rparr>
      else merge_api rs m)"

definition merge_reviews :: "review list \<Rightarrow> review list \<Rightarrow> review list" where
  "merge_reviews blockchain_reviews api_reviews =
     combined_reviews
       (merge_api api_reviews
          (merge_blockchain blockchain_reviews \<lparr>seen_clients = {}, combined_reviews = []\<rparr>))"

text \<open>
  The merged list \<^verbatim>\<open>get_trust_score\<close> hands to \<^verbatim>\<open>calculate_trust_score\<close>: the blockchain
  reviews are the ones \<^verbatim>\<open>fetch_blockchain_reviews\<close> returns, the API reviews whatever the
  review API returned.
\<close>

definition scoring_reviews :: "bool \<Rightarrow> bool \<Rightarrow> string \<Rightarrow> review list \<Rightarrow> review list" where
  "scoring_reviews use_blockchain contract address api_reviews =
     merge_reviews (fetch_blockchain_reviews use_blockchain contract address) api_reviews"

subsection \<open>Per-review analysis\<close>

record analyzed_review =
  ar_client_address :: string
  ar_client_verified :: bool
  ar_rating :: int
  ar_comment :: string
  ar_timestamp :: int
  ar_datetime :: string
  sentiment_score :: pyfloat
  time_decay_factor :: pyfloat
  effective_weight :: pyfloat

record analysis =
  an_review_count :: nat
  an_average_rating :: pyfloat
  an_average_sentiment :: pyfloat
  verified_client_percentage :: pyfloat

text \<open>The \<^verbatim>\<open>analysis\<close> entry of the response is the empty dictionary when there are no reviews.\<close>

record analyze_response =
  resp_address :: string
  resp_reviews :: "analyzed_review list"
  resp_analysis :: "analysis option"

text \<open>
  \<^verbatim>\<open>required_api_key and api_key != required_api_key\<close>: the variable of the environment is
  absent or a string, the header is absent or a string, and an empty string is falsy.
\<close>

definition api_key_rejected :: "string option \<Rightarrow> string option \<Rightarrow> bool" where
  "api_key_rejected required_api_key api_key =
     ((required_api_key \<noteq> None \<and> required_api_key \<noteq> Some [])
      \<and> api_key \<noteq> required_api_key)"

text \<open>
  The loop that fills \<^verbatim>\<open>analyzed_reviews\<close>. The conversion
  \<^verbatim>\<open>datetime.fromtimestamp(t).isoformat()\<close> depends on the platform and raises on a
  timestamp out of its range: it is the parameter \<open>fromtimestamp\<close>.
\<close>

fun analyze_loop ::
  "config \<Rightarrow> pipeline option \<Rightarrow> clock \<Rightarrow> (int \<Rightarrow> py_error + string) \<Rightarrow> review list \<Rightarrow>
   analyzed_review list \<Rightarrow> world \<Rightarrow> (py_error + analyzed_review list) \<times> world" where
  "analyze_loop cfg sa clk fromtimestamp [] analyzed w = (Inr analyzed, w)"
| "analyze_loop cfg sa clk fromtimestamp (r # rs) analyzed w =
     (case analyze_sentiment sa (comment r) w of
        (Inl e, w1) \<Rightarrow> (Inl e, w1)
      | (Inr sent, w1) \<Rightarrow>
          (case calculate_time_decay cfg clk (timestamp r) w1 of
             (Inl e, w2) \<Rightarrow> (Inl e, w2)
           | (Inr time_decay, w2) \<Rightarrow>
               (case fromtimestamp (timestamp r) of
                  Inl e \<Rightarrow> (Inl e, w2)
                | Inr dt \<Rightarrow>
                    analyze_loop cfg sa clk fromtimestamp rs
                      (analyzed @
                       [\<lparr>ar_client_address = client_address r,
                         ar_client_verified = client_verified r,
                         ar_rating = rating r,
                         ar_comment = comment r,
                         ar_timestamp = timestamp r,
                         ar_datetime = dt,
                         sentiment_score = py_round sent 2,
                         time_decay_factor = py_round time_decay 2,
                         effective_weight =
                           py_round
                             (fmul time_decay
                                (if client_verified r then VERIFIED_CLIENT_WEIGHT cfg
                                 else UNVERIFIED_CLIENT_WEIGHT cfg)) 2\<rparr>])
                      w2)))"

text \<open>\<^verbatim>\<open>sum(analyze_sentiment(r.comment) for r in combined_reviews)\<close>, summed left to right.\<close>

fun sentiment_total ::
  "pipeline option \<Rightarrow> review list \<Rightarrow> pyfloat \<Rightarrow> world \<Rightarrow> (py_error + pyfloat) \<times> world" where
  "sentiment_total sa [] acc w = (Inr acc, w)"
| "sentiment_total sa (r # rs) acc w =
     (case analyze_sentiment sa (comment r) w of
        (Inl e, w1) \<Rightarrow> (Inl e, w1)
      | (Inr sent, w1) \<Rightarrow> sentiment_total sa rs (fadd acc sent) w1)"

text \<open>
  \<^verbatim>\<open>analyze_reviews\<close>, from the check of the API key on. The two fetches cannot raise (each
  catches every exception and returns the empty list), so their results are parameters.
\<close>

definition analyze_reviews ::
  "config \<Rightarrow> pipeline option \<Rightarrow> clock \<Rightarrow> (int \<Rightarrow> py_error + string) \<Rightarrow> string option \<Rightarrow>
   string \<Rightarrow> string option \<Rightarrow> review list \<Rightarrow> review list \<Rightarrow> world \<Rightarrow>
   (py_error + analyze_response) \<times> world" where
  "analyze_reviews cfg sa clk fromtimestamp required_api_key address api_key
     blockchain_reviews api_reviews w =
     (if api_key_rejected required_api_key api_key then (Inl (HTTPException 401), w)
      else
        (let combined = blockchain_reviews @ api_reviews
         in if combined = [] then
              (Inr \<lparr>resp_address = address, resp_reviews = [], resp_analysis = None\<rparr>, w)
            else
              (case analyze_loop cfg sa clk fromtimestamp combined [] w of
                 (Inl e, w1) \<Rightarrow> (Inl e, w1)
               | (Inr analyzed, w1) \<Rightarrow>
                   (case int_truediv (sum_list (map rating combined)) (int (length combined)) of
                      Inl e \<Rightarrow> (Inl e, w1)
                    | Inr avg_rating \<Rightarrow>
                        (case sentiment_total sa combined (Fin 0) w1 of
                           (Inl e, w2) \<Rightarrow> (Inl e, w2)
                         | (Inr sum_sentiment, w2) \<Rightarrow>
                             (case int_to_float (int (length combined)) of
                                Inl e \<Rightarrow> (Inl e, w2)
                              | Inr n \<Rightarrow>
                                  (case fdiv sum_sentiment n of
                                     Inl e \<Rightarrow> (Inl e, w2)
                                   | Inr avg_sentiment \<Rightarrow>
                                       (case int_truediv
                                               (int (length (filter client_verified combined)))
                                               (int (length combined)) of
                                          Inl e \<Rightarrow> (Inl e, w2)
                                        | Inr verified_fraction \<Rightarrow>
                                            (Inr \<lparr>resp_address = address,
                                                  resp_reviews = analyzed,
                                                  resp_analysis =
                                                    Some \<lparr>an_review_count = length analyzed,
                                                          an_average_rating = py_round avg_rating 2,
                                                          an_average_sentiment =
                                                            py_round avg_sentiment 2,
                                                          verified_client_percentage =
                                                            py_round
                                                              (fmul verified_fraction (Fin 100))
                                                              1\<rparr>\<rparr>,
                                             w2)))))))))"

subsection \<open>The value of the adapter\<close>

text \<open>
  The number \<^verbatim>\<open>analyze_sentiment\<close> returns for a text: the model is a function, so the
  number does not depend on the world the call is made in.
\<close>

definition sentiment_value :: "pipeline option \<Rightarrow> string \<Rightarrow> pyfloat" where
  "sentiment_value sa tx =
     (case fst (analyze_sentiment sa tx \<lparr>reads = 0, sentiment_calls = []\<rparr>) of
        Inl e \<Rightarrow> Fin 0
      | Inr v \<Rightarrow> v)"

subsection \<open>Sample inputs\<close>

text \<open>
  Inputs for the evaluated examples: a clock that stands still, a sentiment model whose
  every call raises, one that finds every text positive with score 1, and a conversion
  of timestamps that never fails.
\<close>

definition frozen_clock :: "real \<Rightarrow> clock" where
  "frozen_clock t k = t"

definition failing_pipeline :: pipeline where
  "failing_pipeline t = Inl PipelineError"

definition positive_pipeline :: pipeline where
  "positive_pipeline t = Inr [(''POSITIVE'', Fin 1)]"

definition sample_fromtimestamp :: "int \<Rightarrow> py_error + string" where
  "sample_fromtimestamp t = Inr ''1970-01-01T00:16:40''"

section \<open>Auxiliary lemmas\<close>

subsection \<open>Rounding to an integer, powers of two and binades\<close>

lemma rhe_lower: "\<lfloor>x\<rfloor> \<le> round_half_even x"
  by (simp add: round_half_even_def Let_def)

lemma rhe_upper: "round_half_even x \<le> \<lfloor>x\<rfloor> + 1"
  by (simp add: round_half_even_def Let_def)

lemma rhe_of_int: "round_half_even (of_int m) = m"
  by (simp add: round_half_even_def Let_def)

lemma rhe_mono:
  assumes "x \<le> y" shows "round_half_even x \<le> round_half_even y"
proof (cases "\<lfloor>x\<rfloor> = \<lfloor>y\<rfloor>")
  case True
  with assms show ?thesis by (auto simp: round_half_even_def Let_def)
next
  case False
  with assms have "\<lfloor>x\<rfloor> + 1 \<le> \<lfloor>y\<rfloor>" using floor_mono[OF assms] by linarith
  with rhe_upper[of x] rhe_lower[of y] show ?thesis by linarith
qed

lemma rhe_minus: "round_half_even (- x) = - round_half_even x"
proof (cases "x \<in> \<int>")
  case True
  then obtain m where "x = of_int m" by (auto elim: Ints_cases)
  then show ?thesis using rhe_of_int[of m] rhe_of_int[of "-m"] by simp
next
  case False
  then have ne: "x \<noteq> of_int \<lfloor>x\<rfloor>"
    by (metis Ints_of_int)
  then have fl: "\<lfloor>- x\<rfloor> = - \<lfloor>x\<rfloor> - 1"
    by (simp add: floor_minus ceiling_altdef)
  show ?thesis
    unfolding round_half_even_def Let_def fl
    using ne by (auto simp: algebra_simps)
qed

lemma rhe_near: "\<bar>of_int (round_half_even x) - x\<bar> \<le> 1 / 2"
  unfolding round_half_even_def Let_def
  by (auto simp: abs_le_iff)

lemma pow2_pos [simp]: "0 < pow2 e"
  by (simp add: pow2_def)

lemma pow2_nonneg [simp]: "0 \<le> pow2 e"
  by (simp add: pow2_def)

lemma pow2_ne0 [simp]: "pow2 e \<noteq> 0"
  by (simp add: pow2_def)

lemma pow2_add: "pow2 (a + b) = pow2 a * pow2 b"
  by (simp add: pow2_def powr_add)

lemma pow2_diff: "pow2 (a - b) = pow2 a / pow2 b"
  by (simp add: pow2_def powr_diff)

lemma pow2_mono: "a \<le> b \<Longrightarrow> pow2 a \<le> pow2 b"
  by (simp add: pow2_def)

lemma pow2_nat: "pow2 (int n) = 2 ^ n"
  by (simp add: pow2_def powr_realpow)

lemma pow2_0 [simp]: "pow2 0 = 1"
  by (simp add: pow2_def)

lemma pow2_is_int: "0 \<le> e \<Longrightarrow> pow2 e = of_int (2 ^ nat e)"
  using pow2_nat[of "nat e"] by simp

lemma binade_bounds:
  assumes "x \<noteq> 0"
  shows "pow2 (binade x) \<le> \<bar>x\<bar>" "\<bar>x\<bar> < pow2 (binade x + 1)"
proof -
  have "0 < \<bar>x\<bar>" using assms by simp
  from floor_log_eq_powr_iff[OF this, of 2 "binade x"]
  show "pow2 (binade x) \<le> \<bar>x\<bar>" "\<bar>x\<bar> < pow2 (binade x + 1)"
    by (simp_all add: binade_def pow2_def)
qed

lemma binade_unique:
  assumes "pow2 k \<le> \<bar>x\<bar>" "\<bar>x\<bar> < pow2 (k + 1)"
  shows "binade x = k"
proof -
  have "0 < \<bar>x\<bar>" using assms(1) pow2_pos[of k] by linarith
  from floor_log_eq_powr_iff[OF this, of 2 k] assms
  show ?thesis by (simp add: binade_def pow2_def)
qed

lemma binade_minus [simp]: "binade (- x) = binade x"
  by (simp add: binade_def)

lemma ulp_exp_minus [simp]: "ulp_exp (- x) = ulp_exp x"
  by (simp add: ulp_exp_def)

lemma binade_le:
  assumes "x \<noteq> 0" "\<bar>x\<bar> < pow2 (k + 1)"
  shows "binade x \<le> k"
proof (rule ccontr)
  assume "\<not> binade x \<le> k"
  then have "k + 1 \<le> binade x" by simp
  then have "pow2 (k + 1) \<le> pow2 (binade x)" by (rule pow2_mono)
  with binade_bounds(1)[OF assms(1)] assms(2) show False by linarith
qed

lemma binade_ge:
  assumes "pow2 k \<le> \<bar>x\<bar>"
  shows "k \<le> binade x"
proof (rule ccontr)
  assume "\<not> k \<le> binade x"
  then have "binade x + 1 \<le> k" by simp
  then have "pow2 (binade x + 1) \<le> pow2 k" by (rule pow2_mono)
  moreover have "x \<noteq> 0"
  proof
    assume "x = 0"
    with assms have "pow2 k \<le> 0" by simp
    with pow2_pos[of k] show False by linarith
  qed
  ultimately show False using binade_bounds(2)[of x] assms by linarith
qed

lemma binade_mono:
  assumes "x \<noteq> 0" "\<bar>x\<bar> \<le> \<bar>y\<bar>"
  shows "binade x \<le> binade y"
  using binade_ge[of "binade x" y] binade_bounds(1)[OF assms(1)] assms(2) by linarith

lemma ulp_exp_mono:
  assumes "x \<noteq> 0" "\<bar>x\<bar> \<le> \<bar>y\<bar>"
  shows "ulp_exp x \<le> ulp_exp y"
  using binade_mono[OF assms] by (simp add: ulp_exp_def)

lemma rnd_0 [simp]: "rnd 0 = 0"
  by (simp add: rnd_def)

lemma rnd_minus: "rnd (- x) = - rnd x"
  by (simp add: rnd_def rhe_minus)

lemma rnd_nonneg: "0 \<le> x \<Longrightarrow> 0 \<le> rnd x"
proof -
  assume "0 \<le> x"
  then have "0 \<le> x / pow2 (ulp_exp x)" by simp
  then have "round_half_even 0 \<le> round_half_even (x / pow2 (ulp_exp x))" by (rule rhe_mono)
  then have "0 \<le> round_half_even (x / pow2 (ulp_exp x))"
    using rhe_of_int[of 0] by simp
  then show ?thesis by (simp add: rnd_def)
qed

lemma rnd_multiple:
  assumes "x = of_int k * pow2 (ulp_exp x)"
  shows "rnd x = x"
proof (cases "x = 0")
  case True
  then show ?thesis by simp
next
  case False
  have "x / pow2 (ulp_exp x) = of_int k"
    using assms by (metis nonzero_mult_div_cancel_right pow2_ne0)
  then show ?thesis
    using False assms by (simp add: rnd_def rhe_of_int)
qed

lemma rnd_exact:
  assumes m: "\<bar>m\<bar> < 2 ^ 53" and e: "- 1074 \<le> e"
  shows "rnd (of_int m * pow2 e) = of_int m * pow2 e"
proof (cases "m = 0")
  case True
  then show ?thesis by simp
next
  case False
  let ?x = "of_int m * pow2 e :: real"
  have x0: "?x \<noteq> 0" using False by simp
  have "\<bar>?x\<bar> = of_int \<bar>m\<bar> * pow2 e" by (simp add: abs_mult)
  also have "\<dots> < 2 ^ 53 * pow2 e"
  proof -
    have "(of_int \<bar>m\<bar> :: real) < of_int (2 ^ 53)" using m by (simp only: of_int_less_iff)
    then show ?thesis by simp
  qed
  also have "\<dots> = pow2 (52 + e + 1)"
    using pow2_nat[of 53] by (simp add: pow2_add)
  finally have "binade ?x \<le> 52 + e" using x0 by (intro binade_le)
  then have u: "ulp_exp ?x \<le> e" using e by (simp add: ulp_exp_def)
  define d where "d = e - ulp_exp ?x"
  have d0: "0 \<le> d" using u by (simp add: d_def)
  have "pow2 e = pow2 d * pow2 (ulp_exp ?x)"
    unfolding d_def by (simp add: pow2_diff)
  then have "?x = of_int (m * 2 ^ nat d) * pow2 (ulp_exp ?x)"
    using pow2_is_int[OF d0] by simp
  then show ?thesis by (rule rnd_multiple)
qed

subsection \<open>Rounding to a double\<close>

lemma rnd_pos_eq:
  "x \<noteq> 0 \<Longrightarrow> rnd x = of_int (round_half_even (x / pow2 (ulp_exp x))) * pow2 (ulp_exp x)"
  by (simp add: rnd_def)

lemma rnd_upper_pos:
  assumes "0 < x"
  shows "rnd x \<le> pow2 (max (binade x + 1) (ulp_exp x))"
proof -
  let ?u = "ulp_exp x"
  let ?t = "max (binade x + 1) ?u"
  define d where "d = ?t - ?u"
  have d0: "0 \<le> d" by (simp add: d_def)
  have B: "pow2 ?t = of_int (2 ^ nat d) * pow2 ?u"
    using pow2_is_int[OF d0] pow2_add[of d ?u] by (simp add: d_def)
  have "x < pow2 (binade x + 1)" using binade_bounds(2)[of x] assms by simp
  also have "\<dots> \<le> pow2 ?t" by (rule pow2_mono) simp
  finally have "x / pow2 ?u \<le> pow2 ?t / pow2 ?u"
    by (simp add: divide_right_mono)
  also have "\<dots> = of_int (2 ^ nat d)" using B by simp
  finally have "round_half_even (x / pow2 ?u) \<le> round_half_even (of_int (2 ^ nat d))"
    by (rule rhe_mono)
  then have "round_half_even (x / pow2 ?u) \<le> 2 ^ nat d"
    by (simp only: rhe_of_int)
  then have "(of_int (round_half_even (x / pow2 ?u)) :: real) \<le> of_int (2 ^ nat d)"
    by (simp only: of_int_le_iff)
  then have "of_int (round_half_even (x / pow2 ?u)) * pow2 ?u \<le> of_int (2 ^ nat d) * pow2 ?u"
    by (rule mult_right_mono) simp
  then show ?thesis using assms B by (simp add: rnd_pos_eq)
qed

lemma rnd_lower_pos:
  assumes "0 < x" "- 1074 \<le> binade x"
  shows "pow2 (binade x) \<le> rnd x"
proof -
  let ?u = "ulp_exp x"
  define d where "d = binade x - ?u"
  have d0: "0 \<le> d" using assms(2) by (simp add: d_def ulp_exp_def)
  have B: "pow2 (binade x) = of_int (2 ^ nat d) * pow2 ?u"
    using pow2_is_int[OF d0] pow2_add[of d ?u] by (simp add: d_def)
  have "pow2 (binade x) \<le> x" using binade_bounds(1)[of x] assms by simp
  then have "pow2 (binade x) / pow2 ?u \<le> x / pow2 ?u"
    by (simp add: divide_right_mono)
  then have "of_int (2 ^ nat d) \<le> x / pow2 ?u" using B by simp
  then have "round_half_even (of_int (2 ^ nat d)) \<le> round_half_even (x / pow2 ?u)"
    by (rule rhe_mono)
  then have "2 ^ nat d \<le> round_half_even (x / pow2 ?u)"
    by (simp only: rhe_of_int)
  then have "(of_int (2 ^ nat d) :: real) \<le> of_int (round_half_even (x / pow2 ?u))"
    by (simp only: of_int_le_iff)
  then have "of_int (2 ^ nat d) * pow2 ?u \<le> of_int (round_half_even (x / pow2 ?u)) * pow2 ?u"
    by (rule mult_right_mono) simp
  then show ?thesis using assms B by (simp add: rnd_pos_eq)
qed

lemma rnd_mono_pos:
  assumes "0 < x" "x \<le> y"
  shows "rnd x \<le> rnd y"
proof -
  have y: "0 < y" using assms by simp
  have uu: "ulp_exp x \<le> ulp_exp y"
    using assms by (intro ulp_exp_mono) simp_all
  show ?thesis
  proof (cases "ulp_exp x = ulp_exp y")
    case True
    have "x / pow2 (ulp_exp y) \<le> y / pow2 (ulp_exp y)"
      using assms(2) by (simp add: divide_right_mono)
    then have "round_half_even (x / pow2 (ulp_exp y)) \<le> round_half_even (y / pow2 (ulp_exp y))"
      by (rule rhe_mono)
    then have "(of_int (round_half_even (x / pow2 (ulp_exp y))) :: real)
        \<le> of_int (round_half_even (y / pow2 (ulp_exp y)))"
      by (simp only: of_int_le_iff)
    then have "of_int (round_half_even (x / pow2 (ulp_exp y))) * pow2 (ulp_exp y)
        \<le> of_int (round_half_even (y / pow2 (ulp_exp y))) * pow2 (ulp_exp y)"
      by (rule mult_right_mono) simp
    then show ?thesis using assms y True by (simp add: rnd_pos_eq)
  next
    case False
    with uu have lt: "ulp_exp x < ulp_exp y" by simp
    have "- 1074 \<le> ulp_exp x" by (simp add: ulp_exp_def)
    with lt have uy: "ulp_exp y = binade y - 52" "- 1074 < binade y - 52"
      by (simp_all add: ulp_exp_def max_def split: if_splits)
    have "binade x - 52 \<le> ulp_exp x" by (simp add: ulp_exp_def)
    with lt uy have bx: "binade x + 1 \<le> binade y" by simp
    have "ulp_exp x \<le> binade y" using lt uy by simp
    with bx have "max (binade x + 1) (ulp_exp x) \<le> binade y" by simp
    then have "pow2 (max (binade x + 1) (ulp_exp x)) \<le> pow2 (binade y)" by (rule pow2_mono)
    moreover have "pow2 (binade y) \<le> rnd y"
      using y uy by (intro rnd_lower_pos) simp_all
    ultimately show ?thesis using rnd_upper_pos[OF assms(1)] by linarith
  qed
qed

lemma rnd_mono:
  assumes "x \<le> y"
  shows "rnd x \<le> rnd y"
proof -
  consider "0 < x" | "x \<le> 0" "0 \<le> y" | "y < 0" by linarith
  then show ?thesis
  proof cases
    case 1
    then show ?thesis using assms by (rule rnd_mono_pos)
  next
    case 2
    have "0 \<le> rnd (- x)" using 2(1) by (intro rnd_nonneg) simp
    then have "rnd x \<le> 0" by (simp add: rnd_minus)
    moreover have "0 \<le> rnd y" using 2(2) by (rule rnd_nonneg)
    ultimately show ?thesis by linarith
  next
    case 3
    then have "0 < - y" "- y \<le> - x" using assms by simp_all
    then have "rnd (- y) \<le> rnd (- x)" by (rule rnd_mono_pos)
    then show ?thesis by (simp add: rnd_minus)
  qed
qed

lemma rnd_of_int: "\<bar>n\<bar> < 2 ^ 53 \<Longrightarrow> rnd (of_int n) = of_int n"
  using rnd_exact[of n 0] by simp

lemma rnd_dyadic:
  assumes "\<bar>m\<bar> < 2 ^ 53" "k \<le> 1074"
  shows "rnd (of_int m / 2 ^ k) = of_int m / 2 ^ k"
proof -
  have "pow2 (- int k) = 1 / 2 ^ k"
    using pow2_nat[of k] pow2_diff[of 0 "int k"] by simp
  then show ?thesis
    using rnd_exact[of m "- int k"] assms by simp
qed

lemma rnd_pow2: "- 1074 \<le> e \<Longrightarrow> rnd (pow2 e) = pow2 e"
  using rnd_exact[of 1 e] by simp

lemma rnd_idem: "rnd (rnd x) = rnd x"
proof (cases "x = 0")
  case True
  then show ?thesis by simp
next
  case False
  let ?u = "ulp_exp x"
  let ?k = "round_half_even (x / pow2 ?u)"
  have r: "rnd x = of_int ?k * pow2 ?u" using False by (rule rnd_pos_eq)
  have u: "- 1074 \<le> ?u" "binade x - 52 \<le> ?u" by (simp_all add: ulp_exp_def)
  have "\<bar>x\<bar> < pow2 (binade x + 1)" using binade_bounds(2)[OF False] .
  also have "\<dots> \<le> pow2 (53 + ?u)" using u by (intro pow2_mono) simp
  also have "\<dots> = 2 ^ 53 * pow2 ?u"
    using pow2_nat[of 53] by (simp add: pow2_add)
  finally have "\<bar>x\<bar> / pow2 ?u < 2 ^ 53"
    by (simp add: divide_less_eq)
  then have b: "\<bar>x / pow2 ?u\<bar> < 2 ^ 53" by simp
  have "x / pow2 ?u < 2 ^ 53" "- (2 ^ 53) < x / pow2 ?u"
    using b by (simp_all only: abs_less_iff minus_less_iff)
  then have "x / pow2 ?u \<le> of_int (2 ^ 53)" "of_int (- (2 ^ 53)) \<le> x / pow2 ?u"
    by simp_all
  then have "round_half_even (x / pow2 ?u) \<le> round_half_even (of_int (2 ^ 53))"
    "round_half_even (of_int (- (2 ^ 53))) \<le> round_half_even (x / pow2 ?u)"
    by (simp_all only: rhe_mono)
  then have k: "?k \<le> 2 ^ 53" "- (2 ^ 53) \<le> ?k"
    by (simp_all only: rhe_of_int)
  consider "\<bar>?k\<bar> < 2 ^ 53" | "?k = 2 ^ 53" | "?k = - (2 ^ 53)"
    using k by linarith
  then show ?thesis
  proof cases
    case 1
    then show ?thesis using rnd_exact[of ?k ?u] u by (simp add: r)
  next
    case 2
    have "rnd x = of_int 1 * pow2 (53 + ?u)"
      using pow2_nat[of 53] by (simp add: r 2 pow2_add)
    moreover have "rnd (of_int 1 * pow2 (53 + ?u)) = of_int 1 * pow2 (53 + ?u)"
      using u by (intro rnd_exact) simp_all
    ultimately show ?thesis by simp
  next
    case 3
    have "rnd x = of_int (- 1) * pow2 (53 + ?u)"
      using pow2_nat[of 53] by (simp add: r 3 pow2_add)
    moreover have "rnd (of_int (- 1) * pow2 (53 + ?u)) = of_int (- 1) * pow2 (53 + ?u)"
      using u by (intro rnd_exact) simp_all
    ultimately show ?thesis by simp
  qed
qed

lemma rnd_fmax: "rnd fmax = fmax"
proof -
  have "fmax = of_int (2 ^ 53 - 1) * pow2 971"
    using pow2_nat[of 971] by (simp add: fmax_def)
  moreover have "rnd (of_int (2 ^ 53 - 1) * pow2 971) = of_int (2 ^ 53 - 1) * pow2 971"
    by (intro rnd_exact) simp_all
  ultimately show ?thesis by simp
qed

lemma fmax_pos: "0 < fmax"
  by (simp add: fmax_def)

lemma fmax_ge: "2 ^ 1023 \<le> fmax"
proof -
  have "(2::real) ^ 1023 = 2 ^ 52 * 2 ^ 971" by (simp add: power_add[symmetric])
  also have "\<dots> \<le> (2 ^ 53 - 1) * 2 ^ 971" by (intro mult_right_mono) simp_all
  finally show ?thesis by (simp add: fmax_def)
qed

lemma fmax_lt: "fmax < 2 ^ 1024"
proof -
  have "(2 ^ 53 - 1) * 2 ^ 971 < (2 ^ 53 :: real) * 2 ^ 971" by (intro mult_strict_right_mono) simp_all
  also have "\<dots> = 2 ^ 1024" by (simp add: power_add[symmetric])
  finally show ?thesis by (simp add: fmax_def)
qed

subsection \<open>Float operations\<close>

lemma rnd_abs: "\<bar>rnd x\<bar> = rnd \<bar>x\<bar>"
proof (cases "0 \<le> x")
  case True
  then show ?thesis using rnd_nonneg[of x] by simp
next
  case False
  then have "0 \<le> - x" by simp
  then have "0 \<le> rnd (- x)" by (rule rnd_nonneg)
  then show ?thesis using False by (simp add: rnd_minus)
qed

lemma rnd_abs_le:
  assumes "\<bar>x\<bar> \<le> b"
  shows "\<bar>rnd x\<bar> \<le> rnd b"
  unfolding rnd_abs using assms by (rule rnd_mono)


lemma rnd_numeral [simp]: "rnd 1 = 1" "rnd 3 = 3" "rnd 4 = 4" "rnd 5 = 5" "rnd 25 = 25"
  "rnd 50 = 50" "rnd 100 = 100" "rnd 2 = 2"
  using rnd_of_int[of 1] rnd_of_int[of 3] rnd_of_int[of 4] rnd_of_int[of 5] rnd_of_int[of 25]
    rnd_of_int[of 50] rnd_of_int[of 100] rnd_of_int[of 2]
  by simp_all

lemma le_fmax: "x \<le> 2 ^ 1023 \<Longrightarrow> x \<le> fmax"
  using fmax_ge by linarith

lemma fin_Fin: "\<bar>rnd z\<bar> \<le> fmax \<Longrightarrow> fin z = Fin (rnd z)"
  unfolding fin_def Let_def by auto

lemma fin_exact: "rnd z = z \<Longrightarrow> \<bar>z\<bar> \<le> fmax \<Longrightarrow> fin z = Fin z"
  using fin_Fin[of z] by simp

lemma fin_0 [simp]: "fin 0 = Fin 0"
  using fin_exact[of 0] fmax_pos by simp

lemma fin_cases:
  "fin z = PInf \<and> fmax < rnd z \<or> fin z = NInf \<and> rnd z < - fmax
   \<or> fin z = Fin (rnd z) \<and> \<bar>rnd z\<bar> \<le> fmax"
  unfolding fin_def Let_def using fmax_pos by auto

lemma fin_nonneg_cases:
  assumes "0 \<le> z"
  shows "fin z = PInf \<and> fmax < rnd z \<or> fin z = Fin (rnd z) \<and> 0 \<le> rnd z \<and> rnd z \<le> fmax"
  using fin_cases[of z] rnd_nonneg[OF assms] fmax_pos by auto


lemma fin_abs_le:
  assumes "\<bar>z\<bar> \<le> b" "rnd b = b" "b \<le> fmax"
  shows "fin z = Fin (rnd z) \<and> \<bar>rnd z\<bar> \<le> b"
proof -
  have "\<bar>rnd z\<bar> \<le> b" using rnd_abs_le[OF assms(1)] assms(2) by simp
  then show ?thesis using assms(3) by (simp add: fin_Fin)
qed

lemma clamp_range:
  "\<exists>b. py_min (Fin 5) (py_max (Fin 1) X) = Fin b \<and> 1 \<le> b \<and> b \<le> 5
       \<and> (b = 1 \<or> b = 5 \<or> X = Fin b)"
  by (cases X) (auto simp: py_min_def py_max_def)

lemma clamp_rnd:
  assumes "X = Fin x" "rnd x = x"
  shows "\<exists>b. py_min (Fin 5) (py_max (Fin 1) X) = Fin b \<and> 1 \<le> b \<and> b \<le> 5 \<and> rnd b = b"
  using assms by (auto simp: py_min_def py_max_def)

lemma dec_round_mono: "x \<le> y \<Longrightarrow> dec_round x n \<le> dec_round y n"
proof -
  assume "x \<le> y"
  then have "x * 10 ^ n \<le> y * 10 ^ n" by (simp add: mult_right_mono)
  then have "round_half_even (x * 10 ^ n) \<le> round_half_even (y * 10 ^ n)" by (rule rhe_mono)
  then have "(of_int (round_half_even (x * 10 ^ n)) :: real) \<le> of_int (round_half_even (y * 10 ^ n))"
    by simp
  then show ?thesis unfolding dec_round_def by (simp add: divide_right_mono)
qed

lemma dec_round_minus: "dec_round (- x) n = - dec_round x n"
  unfolding dec_round_def by (simp add: rhe_minus)

lemma dec_round_of_int: "dec_round (of_int m) n = of_int m"
proof -
  have "(of_int m :: real) * 10 ^ n = of_int (m * 10 ^ n)" by simp
  then have "round_half_even (of_int m * 10 ^ n) = m * 10 ^ n" by (simp only: rhe_of_int)
  then show ?thesis unfolding dec_round_def by simp
qed

lemma dec_round_numeral [simp]: "dec_round 0 n = 0" "dec_round 1 n = 1" "dec_round 100 n = 100"
  "dec_round 5 n = 5" "dec_round 50 n = 50"
  using dec_round_of_int[of 0 n] dec_round_of_int[of 1 n] dec_round_of_int[of 100 n]
    dec_round_of_int[of 5 n] dec_round_of_int[of 50 n]
  by simp_all

lemma dec_round_abs_le:
  assumes "\<bar>x\<bar> \<le> b"
  shows "\<bar>dec_round x n\<bar> \<le> dec_round b n"
proof -
  have "- b \<le> x" "x \<le> b" using assms by (simp_all add: abs_le_iff)
  then have "dec_round (- b) n \<le> dec_round x n" "dec_round x n \<le> dec_round b n"
    by (simp_all add: dec_round_mono)
  then show ?thesis by (simp add: dec_round_minus abs_le_iff)
qed




lemma math_exp_cases:
  "math_exp a = Inl OverflowError \<or> (\<exists>d. math_exp a = Inr (Fin d) \<and> 0 \<le> d \<and> rnd d = d \<and> d \<le> fmax)
   \<or> math_exp a = Inr PInf \<and> a = PInf \<or> math_exp a = Inr NaN \<and> a = NaN"
proof (cases a)
  case (Fin x)
  have "0 \<le> rnd (exp x)" by (rule rnd_nonneg) simp
  then show ?thesis using Fin by (auto simp: Let_def rnd_idem)
qed (use fmax_pos in simp_all)

lemma math_exp_nonpos:
  assumes "x \<le> 0"
  shows "\<exists>d. math_exp (Fin x) = Inr (Fin d) \<and> 0 \<le> d \<and> d \<le> 1 \<and> rnd d = d"
proof -
  have "exp x \<le> 1" using assms by simp
  then have "rnd (exp x) \<le> 1" using rnd_mono[of "exp x" 1] by simp
  moreover have "0 \<le> rnd (exp x)" by (rule rnd_nonneg) simp
  moreover have "(1::real) \<le> fmax" by (rule le_fmax) simp
  ultimately show ?thesis by (simp add: Let_def rnd_idem)
qed

lemma math_exp_nonneg:
  assumes "0 \<le> x"
  shows "math_exp (Fin x) = Inl OverflowError
         \<or> (\<exists>d. math_exp (Fin x) = Inr (Fin d) \<and> 1 \<le> d \<and> rnd d = d \<and> d \<le> fmax)"
proof -
  have "1 \<le> exp x" using assms by simp
  then have "1 \<le> rnd (exp x)" using rnd_mono[of 1 "exp x"] by simp
  then show ?thesis by (auto simp: Let_def rnd_idem)
qed

lemma math_exp_0 [simp]: "math_exp (Fin 0) = Inr (Fin 1)"
  using le_fmax[of 1] by (simp add: Let_def)

subsection \<open>Time decay, adapter and aggregation loop: outcomes and effects\<close>

lemma TIME_UNIT_pos: "0 < TIME_UNIT"
  by (simp add: TIME_UNIT_def)

lemma int_truediv_cases:
  assumes "b \<noteq> 0"
  shows "int_truediv a b = Inl OverflowError
         \<or> int_truediv a b = Inr (Fin (rnd (of_int a / of_int b))) \<and> \<bar>rnd (of_int a / of_int b)\<bar> \<le> fmax"
  using assms by (auto simp: int_truediv_def Let_def)

lemma int_to_float_cases:
  "int_to_float n = Inl OverflowError
   \<or> int_to_float n = Inr (Fin (rnd (of_int n))) \<and> \<bar>rnd (of_int n)\<bar> \<le> fmax"
  by (auto simp: int_to_float_def Let_def)

lemma calculate_time_decay_snd [simp]:
  "snd (calculate_time_decay cfg clk ts w) = w\<lparr>reads := Suc (reads w)\<rparr>"
  by (simp add: calculate_time_decay_def time_time_def Let_def split: sum.splits)

lemma calculate_time_decay_fst:
  "fst (calculate_time_decay cfg clk ts w) =
     (case int_truediv (py_int (clk (reads w)) - ts) TIME_UNIT of
        Inl e \<Rightarrow> Inl e
      | Inr age_in_units \<Rightarrow> math_exp (fmul (fneg (TIME_DECAY_FACTOR cfg)) age_in_units))"
  by (simp add: calculate_time_decay_def time_time_def Let_def split: sum.splits)

lemma calculate_time_decay_agree:
  assumes "clk1 (reads w1) = clk2 (reads w2)"
  shows "fst (calculate_time_decay cfg clk1 ts w1) = fst (calculate_time_decay cfg clk2 ts w2)"
  using assms by (simp add: calculate_time_decay_fst)

lemma calculate_time_decay_cases:
  "fst (calculate_time_decay cfg clk ts w) = Inl OverflowError
   \<or> (\<exists>d. fst (calculate_time_decay cfg clk ts w) = Inr (Fin d) \<and> 0 \<le> d \<and> rnd d = d \<and> d \<le> fmax)
   \<or> fst (calculate_time_decay cfg clk ts w) = Inr PInf
   \<or> fst (calculate_time_decay cfg clk ts w) = Inr NaN"
proof -
  have u: "TIME_UNIT \<noteq> 0" by (simp add: TIME_UNIT_def)
  show ?thesis
    using int_truediv_cases[OF u, of "py_int (clk (reads w)) - ts"]
      math_exp_cases[of "fmul (fneg (TIME_DECAY_FACTOR cfg))
                           (Fin (rnd (of_int (py_int (clk (reads w)) - ts) / of_int TIME_UNIT)))"]
    unfolding calculate_time_decay_fst by auto
qed

lemma calculate_time_decay_pair:
  "calculate_time_decay cfg clk ts w =
     (fst (calculate_time_decay cfg clk ts w), w\<lparr>reads := Suc (reads w)\<rparr>)"
  by (metis calculate_time_decay_snd prod.collapse)

lemma calculate_trust_score_empty:
  "calculate_trust_score cfg sa clk [] w =
     (Inr \<lparr>score = Fin 50, confidence = Fin 0, review_count = 0, average_rating = Fin 0,
           sentiment_adjustment = Fin 0, recency_factor = Fin 1, calculation_time = clk (reads w)\<rparr>,
      w\<lparr>reads := Suc (reads w)\<rparr>)"
  by (simp add: calculate_trust_score_def time_time_def)

lemma analyze_sentiment_snd [simp]:
  "snd (analyze_sentiment sa tx w) = w\<lparr>sentiment_calls := sentiment_calls w @ [tx]\<rparr>"
  by (simp add: analyze_sentiment_def Let_def split: sum.splits)

lemma analyze_sentiment_total:
  "\<exists>v. analyze_sentiment sa tx w = (Inr v, w\<lparr>sentiment_calls := sentiment_calls w @ [tx]\<rparr>)"
  by (simp add: analyze_sentiment_def Let_def split: sum.splits)

lemma analyze_sentiment_value:
  "analyze_sentiment sa tx w = (Inr (sentiment_value sa tx), w\<lparr>sentiment_calls := sentiment_calls w @ [tx]\<rparr>)"
  by (simp add: analyze_sentiment_def sentiment_value_def Let_def split: sum.splits)

lemma review_step_cases:
  "(\<exists>w'. review_step cfg sa clk r s w = (Inl OverflowError, w')
         \<and> reads w' = Suc (reads w) \<and> sentiment_calls w' = sentiment_calls w)
   \<or> (\<exists>s' w'. review_step cfg sa clk r s w = (Inr s', w')
         \<and> reads w' = Suc (reads w)
         \<and> sentiment_calls w' = sentiment_calls w @ (if comment r \<noteq> [] then [comment r] else [])
         \<and> (comment r = [] \<longrightarrow> sentiment_sum s' = sentiment_sum s))"
proof -
  note d = calculate_time_decay_pair[of cfg clk "timestamp r" w]
  note c = calculate_time_decay_cases[of cfg clk "timestamp r" w]
  note i = int_to_float_cases[of "rating r"]
  note a = analyze_sentiment_value[of sa "comment r" "w\<lparr>reads := Suc (reads w)\<rparr>"]
  show ?thesis
  proof (cases "fst (calculate_time_decay cfg clk (timestamp r) w)")
    case (Inl e)
    then have "e = OverflowError" using c by auto
    then show ?thesis using Inl d by (simp add: review_step_def)
  next
    case (Inr tw)
    show ?thesis
    proof (cases "int_to_float (rating r)")
      case (Inl e)
      then have "e = OverflowError" using i by auto
      then show ?thesis using Inl Inr d by (simp add: review_step_def Let_def)
    next
      case rf: (Inr rating_float)
      show ?thesis
        using Inr rf d a by (simp add: review_step_def Let_def)
    qed
  qed
qed


lemma review_step_reads [simp]: "reads (snd (review_step cfg sa clk r s w)) = Suc (reads w)"
  using review_step_cases[of cfg sa clk r s w] by auto

lemma review_step_agree:
  assumes "clk1 (reads w1) = clk2 (reads w2)"
  shows "fst (review_step cfg sa clk1 r s w1) = fst (review_step cfg sa clk2 r s w2)"
proof -
  have e: "fst (calculate_time_decay cfg clk1 (timestamp r) w1)
         = fst (calculate_time_decay cfg clk2 (timestamp r) w2)"
    using assms by (rule calculate_time_decay_agree)
  note d1 = calculate_time_decay_pair[of cfg clk1 "timestamp r" w1]
  note d2 = calculate_time_decay_pair[of cfg clk2 "timestamp r" w2]
  show ?thesis
  proof (cases "fst (calculate_time_decay cfg clk2 (timestamp r) w2)")
    case (Inl x)
    then show ?thesis using e d1 d2 by (simp add: review_step_def)
  next
    case (Inr tw)
    then show ?thesis using e d1 d2
      by (simp add: review_step_def Let_def analyze_sentiment_value split: sum.splits)
  qed
qed

lemma review_loop_cases:
  "\<exists>k \<le> length rs.
     sentiment_calls (snd (review_loop cfg sa clk rs s w)) =
       sentiment_calls w @ filter (\<lambda>c. c \<noteq> []) (map comment (take k rs))
     \<and> (fst (review_loop cfg sa clk rs s w) = Inl OverflowError
        \<or> (\<exists>s'. fst (review_loop cfg sa clk rs s w) = Inr s') \<and> k = length rs
           \<and> reads (snd (review_loop cfg sa clk rs s w)) = reads w + length rs)"
proof (induction rs arbitrary: s w)
  case Nil
  show ?case by simp
next
  case (Cons r rs)
  from review_step_cases[of cfg sa clk r s w]
  show ?case
  proof (elim disjE exE conjE)
    fix w' assume "review_step cfg sa clk r s w = (Inl OverflowError, w')"
      "sentiment_calls w' = sentiment_calls w"
    then have "sentiment_calls (snd (review_loop cfg sa clk (r # rs) s w)) =
       sentiment_calls w @ filter (\<lambda>c. c \<noteq> []) (map comment (take 0 (r # rs)))
       \<and> fst (review_loop cfg sa clk (r # rs) s w) = Inl OverflowError"
      by simp
    then show ?thesis by blast
  next
    fix s' w' assume st: "review_step cfg sa clk r s w = (Inr s', w')"
      and rd: "reads w' = Suc (reads w)"
      and cl: "sentiment_calls w' = sentiment_calls w @ (if comment r \<noteq> [] then [comment r] else [])"
    from Cons.IH[of s' w'] obtain k where k: "k \<le> length rs"
      "sentiment_calls (snd (review_loop cfg sa clk rs s' w')) =
         sentiment_calls w' @ filter (\<lambda>c. c \<noteq> []) (map comment (take k rs))"
      "fst (review_loop cfg sa clk rs s' w') = Inl OverflowError
        \<or> (\<exists>s''. fst (review_loop cfg sa clk rs s' w') = Inr s'') \<and> k = length rs
           \<and> reads (snd (review_loop cfg sa clk rs s' w')) = reads w' + length rs"
      by blast
    have eq: "review_loop cfg sa clk (r # rs) s w = review_loop cfg sa clk rs s' w'"
      using st by simp
    have "Suc k \<le> length (r # rs)" using k(1) by simp
    moreover have "sentiment_calls (snd (review_loop cfg sa clk (r # rs) s w)) =
       sentiment_calls w @ filter (\<lambda>c. c \<noteq> []) (map comment (take (Suc k) (r # rs)))"
      using k(2) cl eq by simp
    moreover have "fst (review_loop cfg sa clk (r # rs) s w) = Inl OverflowError
        \<or> (\<exists>s''. fst (review_loop cfg sa clk (r # rs) s w) = Inr s'') \<and> Suc k = length (r # rs)
           \<and> reads (snd (review_loop cfg sa clk (r # rs) s w)) = reads w + length (r # rs)"
      using k(3) rd eq by auto
    ultimately show ?thesis by blast
  qed
qed

lemma review_loop_agree:
  assumes "\<forall>i < length rs. clk1 (reads w1 + i) = clk2 (reads w2 + i)"
  shows "fst (review_loop cfg sa clk1 rs s w1) = fst (review_loop cfg sa clk2 rs s w2)"
  using assms
proof (induction rs arbitrary: s w1 w2)
  case Nil
  show ?case by simp
next
  case (Cons r rs)
  have c0: "clk1 (reads w1) = clk2 (reads w2)" using Cons.prems by force
  have e: "fst (review_step cfg sa clk1 r s w1) = fst (review_step cfg sa clk2 r s w2)"
    using c0 by (rule review_step_agree)
  obtain x1 u1 where s1: "review_step cfg sa clk1 r s w1 = (x1, u1)" by (cases "review_step cfg sa clk1 r s w1")
  obtain x2 u2 where s2: "review_step cfg sa clk2 r s w2 = (x2, u2)" by (cases "review_step cfg sa clk2 r s w2")
  have x: "x1 = x2" using e s1 s2 by simp
  have r1: "reads u1 = Suc (reads w1)" using review_step_reads[of cfg sa clk1 r s w1] s1 by simp
  have r2: "reads u2 = Suc (reads w2)" using review_step_reads[of cfg sa clk2 r s w2] s2 by simp
  show ?case
  proof (cases x1)
    case (Inl e1)
    then show ?thesis using s1 s2 x by simp
  next
    case (Inr s')
    have "\<forall>i < length rs. clk1 (reads u1 + i) = clk2 (reads u2 + i)"
    proof (intro allI impI)
      fix i assume "i < length rs"
      then have "Suc i < length (r # rs)" by simp
      with Cons.prems have "clk1 (reads w1 + Suc i) = clk2 (reads w2 + Suc i)" by blast
      then show "clk1 (reads u1 + i) = clk2 (reads u2 + i)" using r1 r2 by simp
    qed
    then have "fst (review_loop cfg sa clk1 rs s' u1) = fst (review_loop cfg sa clk2 rs s' u2)"
      by (rule Cons.IH)
    then show ?thesis using s1 s2 x Inr by auto
  qed
qed

lemma decay_sum_cases:
  "sentiment_calls (snd (decay_sum cfg clk rs acc w)) = sentiment_calls w
   \<and> (fst (decay_sum cfg clk rs acc w) = Inl OverflowError
      \<or> (\<exists>sd. fst (decay_sum cfg clk rs acc w) = Inr sd)
         \<and> reads (snd (decay_sum cfg clk rs acc w)) = reads w + length rs)"
proof (induction rs arbitrary: acc w)
  case Nil
  show ?case by simp
next
  case (Cons r rs)
  note d = calculate_time_decay_pair[of cfg clk "timestamp r" w]
  note c = calculate_time_decay_cases[of cfg clk "timestamp r" w]
  show ?case
  proof (cases "fst (calculate_time_decay cfg clk (timestamp r) w)")
    case (Inl e)
    then have "e = OverflowError" using c by auto
    then show ?thesis using Inl d by simp
  next
    case (Inr x)
    then have eq: "decay_sum cfg clk (r # rs) acc w =
        decay_sum cfg clk rs (fadd acc x) (w\<lparr>reads := Suc (reads w)\<rparr>)"
      using d by simp
    show ?thesis unfolding eq using Cons.IH[of "fadd acc x" "w\<lparr>reads := Suc (reads w)\<rparr>"] by simp
  qed
qed

lemma decay_sum_agree:
  assumes "\<forall>i < length rs. clk1 (reads w1 + i) = clk2 (reads w2 + i)"
  shows "fst (decay_sum cfg clk1 rs acc w1) = fst (decay_sum cfg clk2 rs acc w2)"
  using assms
proof (induction rs arbitrary: acc w1 w2)
  case Nil
  show ?case by simp
next
  case (Cons r rs)
  have c0: "clk1 (reads w1) = clk2 (reads w2)" using Cons.prems by force
  have e: "fst (calculate_time_decay cfg clk1 (timestamp r) w1)
         = fst (calculate_time_decay cfg clk2 (timestamp r) w2)"
    using c0 by (rule calculate_time_decay_agree)
  note d1 = calculate_time_decay_pair[of cfg clk1 "timestamp r" w1]
  note d2 = calculate_time_decay_pair[of cfg clk2 "timestamp r" w2]
  show ?case
  proof (cases "fst (calculate_time_decay cfg clk2 (timestamp r) w2)")
    case (Inl x)
    then show ?thesis using e d1 d2 by simp
  next
    case (Inr x)
    have "\<forall>i < length rs. clk1 (reads (w1\<lparr>reads := Suc (reads w1)\<rparr>) + i)
                          = clk2 (reads (w2\<lparr>reads := Suc (reads w2)\<rparr>) + i)"
    proof (intro allI impI)
      fix i assume "i < length rs"
      then have "Suc i < length (r # rs)" by simp
      with Cons.prems have "clk1 (reads w1 + Suc i) = clk2 (reads w2 + Suc i)" by blast
      then show "clk1 (reads (w1\<lparr>reads := Suc (reads w1)\<rparr>) + i)
                 = clk2 (reads (w2\<lparr>reads := Suc (reads w2)\<rparr>) + i)" by simp
    qed
    then have "fst (decay_sum cfg clk1 rs (fadd acc x) (w1\<lparr>reads := Suc (reads w1)\<rparr>))
             = fst (decay_sum cfg clk2 rs (fadd acc x) (w2\<lparr>reads := Suc (reads w2)\<rparr>))"
      by (rule Cons.IH)
    then show ?thesis using Inr e d1 d2 by simp
  qed
qed

subsection \<open>The aggregation result\<close>

lemma rnd_nat_ge1: "0 < n \<Longrightarrow> 1 \<le> rnd (real n)"
proof -
  assume "0 < n"
  then have "1 \<le> real n" by simp
  then have "rnd 1 \<le> rnd (real n)" by (rule rnd_mono)
  then show ?thesis by simp
qed

lemma avg_decay_cases:
  assumes "reviews \<noteq> []"
  shows "sentiment_calls (snd (avg_decay cfg clk reviews w)) = sentiment_calls w
   \<and> (fst (avg_decay cfg clk reviews w) = Inl OverflowError
      \<or> (\<exists>m. fst (avg_decay cfg clk reviews w) = Inr m)
         \<and> reads (snd (avg_decay cfg clk reviews w)) = reads w + length reviews)"
proof -
  obtain x u where ds: "decay_sum cfg clk reviews (Fin 0) w = (x, u)"
    by (cases "decay_sum cfg clk reviews (Fin 0) w")
  note c = decay_sum_cases[of cfg clk reviews "Fin 0" w, unfolded ds, simplified]
  have n: "1 \<le> rnd (real (length reviews))" using assms by (simp add: rnd_nat_ge1)
  show ?thesis
  proof (cases x)
    case (Inl e)
    then show ?thesis using c ds by (simp add: avg_decay_def)
  next
    case (Inr sd)
    show ?thesis
    proof (cases "int_to_float (int (length reviews))")
      case (Inl e)
      then have "e = OverflowError" using int_to_float_cases[of "int (length reviews)"] by auto
      then show ?thesis using Inl Inr c ds by (simp add: avg_decay_def)
    next
      case nf: (Inr nfl)
      then have nfl: "nfl = Fin (rnd (real (length reviews)))"
        using int_to_float_cases[of "int (length reviews)"] by auto
      have "\<exists>m. fdiv sd nfl = Inr m" unfolding nfl using n by simp
      then obtain m where "fdiv sd nfl = Inr m" by blast
      then show ?thesis using nf Inr c ds by (simp add: avg_decay_def)
    qed
  qed
qed

lemma avg_decay_agree:
  assumes "\<forall>i < length rs. clk1 (reads w1 + i) = clk2 (reads w2 + i)"
  shows "fst (avg_decay cfg clk1 rs w1) = fst (avg_decay cfg clk2 rs w2)"
proof -
  have e: "fst (decay_sum cfg clk1 rs (Fin 0) w1) = fst (decay_sum cfg clk2 rs (Fin 0) w2)"
    using assms by (rule decay_sum_agree)
  obtain x1 u1 where s1: "decay_sum cfg clk1 rs (Fin 0) w1 = (x1, u1)"
    by (cases "decay_sum cfg clk1 rs (Fin 0) w1")
  obtain x2 u2 where s2: "decay_sum cfg clk2 rs (Fin 0) w2 = (x2, u2)"
    by (cases "decay_sum cfg clk2 rs (Fin 0) w2")
  have "x1 = x2" using e s1 s2 by simp
  then show ?thesis using s1 s2 by (simp add: avg_decay_def split: sum.splits)
qed

lemma fdiv_guarded: "fgt b (Fin 0) \<Longrightarrow> \<exists>q. fdiv a b = Inr q"
  by (cases b; cases a) auto


lemma rating_of_sums_total:
  "\<exists>v. rating_of_sums cfg s = Inr v
     \<and> adjusted_rating v =
         py_min (Fin 5) (py_max (Fin 1) (fadd (weighted_rating v) (sentiment_adjustment_raw v)))
     \<and> trust_score_raw v = fmul (fsub (adjusted_rating v) (Fin 1)) (Fin 25)
     \<and> sentiment_adjustment_raw v = fmul (average_sentiment v) (SENTIMENT_WEIGHT cfg)"
proof (cases "fgt (weight_sum s) (Fin 0)")
  case True
  from fdiv_guarded[OF True, of "weighted_sum s"] obtain q1 where q1: "fdiv (weighted_sum s) (weight_sum s) = Inr q1" by blast
  from fdiv_guarded[OF True, of "sentiment_sum s"] obtain q2 where q2: "fdiv (sentiment_sum s) (weight_sum s) = Inr q2" by blast
  show ?thesis using True q1 q2 by (simp add: rating_of_sums_def Let_def)
next
  case False
  then show ?thesis by (simp add: rating_of_sums_def Let_def)
qed


lemma calculate_trust_score_cases:
  assumes "reviews \<noteq> []"
  shows "fst (calculate_trust_score cfg sa clk reviews w) = Inl OverflowError
   \<or> (\<exists>s w1 v ratio m w2.
        review_loop cfg sa clk reviews
          \<lparr>weighted_sum = Fin 0, weight_sum = Fin 0, sentiment_sum = Fin 0\<rparr> w = (Inr s, w1)
      \<and> rating_of_sums cfg s = Inr v
      \<and> int_truediv (int (length reviews)) 10 = Inr ratio
      \<and> avg_decay cfg clk reviews w1 = (Inr m, w2)
      \<and> calculate_trust_score cfg sa clk reviews w =
          (Inr \<lparr>score = py_round (trust_score_raw v) 1,
                confidence = py_round (py_min (Fin 1) ratio) 2,
                review_count = length reviews,
                average_rating = py_round (weighted_rating v) 2,
                sentiment_adjustment = py_round (sentiment_adjustment_raw v) 2,
                recency_factor = py_round m 2,
                calculation_time = clk (reads w2)\<rparr>,
           w2\<lparr>reads := Suc (reads w2)\<rparr>))"
proof -
  let ?z = "\<lparr>weighted_sum = Fin 0, weight_sum = Fin 0, sentiment_sum = Fin 0\<rparr>"
  obtain x w1 where rl: "review_loop cfg sa clk reviews ?z w = (x, w1)"
    by (cases "review_loop cfg sa clk reviews ?z w")
  from review_loop_cases[of reviews cfg sa clk ?z w]
  have xc: "x = Inl OverflowError \<or> (\<exists>s. x = Inr s)" unfolding rl by auto
  show ?thesis
  proof (cases x)
    case (Inl e)
    then show ?thesis using xc rl assms by (simp add: calculate_trust_score_def)
  next
    case (Inr s)
    from rating_of_sums_total[of cfg s] obtain v where v: "rating_of_sums cfg s = Inr v" by blast
    show ?thesis
    proof (cases "int_truediv (int (length reviews)) 10")
      case (Inl e)
      then have "e = OverflowError" using int_truediv_cases[of 10 "int (length reviews)"] by auto
      then show ?thesis using Inl Inr rl v assms by (simp add: calculate_trust_score_def)
    next
      case rt: (Inr ratio)
      obtain y w2 where ad: "avg_decay cfg clk reviews w1 = (y, w2)"
        by (cases "avg_decay cfg clk reviews w1")
      from avg_decay_cases[OF assms, of cfg clk w1]
      have yc: "y = Inl OverflowError \<or> (\<exists>m. y = Inr m)" unfolding ad by auto
      show ?thesis
      proof (cases y)
        case (Inl e)
        then show ?thesis using yc ad rt Inr rl v assms by (simp add: calculate_trust_score_def)
      next
        case m: (Inr m)
        have "calculate_trust_score cfg sa clk reviews w =
          (Inr \<lparr>score = py_round (trust_score_raw v) 1,
                confidence = py_round (py_min (Fin 1) ratio) 2,
                review_count = length reviews,
                average_rating = py_round (weighted_rating v) 2,
                sentiment_adjustment = py_round (sentiment_adjustment_raw v) 2,
                recency_factor = py_round m 2,
                calculation_time = clk (reads w2)\<rparr>,
           w2\<lparr>reads := Suc (reads w2)\<rparr>)"
          using m ad rt Inr rl v assms by (simp add: calculate_trust_score_def time_time_def)
        then show ?thesis using m ad rt Inr rl v by blast
      qed
    qed
  qed
qed


subsection \<open>Time decay under the default configuration and in the past\<close>

lemma rnd_tdf_bounds: "1 / 32 \<le> rnd (1 / 20) \<and> rnd (1 / 20) \<le> 1 / 16"
proof -
  have a: "rnd (1 / 32) = 1 / 32" using rnd_dyadic[of 1 5] by simp
  have b: "rnd (1 / 16) = 1 / 16" using rnd_dyadic[of 1 4] by simp
  have "rnd (1 / 32) \<le> rnd (1 / 20)" by (rule rnd_mono) simp
  moreover have "rnd (1 / 20) \<le> rnd (1 / 16)" by (rule rnd_mono) simp
  ultimately show ?thesis unfolding a b by simp
qed

lemma rnd_small_fin: "\<bar>x\<bar> \<le> 2 ^ 1023 \<Longrightarrow> fin x = Fin (rnd x)"
proof -
  assume "\<bar>x\<bar> \<le> 2 ^ 1023"
  then have "\<bar>rnd x\<bar> \<le> rnd (2 ^ 1023)" by (rule rnd_abs_le)
  moreover have "rnd (2 ^ 1023) = (2::real) ^ 1023" using rnd_pow2[of 1023] pow2_nat[of 1023] by simp
  ultimately have "\<bar>rnd x\<bar> \<le> fmax" using fmax_ge by linarith
  then show ?thesis by (rule fin_Fin)
qed

lemma default_config_fields:
  "TIME_DECAY_FACTOR default_config = Fin (rnd (1 / 20))"
  "SENTIMENT_WEIGHT default_config = Fin (rnd (3 / 10))"
  "VERIFIED_CLIENT_WEIGHT default_config = Fin (3 / 2)"
  "UNVERIFIED_CLIENT_WEIGHT default_config = Fin (rnd (4 / 5))"
proof -
  have "rnd (3 / 2) = 3 / 2" using rnd_dyadic[of 3 1] by simp
  then show "VERIFIED_CLIENT_WEIGHT default_config = Fin (3 / 2)"
    by (simp add: default_config_def to_float_def rnd_small_fin)
qed (simp_all add: default_config_def to_float_def rnd_small_fin)

lemma decay_now:
  assumes "TIME_DECAY_FACTOR cfg = Fin l" "py_int (clk (reads w)) = ts"
  shows "fst (calculate_time_decay cfg clk ts w) = Inr (Fin 1)"
  using assms fmax_pos le_fmax[of 1]
  by (simp add: calculate_time_decay_fst int_truediv_def TIME_UNIT_def)

lemma age_units_sign:
  "(0 \<le> a \<longrightarrow> 0 \<le> rnd (of_int a / of_int TIME_UNIT))
   \<and> (a \<le> 0 \<longrightarrow> rnd (of_int a / of_int TIME_UNIT) \<le> 0)"
proof -
  have u: "(0::real) < of_int TIME_UNIT" using TIME_UNIT_pos by simp
  show ?thesis
  proof (intro conjI impI)
    assume "0 \<le> a"
    then have "(0::real) \<le> of_int a / of_int TIME_UNIT" using u by simp
    then show "0 \<le> rnd (of_int a / of_int TIME_UNIT)" by (rule rnd_nonneg)
  next
    assume "a \<le> 0"
    then have "(of_int a / of_int TIME_UNIT :: real) \<le> 0" using u by (simp add: divide_le_0_iff)
    then have "rnd (of_int a / of_int TIME_UNIT) \<le> rnd 0" by (rule rnd_mono)
    then show "rnd (of_int a / of_int TIME_UNIT) \<le> 0" by simp
  qed
qed

lemma decay_past:
  assumes "TIME_DECAY_FACTOR cfg = Fin l" "0 \<le> l" "ts \<le> py_int (clk (reads w))"
  shows "int_truediv (py_int (clk (reads w)) - ts) TIME_UNIT = Inl OverflowError
           \<and> fst (calculate_time_decay cfg clk ts w) = Inl OverflowError
         \<or> (\<exists>d. fst (calculate_time_decay cfg clk ts w) = Inr (Fin d) \<and> 0 \<le> d \<and> d \<le> 1 \<and> rnd d = d)"
proof -
  let ?a = "py_int (clk (reads w)) - ts"
  let ?q = "rnd (of_int ?a / of_int TIME_UNIT)"
  have u: "TIME_UNIT \<noteq> 0" by (simp add: TIME_UNIT_def)
  from int_truediv_cases[OF u, of ?a]
  show ?thesis
  proof
    assume "int_truediv ?a TIME_UNIT = Inl OverflowError"
    then show ?thesis by (simp add: calculate_time_decay_fst)
  next
    assume i: "int_truediv ?a TIME_UNIT = Inr (Fin ?q) \<and> \<bar>?q\<bar> \<le> fmax"
    have q: "0 \<le> ?q" using age_units_sign[of ?a] assms(3) by simp
    then have z: "- l * ?q \<le> 0" using assms(2) by (simp add: mult_nonneg_nonneg)
    then have rz: "rnd (- l * ?q) \<le> 0" using rnd_mono[of "- l * ?q" 0] by simp
    from fin_cases[of "- l * ?q"]
    have "fin (- l * ?q) = NInf \<or> fin (- l * ?q) = Fin (rnd (- l * ?q))"
      using rz fmax_pos by auto
    then show ?thesis
    proof
      assume "fin (- l * ?q) = NInf"
      then show ?thesis using i assms(1) by (simp add: calculate_time_decay_fst)
    next
      assume f: "fin (- l * ?q) = Fin (rnd (- l * ?q))"
      from math_exp_nonpos[OF rz] obtain d where
        "math_exp (Fin (rnd (- l * ?q))) = Inr (Fin d)" "0 \<le> d" "d \<le> 1" "rnd d = d" by blast
      then show ?thesis using i f assms(1) by (simp add: calculate_time_decay_fst)
    qed
  qed
qed

lemma decay_past_returns:
  assumes "TIME_DECAY_FACTOR cfg = Fin l" "0 \<le> l" "ts \<le> py_int (clk (reads w))"
    "py_int (clk (reads w)) - ts \<le> 2 ^ 1023"
  shows "\<exists>d. fst (calculate_time_decay cfg clk ts w) = Inr (Fin d) \<and> 0 \<le> d \<and> d \<le> 1 \<and> rnd d = d"
proof -
  let ?a = "py_int (clk (reads w)) - ts"
  have u: "(1::real) \<le> of_int TIME_UNIT" by (simp add: TIME_UNIT_def)
  have a0: "(0::real) \<le> of_int ?a" using assms(3) by simp
  have "(of_int ?a :: real) \<le> of_int (2 ^ 1023)" using assms(4) by (simp only: of_int_le_iff)
  then have a1: "(of_int ?a :: real) \<le> 2 ^ 1023" by simp
  have "(of_int ?a / of_int TIME_UNIT :: real) \<le> of_int ?a / 1"
    using a0 u by (intro divide_left_mono) simp_all
  then have "\<bar>of_int ?a / of_int TIME_UNIT :: real\<bar> \<le> 2 ^ 1023" using a0 a1 u by simp
  then have "fin (of_int ?a / of_int TIME_UNIT) = Fin (rnd (of_int ?a / of_int TIME_UNIT))"
    by (rule rnd_small_fin)
  then have "\<bar>rnd (of_int ?a / of_int TIME_UNIT :: real)\<bar> \<le> fmax"
    using fin_cases[of "of_int ?a / of_int TIME_UNIT"] by auto
  then have "int_truediv ?a TIME_UNIT \<noteq> Inl OverflowError"
    by (simp add: int_truediv_def TIME_UNIT_def Let_def)
  then show ?thesis using decay_past[of cfg l ts clk w] assms(1-3) by blast
qed

subsection \<open>Time decay in the future\<close>

lemma exp_ge_pow2: "2 ^ n \<le> exp (real n)"
proof -
  have "(2::real) \<le> exp 1" using exp_ge_add_one_self[of 1] by simp
  then have "(2::real) ^ n \<le> exp 1 ^ n" by (intro power_mono) simp_all
  also have "exp 1 ^ n = exp (real n * 1)" by (rule exp_of_nat_mult[symmetric])
  finally show ?thesis by simp
qed

lemma rnd_pow2_nat: "rnd (2 ^ n) = 2 ^ n"
  using rnd_pow2[of "int n"] by (simp add: pow2_nat)

lemma math_exp_overflow:
  assumes "1024 \<le> x"
  shows "math_exp (Fin x) = Inl OverflowError"
proof -
  have "(2::real) ^ 1024 \<le> exp (real 1024)" by (rule exp_ge_pow2)
  also have "\<dots> \<le> exp x" using assms by simp
  finally have "rnd (2 ^ 1024) \<le> rnd (exp x)" by (rule rnd_mono)
  then have "2 ^ 1024 \<le> rnd (exp x)" by (simp only: rnd_pow2_nat)
  then have "fmax < rnd (exp x)" using fmax_lt by linarith
  then show ?thesis by (simp add: Let_def)
qed

lemma math_exp_fin_mono:
  assumes "z1 \<le> z2" "math_exp (fin z1) = Inr d1" "math_exp (fin z2) = Inr d2"
  shows "\<not> fgt d1 d2"
proof -
  have r: "rnd z1 \<le> rnd z2" using assms(1) by (rule rnd_mono)
  then have "exp (rnd z1) \<le> exp (rnd z2)" by simp
  then have e: "rnd (exp (rnd z1)) \<le> rnd (exp (rnd z2))" by (rule rnd_mono)
  have p: "0 \<le> rnd (exp (rnd z2))" by (rule rnd_nonneg) simp
  show ?thesis
    using assms(2,3) r e p fmax_pos
    by (auto simp: fin_def Let_def split: if_splits)
qed

lemma decay_mono:
  assumes "TIME_DECAY_FACTOR cfg = Fin l" "0 \<le> l" "ts1 \<le> ts2"
    "fst (calculate_time_decay cfg clk ts1 w) = Inr d1"
    "fst (calculate_time_decay cfg clk ts2 w) = Inr d2"
  shows "\<not> fgt d1 d2"
proof -
  let ?n = "py_int (clk (reads w))"
  let ?q1 = "rnd (of_int (?n - ts1) / of_int TIME_UNIT)"
  let ?q2 = "rnd (of_int (?n - ts2) / of_int TIME_UNIT)"
  have u: "TIME_UNIT \<noteq> 0" by (simp add: TIME_UNIT_def)
  have up: "(0::real) < of_int TIME_UNIT" using TIME_UNIT_pos by simp
  have i1: "int_truediv (?n - ts1) TIME_UNIT = Inr (Fin ?q1)"
    using int_truediv_cases[OF u, of "?n - ts1"] assms(4) by (auto simp: calculate_time_decay_fst)
  have i2: "int_truediv (?n - ts2) TIME_UNIT = Inr (Fin ?q2)"
    using int_truediv_cases[OF u, of "?n - ts2"] assms(5) by (auto simp: calculate_time_decay_fst)
  have "(of_int (?n - ts2) :: real) \<le> of_int (?n - ts1)" using assms(3) by simp
  then have "(of_int (?n - ts2) / of_int TIME_UNIT :: real) \<le> of_int (?n - ts1) / of_int TIME_UNIT"
    using up by (simp add: divide_right_mono)
  then have "?q2 \<le> ?q1" by (rule rnd_mono)
  then have z: "- l * ?q1 \<le> - l * ?q2" using assms(2) by (simp add: mult_left_mono)
  have m1: "math_exp (fin (- l * ?q1)) = Inr d1"
    using assms(1,4) i1 by (simp add: calculate_time_decay_fst)
  have m2: "math_exp (fin (- l * ?q2)) = Inr d2"
    using assms(1,5) i2 by (simp add: calculate_time_decay_fst)
  from z m1 m2 show ?thesis by (rule math_exp_fin_mono)
qed

lemma decay_future:
  assumes "TIME_DECAY_FACTOR cfg = Fin l" "0 \<le> l" "py_int (clk (reads w)) < ts"
  shows "fst (calculate_time_decay cfg clk ts w) = Inl OverflowError
         \<or> (\<exists>d. fst (calculate_time_decay cfg clk ts w) = Inr (Fin d) \<and> 1 \<le> d)
         \<or> fst (calculate_time_decay cfg clk ts w) = Inr PInf"
proof -
  let ?a = "py_int (clk (reads w)) - ts"
  let ?q = "rnd (of_int ?a / of_int TIME_UNIT)"
  have u: "TIME_UNIT \<noteq> 0" by (simp add: TIME_UNIT_def)
  from int_truediv_cases[OF u, of ?a]
  show ?thesis
  proof
    assume "int_truediv ?a TIME_UNIT = Inl OverflowError"
    then show ?thesis by (simp add: calculate_time_decay_fst)
  next
    assume i: "int_truediv ?a TIME_UNIT = Inr (Fin ?q) \<and> \<bar>?q\<bar> \<le> fmax"
    have q: "?q \<le> 0" using age_units_sign[of ?a] assms(3) by simp
    then have z: "0 \<le> - l * ?q" using assms(2) by (simp add: mult_nonneg_nonpos)
    from fin_nonneg_cases[OF z]
    show ?thesis
    proof (elim disjE conjE)
      assume "fin (- l * ?q) = PInf"
      then show ?thesis using i assms(1) by (simp add: calculate_time_decay_fst)
    next
      assume f: "fin (- l * ?q) = Fin (rnd (- l * ?q))" and p: "0 \<le> rnd (- l * ?q)"
      from math_exp_nonneg[OF p] show ?thesis using i f assms(1)
        by (auto simp: calculate_time_decay_fst)
    qed
  qed
qed

lemma decay_future_default:
  assumes "py_int (clk (reads w)) < ts"
  shows "fst (calculate_time_decay default_config clk ts w) = Inl OverflowError
         \<or> (\<exists>d. fst (calculate_time_decay default_config clk ts w) = Inr (Fin d) \<and> 1 < d)"
proof -
  let ?a = "py_int (clk (reads w)) - ts"
  let ?q = "rnd (of_int ?a / of_int TIME_UNIT)"
  let ?l = "rnd (1 / 20)"
  have u: "TIME_UNIT \<noteq> 0" by (simp add: TIME_UNIT_def)
  from int_truediv_cases[OF u, of ?a]
  show ?thesis
  proof
    assume "int_truediv ?a TIME_UNIT = Inl OverflowError"
    then show ?thesis by (simp add: calculate_time_decay_fst)
  next
    assume i: "int_truediv ?a TIME_UNIT = Inr (Fin ?q) \<and> \<bar>?q\<bar> \<le> fmax"
    have "?a \<le> - 1" using assms by simp
    then have "(of_int ?a :: real) \<le> of_int (- 1)" by (simp only: of_int_le_iff)
    then have "(of_int ?a :: real) \<le> - 1" by simp
    then have "(of_int ?a / of_int TIME_UNIT :: real) \<le> - 1 / of_int TIME_UNIT"
      by (simp add: divide_right_mono TIME_UNIT_def)
    also have "(- 1 / of_int TIME_UNIT :: real) \<le> - (1 / 2 ^ 22)" by (simp add: TIME_UNIT_def)
    finally have "?q \<le> rnd (- (1 / 2 ^ 22))" by (rule rnd_mono)
    moreover have "rnd (- (1 / 2 ^ 22)) = - (1 / 2 ^ 22)"
      using rnd_dyadic[of 1 22] by (simp add: rnd_minus)
    ultimately have q: "?q \<le> - (1 / 2 ^ 22)" by simp
    have l: "1 / 32 \<le> ?l" "?l \<le> 1 / 16" using rnd_tdf_bounds by simp_all
    have "1 / 32 * (1 / 2 ^ 22) \<le> ?l * (- ?q)"
      using l(1) q by (intro mult_mono) simp_all
    then have zl: "1 / 2 ^ 27 \<le> - ?l * ?q" by simp
    have qn: "?q \<le> 0" using q by simp
    have "?l * (- ?q) \<le> 1 / 16 * fmax"
      using l i qn by (intro mult_mono) (simp_all add: abs_le_iff)
    then have zu: "- ?l * ?q \<le> 2 ^ 1023" using fmax_lt by simp
    have "\<bar>- ?l * ?q\<bar> \<le> 2 ^ 1023" using zl zu by (simp add: abs_le_iff)
    then have f: "fin (- ?l * ?q) = Fin (rnd (- ?l * ?q))" by (rule rnd_small_fin)
    have "rnd (1 / 2 ^ 27) \<le> rnd (- ?l * ?q)" using zl by (rule rnd_mono)
    moreover have "rnd (1 / 2 ^ 27) = 1 / 2 ^ 27" using rnd_dyadic[of 1 27] by simp
    ultimately have rz: "1 / 2 ^ 27 \<le> rnd (- ?l * ?q)" by simp
    have "1 + 1 / 2 ^ 27 \<le> 1 + rnd (- ?l * ?q)" using rz by simp
    also have "\<dots> \<le> exp (rnd (- ?l * ?q))" by (rule exp_ge_add_one_self)
    finally have "rnd (1 + 1 / 2 ^ 27) \<le> rnd (exp (rnd (- ?l * ?q)))" by (rule rnd_mono)
    moreover have "rnd (1 + 1 / 2 ^ 27) = 1 + 1 / 2 ^ 27"
      using rnd_dyadic[of 134217729 27] by simp
    ultimately have "1 < rnd (exp (rnd (- ?l * ?q)))" by simp
    then show ?thesis using i f
      by (simp add: calculate_time_decay_fst default_config_fields Let_def)
  qed
qed

lemma decay_far_future_overflow:
  "fst (calculate_time_decay default_config (frozen_clock 1000) 84934657000
          \<lparr>reads = 0, sentiment_calls = []\<rparr>) = Inl OverflowError"
proof -
  let ?l = "rnd (1 / 20)"
  have l: "1 / 32 \<le> ?l" "?l \<le> 1 / 16" using rnd_tdf_bounds by simp_all
  have q: "rnd (- 32768) = - 32768" using rnd_of_int[of "- 32768"] by simp
  have i: "int_truediv (py_int (frozen_clock 1000 0) - 84934657000) TIME_UNIT = Inr (Fin (- 32768))"
    using le_fmax[of 32768] by (simp add: int_truediv_def TIME_UNIT_def frozen_clock_def py_int_def q)
  have zl: "1024 \<le> ?l * 32768" using l(1) by simp
  have zu: "?l * 32768 \<le> 2048" using l(2) by simp
  have "\<bar>?l * 32768\<bar> \<le> 2 ^ 1023" using zl zu by (simp add: abs_le_iff)
  then have f: "fin (?l * 32768) = Fin (rnd (?l * 32768))" by (rule rnd_small_fin)
  have "rnd 1024 \<le> rnd (?l * 32768)" using zl by (rule rnd_mono)
  moreover have "rnd 1024 = 1024" using rnd_of_int[of 1024] by simp
  ultimately have "1024 \<le> rnd (?l * 32768)" by simp
  then have "math_exp (Fin (rnd (?l * 32768))) = Inl OverflowError" by (rule math_exp_overflow)
  then show ?thesis using i f
    by (simp add: calculate_time_decay_fst default_config_fields)
qed

lemma decay_zero_factor_future:
  "fst (calculate_time_decay (default_config\<lparr>TIME_DECAY_FACTOR := to_float 0\<rparr>) (frozen_clock 1000)
          2593000 \<lparr>reads = 0, sentiment_calls = []\<rparr>) = Inr (Fin 1)"
proof -
  have q: "rnd (- 1) = - 1" using rnd_of_int[of "- 1"] by simp
  have i: "int_truediv (py_int (frozen_clock 1000 0) - 2593000) TIME_UNIT = Inr (Fin (- 1))"
    using le_fmax[of 1] by (simp add: int_truediv_def TIME_UNIT_def frozen_clock_def py_int_def q)
  show ?thesis using i le_fmax[of 1] by (simp add: calculate_time_decay_fst to_float_def)
qed

subsection \<open>Rounding error and exact values\<close>

lemma rnd_error:
  assumes "pow2 (- 1022) \<le> \<bar>x\<bar>"
  shows "\<bar>rnd x - x\<bar> \<le> \<bar>x\<bar> / 2 ^ 53"
proof -
  have x0: "x \<noteq> 0"
  proof
    assume "x = 0"
    with assms have "pow2 (- 1022) \<le> 0" by simp
    with pow2_pos[of "- 1022"] show False by linarith
  qed
  let ?p = "pow2 (ulp_exp x)"
  have b: "- 1022 \<le> binade x" using assms by (rule binade_ge)
  then have u: "ulp_exp x = binade x - 52" by (simp add: ulp_exp_def)
  have "?p = pow2 (binade x) / pow2 52" unfolding u by (rule pow2_diff)
  also have "pow2 52 = 2 ^ 52" using pow2_nat[of 52] by simp
  finally have p: "?p = pow2 (binade x) / 2 ^ 52" .
  have pl: "?p \<le> \<bar>x\<bar> / 2 ^ 52"
    unfolding p using binade_bounds(1)[OF x0] by (simp add: divide_right_mono)
  have "rnd x - x = (of_int (round_half_even (x / ?p)) - x / ?p) * ?p"
    by (simp add: rnd_pos_eq[OF x0] algebra_simps)
  then have "\<bar>rnd x - x\<bar> = \<bar>of_int (round_half_even (x / ?p)) - x / ?p\<bar> * ?p"
    by (simp add: abs_mult)
  also have "\<dots> \<le> 1 / 2 * ?p" using rhe_near[of "x / ?p"] by (intro mult_right_mono) simp_all
  also have "\<dots> \<le> 1 / 2 * (\<bar>x\<bar> / 2 ^ 52)" using pl by simp
  finally show ?thesis by simp
qed

lemma rnd_close:
  assumes "1 / 2 ^ 10 \<le> \<bar>x\<bar>" "\<bar>x\<bar> \<le> 2 ^ 10"
  shows "\<bar>rnd x - x\<bar> \<le> 1 / 2 ^ 43"
proof -
  have "pow2 (- 1022) \<le> pow2 (- 10)" by (rule pow2_mono) simp
  also have "pow2 (- 10) = 1 / 2 ^ 10"
    using pow2_diff[of 0 10] pow2_nat[of 10] by simp
  finally have "pow2 (- 1022) \<le> \<bar>x\<bar>" using assms(1) by linarith
  then have "\<bar>rnd x - x\<bar> \<le> \<bar>x\<bar> / 2 ^ 53" by (rule rnd_error)
  also have "\<dots> \<le> 2 ^ 10 / 2 ^ 53" using assms(2) by (simp add: divide_right_mono)
  finally show ?thesis by simp
qed

lemma rhe_near_int:
  assumes "\<bar>y - of_int m\<bar> < 1 / 2"
  shows "round_half_even y = m"
proof -
  have "of_int m - 1 / 2 < y" "y < of_int m + 1 / 2" using assms by linarith+
  then have f: "\<lfloor>y\<rfloor> = m \<or> \<lfloor>y\<rfloor> = m - 1" by linarith
  then show ?thesis
  proof
    assume e: "\<lfloor>y\<rfloor> = m"
    then have "y - of_int \<lfloor>y\<rfloor> < 1 / 2" using \<open>y < of_int m + 1 / 2\<close> by simp
    then show ?thesis using e by (simp add: round_half_even_def Let_def)
  next
    assume e: "\<lfloor>y\<rfloor> = m - 1"
    then have "1 / 2 < y - of_int \<lfloor>y\<rfloor>" using \<open>of_int m - 1 / 2 < y\<close> by simp
    then show ?thesis using e by (simp add: round_half_even_def Let_def)
  qed
qed

lemma dec_round_near:
  assumes "\<bar>x - of_int m / 100\<bar> < 1 / 200"
  shows "dec_round x 2 = of_int m / 100"
proof -
  have "\<bar>x * 100 - of_int m\<bar> < 1 / 2" using assms by linarith
  then have "round_half_even (x * 100) = m" by (rule rhe_near_int)
  then show ?thesis by (simp add: dec_round_def)
qed

lemma dec_round_rnd:
  assumes "0 < m" "m \<le> 100000"
  shows "dec_round (rnd (of_int m / 100)) 2 = of_int m / 100"
proof -
  have "(1::real) \<le> of_int m" using assms(1) by simp
  then have "(1 / 2 ^ 10 :: real) \<le> of_int m / 100" by simp
  then have l: "1 / 2 ^ 10 \<le> \<bar>of_int m / 100 :: real\<bar>" by simp
  have "(of_int m :: real) \<le> 100000" using assms(2) by simp
  then have "(of_int m / 100 :: real) \<le> 2 ^ 10" by simp
  then have u: "\<bar>of_int m / 100 :: real\<bar> \<le> 2 ^ 10" using assms(1) by simp
  have "\<bar>rnd (of_int m / 100) - of_int m / 100\<bar> \<le> 1 / 2 ^ 43" using l u by (rule rnd_close)
  then have "\<bar>rnd (of_int m / 100) - of_int m / 100\<bar> < 1 / 200" by simp
  then show ?thesis by (rule dec_round_near)
qed

lemma py_round_cents:
  assumes "0 < m" "m \<le> 100000"
  shows "py_round (Fin (rnd (of_int m / 100))) 2 = Fin (rnd (of_int m / 100))"
proof -
  have "\<bar>of_int m / 100 :: real\<bar> \<le> 2 ^ 1023" using assms by simp
  then have f: "fin (of_int m / 100) = Fin (rnd (of_int m / 100))" by (rule rnd_small_fin)
  have "py_round (Fin (rnd (of_int m / 100))) 2 = fin (dec_round (rnd (of_int m / 100)) 2)" by simp
  also have "\<dots> = fin (of_int m / 100)" by (simp only: dec_round_rnd[OF assms])
  finally show ?thesis using f by simp
qed

lemma py_round_tenth: "py_round (Fin (rnd (1 / 10))) 2 = Fin (rnd (1 / 10))"
  "py_round (Fin (rnd (1 / 5))) 2 = Fin (rnd (1 / 5))"
  "py_round (Fin (rnd (3 / 10))) 2 = Fin (rnd (3 / 10))"
  using py_round_cents[of 10] py_round_cents[of 20] py_round_cents[of 30] by simp_all

lemma fin_int: "\<bar>n\<bar> < 2 ^ 53 \<Longrightarrow> fin (of_int n) = Fin (of_int n)"
proof -
  assume a: "\<bar>n\<bar> < 2 ^ 53"
  then have "(of_int \<bar>n\<bar> :: real) < of_int (2 ^ 53)" by (simp only: of_int_less_iff)
  then have "\<bar>of_int n :: real\<bar> \<le> 2 ^ 1023" by simp
  then show ?thesis using rnd_of_int[OF a] by (simp add: rnd_small_fin)
qed

lemma fin_numeral [simp]:
  "numeral k < (2::int) ^ 53 \<Longrightarrow> fin (numeral k) = Fin (numeral k)"
proof -
  assume "numeral k < (2::int) ^ 53"
  then have "\<bar>numeral k :: int\<bar> < 2 ^ 53" by (simp only: abs_numeral)
  then have "fin (of_int (numeral k)) = Fin (of_int (numeral k))" by (rule fin_int)
  then show ?thesis by (simp only: of_int_numeral)
qed

lemma fin_1 [simp]: "fin 1 = Fin 1"
  using fin_int[of 1] by simp

lemma fin_half_int:
  assumes "\<bar>n\<bar> < 2 ^ 53"
  shows "fin (of_int n / 2) = Fin (of_int n / 2)"
proof -
  have "(of_int \<bar>n\<bar> :: real) < of_int (2 ^ 53)" using assms by (simp only: of_int_less_iff)
  then have c: "\<bar>of_int n / 2 :: real\<bar> \<le> 2 ^ 1023" by simp
  have "rnd (of_int n / 2 ^ 1) = of_int n / 2 ^ 1" using assms by (rule rnd_dyadic) simp
  then have "rnd (of_int n / 2) = of_int n / 2" by simp
  then show ?thesis using rnd_small_fin[OF c] by simp
qed

lemma fin_half [simp]:
  "numeral k < (2::int) ^ 53 \<Longrightarrow> fin (numeral k / 2) = Fin (numeral k / 2)"
proof -
  assume "numeral k < (2::int) ^ 53"
  then have "\<bar>numeral k :: int\<bar> < 2 ^ 53" by (simp only: abs_numeral)
  then have "fin (of_int (numeral k) / 2) = Fin (of_int (numeral k) / 2)" by (rule fin_half_int)
  then show ?thesis by (simp only: of_int_numeral)
qed

lemma fin_rnd [simp]: "fin (rnd x) = fin x"
  by (simp add: fin_def rnd_idem)

lemma int_to_float_numeral [simp]:
  "numeral k < (2::int) ^ 53 \<Longrightarrow> int_to_float (numeral k) = Inr (Fin (numeral k))"
proof -
  assume a: "numeral k < (2::int) ^ 53"
  then have b: "\<bar>numeral k :: int\<bar> < 2 ^ 53" by (simp only: abs_numeral)
  have "fin (of_int (numeral k)) = Fin (of_int (numeral k))" using b by (rule fin_int)
  then have "\<bar>rnd (of_int (numeral k))\<bar> \<le> fmax" using fin_cases[of "of_int (numeral k)"] by auto
  moreover have "rnd (of_int (numeral k)) = of_int (numeral k)" using b by (rule rnd_of_int)
  ultimately show ?thesis unfolding int_to_float_def Let_def by (simp only: if_not_P not_less) simp
qed

lemma int_to_float_1 [simp]: "int_to_float 1 = Inr (Fin 1)"
  using le_fmax[of 1] by (simp add: int_to_float_def)

lemma int_truediv_small:
  assumes "b \<noteq> 0" "\<bar>of_int a / of_int b :: real\<bar> \<le> 2 ^ 1023"
  shows "int_truediv a b = Inr (Fin (rnd (of_int a / of_int b)))"
proof -
  have "fin (of_int a / of_int b) = Fin (rnd (of_int a / of_int b))" using assms(2) by (rule rnd_small_fin)
  then have "\<bar>rnd (of_int a / of_int b)\<bar> \<le> fmax" using fin_cases[of "of_int a / of_int b"] by auto
  then show ?thesis using assms(1) by (simp add: int_truediv_def)
qed

lemma rnd_tiny:
  assumes "0 \<le> x" "x \<le> 1 / 2 ^ 1076"
  shows "rnd x = 0"
proof -
  have p: "pow2 (- 1076) = 1 / 2 ^ 1076" using pow2_diff[of 0 1076] pow2_nat[of 1076] by simp
  have p1: "pow2 (- 1075) = 1 / 2 ^ 1075" using pow2_diff[of 0 1075] pow2_nat[of 1075] by simp
  have p2: "pow2 (- 1074) = 1 / 2 ^ 1074" using pow2_diff[of 0 1074] pow2_nat[of 1074] by simp
  have "pow2 (- 1076) \<le> \<bar>pow2 (- 1076)\<bar>" "\<bar>pow2 (- 1076)\<bar> < pow2 (- 1076 + 1)"
    by (simp_all add: p p1)
  then have "binade (pow2 (- 1076)) = - 1076" by (rule binade_unique)
  then have u: "ulp_exp (pow2 (- 1076)) = - 1074" by (simp add: ulp_exp_def)
  have "pow2 (- 1076) / pow2 (- 1074) = 1 / 4" by (simp add: p p2)
  then have "round_half_even (pow2 (- 1076) / pow2 (- 1074)) = 0"
    by (simp add: round_half_even_def)
  then have "rnd (pow2 (- 1076)) = 0" using u by (simp add: rnd_def)
  then have "rnd (1 / 2 ^ 1076) = 0" by (simp add: p)
  moreover have "rnd x \<le> rnd (1 / 2 ^ 1076)" using assms(2) by (rule rnd_mono)
  moreover have "0 \<le> rnd x" using assms(1) by (rule rnd_nonneg)
  ultimately show ?thesis by simp
qed

lemma math_exp_underflow:
  assumes "x \<le> - 1076"
  shows "math_exp (Fin x) = Inr (Fin 0)"
proof -
  have "(2::real) ^ 1076 \<le> exp (real 1076)" by (rule exp_ge_pow2)
  also have "\<dots> \<le> exp (- x)" using assms by simp
  finally have "1 / exp (- x) \<le> 1 / 2 ^ 1076" by (intro divide_left_mono) simp_all
  then have "exp x \<le> 1 / 2 ^ 1076" by (simp add: exp_minus inverse_eq_divide)
  then have "rnd (exp x) = 0" by (intro rnd_tiny) simp_all
  then show ?thesis using fmax_pos by (simp add: Let_def)
qed

subsection \<open>Evaluated aggregations\<close>

lemma py_int_numeral [simp]: "py_int (numeral k) = numeral k"
  by (simp add: py_int_def)

lemma frozen_clock_val [simp]: "frozen_clock t i = t"
  by (simp add: frozen_clock_def)

lemma calculate_time_decay_now:
  assumes "TIME_DECAY_FACTOR cfg = Fin l" "py_int (clk (reads w)) = ts"
  shows "calculate_time_decay cfg clk ts w = (Inr (Fin 1), w\<lparr>reads := Suc (reads w)\<rparr>)"
  using calculate_time_decay_pair[of cfg clk ts w] decay_now[of cfg l clk w ts] assms by simp

lemma calculate_time_decay_sample [simp]:
  "calculate_time_decay default_config (frozen_clock 1000) 1000 w
     = (Inr (Fin 1), w\<lparr>reads := Suc (reads w)\<rparr>)"
  by (rule calculate_time_decay_now[OF default_config_fields(1)]) simp

lemma rnd_unit_bounds:
  assumes "0 \<le> x" "x \<le> 1"
  shows "0 \<le> rnd x" "rnd x \<le> 1"
  using rnd_mono[OF assms(1)] rnd_mono[OF assms(2)] by simp_all

lemma rnd_tenths [simp]:
  "rnd (1 / 10) < 1" "rnd (1 / 5) < 1" "0 \<le> rnd (3 / 10)" "rnd (3 / 10) \<le> 1"
  "0 \<le> rnd (4 / 5)" "rnd (4 / 5) \<le> 1"
proof -
  have "rnd (1 / 10) \<le> rnd (1 / 2)" "rnd (1 / 5) \<le> rnd (1 / 2)" by (rule rnd_mono, simp)+
  moreover have "rnd (1 / 2) = 1 / 2" using rnd_dyadic[of 1 1] by simp
  ultimately show "rnd (1 / 10) < 1" "rnd (1 / 5) < 1" by simp_all
qed (simp_all add: rnd_unit_bounds)

lemma int_truediv_tenths [simp]:
  "int_truediv 1 10 = Inr (Fin (rnd (1 / 10)))"
  "int_truediv 2 10 = Inr (Fin (rnd (1 / 5)))"
  using int_truediv_small[of 10 1] int_truediv_small[of 10 2] by simp_all

lemma fin_tenths [simp]:
  "fin (1 / 10) = Fin (rnd (1 / 10))" "fin (1 / 5) = Fin (rnd (1 / 5))"
  "fin (3 / 10) = Fin (rnd (3 / 10))" "fin (4 / 5) = Fin (rnd (4 / 5))"
  "fin (1 / 20) = Fin (rnd (1 / 20))"
  by (simp_all add: rnd_small_fin)

lemma dec_round_tenths [simp]:
  "dec_round (rnd (1 / 10)) 2 = 1 / 10" "dec_round (rnd (1 / 5)) 2 = 1 / 5"
  "dec_round (rnd (3 / 10)) 2 = 3 / 10"
  using dec_round_rnd[of 10] dec_round_rnd[of 20] dec_round_rnd[of 30] by simp_all

lemmas eval_simps =
  calculate_trust_score_def review_step_def rating_of_sums_def avg_decay_def time_time_def
  Let_def default_config_fields to_float_def fsub_def
  py_max_def py_min_def analyze_sentiment_def analyze_sentiment_try_def positive_pipeline_def
  failing_pipeline_def

lemma scenario_single_review:
  "calculate_trust_score default_config None (frozen_clock 1000)
     [\<lparr>client_address = ''x'', client_verified = True, rating = 5, comment = [], timestamp = 1000\<rparr>]
     \<lparr>reads = 0, sentiment_calls = []\<rparr> =
   (Inr \<lparr>score = Fin 100, confidence = to_float (1 / 10), review_count = 1, average_rating = Fin 5,
         sentiment_adjustment = Fin 0, recency_factor = Fin 1, calculation_time = 1000\<rparr>,
    \<lparr>reads = 3, sentiment_calls = []\<rparr>)"
  by (simp add: eval_simps)

lemma scenario_positive_review:
  "calculate_trust_score default_config (Some positive_pipeline) (frozen_clock 1000)
     [\<lparr>client_address = ''x'', client_verified = True, rating = 5, comment = ''good'', timestamp = 1000\<rparr>]
     \<lparr>reads = 0, sentiment_calls = []\<rparr> =
   (Inr \<lparr>score = Fin 100, confidence = to_float (1 / 10), review_count = 1, average_rating = Fin 5,
         sentiment_adjustment = to_float (3 / 10), recency_factor = Fin 1, calculation_time = 1000\<rparr>,
    \<lparr>reads = 3, sentiment_calls = [''good'']\<rparr>)"
proof -
  have "5 \<le> 5 + rnd (3 / 10)" "5 + rnd (3 / 10) \<le> 6" by simp_all
  then have "rnd 5 \<le> rnd (5 + rnd (3 / 10))" "rnd (5 + rnd (3 / 10)) \<le> rnd 6"
    by (simp_all only: rnd_mono)
  moreover have "rnd 6 = 6" using rnd_of_int[of 6] by simp
  ultimately have b: "5 \<le> rnd (5 + rnd (3 / 10))" "rnd (5 + rnd (3 / 10)) \<le> 6" by simp_all
  have "(6::real) \<le> 2 ^ 1023" by simp
  then have "\<bar>5 + rnd (3 / 10)\<bar> \<le> 2 ^ 1023"
    using rnd_tenths(3,4) by (simp only: abs_le_iff) linarith
  then have f: "fin (5 + rnd (3 / 10)) = Fin (rnd (5 + rnd (3 / 10)))" by (rule rnd_small_fin)
  show ?thesis using b f by (simp add: eval_simps)
qed

subsection \<open>Returning runs and the mean decay\<close>





lemma length_float:
  assumes "n < 2 ^ 63"
  shows "int_to_float (int n) = Inr (Fin (rnd (real n)))"
    "int_truediv (int n) 10 = Inr (Fin (rnd (real n / 10)))"
proof -
  have "real n < real (2 ^ 63)" using assms by (simp only: of_nat_less_iff)
  then have b: "real n < 2 ^ 63" by simp
  then have "\<bar>real n\<bar> \<le> 2 ^ 1023" by simp
  then have "fin (real n) = Fin (rnd (real n))" by (rule rnd_small_fin)
  then have "\<bar>rnd (real n)\<bar> \<le> fmax" using fin_cases[of "real n"] by auto
  then show "int_to_float (int n) = Inr (Fin (rnd (real n)))" by (simp add: int_to_float_def)
  have "\<bar>of_int (int n) / of_int 10 :: real\<bar> \<le> 2 ^ 1023" using b by simp
  then have "int_truediv (int n) 10 = Inr (Fin (rnd (of_int (int n) / of_int 10)))"
    by (intro int_truediv_small) simp_all
  then show "int_truediv (int n) 10 = Inr (Fin (rnd (real n / 10)))" by simp
qed





subsection \<open>The sentiment sums\<close>

lemma is_double_iff: "fin x = Fin x \<longleftrightarrow> rnd x = x \<and> \<bar>x\<bar> \<le> fmax"
  using fin_cases[of x] fin_exact[of x] fmax_pos by auto

lemma total_weight_cases:
  assumes "fst (calculate_time_decay cfg clk ts w) = Inr d" "0 \<le> c"
  shows "fmul d (Fin c) = PInf \<or> fmul d (Fin c) = NaN
         \<or> (\<exists>t. fmul d (Fin c) = Fin t \<and> 0 \<le> t \<and> rnd t = t \<and> t \<le> fmax)"
proof -
  from calculate_time_decay_cases[of cfg clk ts w] assms(1)
  have "(\<exists>x. d = Fin x \<and> 0 \<le> x) \<or> d = PInf \<or> d = NaN" by auto
  then show ?thesis
  proof (elim disjE exE conjE)
    fix x assume x: "d = Fin x" "0 \<le> x"
    have "0 \<le> x * c" using x(2) assms(2) by simp
    from fin_nonneg_cases[OF this] show ?thesis using x(1) by (auto simp: rnd_idem)
  next
    assume "d = PInf"
    then show ?thesis using assms(2) by auto
  next
    assume "d = NaN"
    then show ?thesis by simp
  qed
qed

lemma inv_step:
  assumes tw: "tw = PInf \<or> tw = NaN \<or> (\<exists>t. tw = Fin t \<and> 0 \<le> t \<and> rnd t = t \<and> t \<le> fmax)"
    and inv: "(\<exists>a z. W = Fin a \<and> S = Fin z \<and> rnd a = a \<and> \<bar>z\<bar> \<le> a) \<or> W = PInf \<or> W = NaN"
    and S': "S' = S \<or> (\<exists>v. \<bar>v\<bar> \<le> 1 \<and> S' = fadd S (fmul (Fin v) tw))"
  shows "(\<exists>a z. fadd W tw = Fin a \<and> S' = Fin z \<and> rnd a = a \<and> \<bar>z\<bar> \<le> a)
         \<or> fadd W tw = PInf \<or> fadd W tw = NaN"
  using inv
proof (elim disjE exE conjE)
  assume "W = PInf"
  then show ?thesis using tw by auto
next
  assume "W = NaN"
  then show ?thesis by simp
next
  fix a z assume W: "W = Fin a" and S: "S = Fin z" and ra: "rnd a = a" and za: "\<bar>z\<bar> \<le> a"
  from tw show ?thesis
  proof (elim disjE exE conjE)
    assume "tw = PInf"
    then show ?thesis using W by simp
  next
    assume "tw = NaN"
    then show ?thesis using W by simp
  next
    fix t assume t: "tw = Fin t" "0 \<le> t" "rnd t = t" "t \<le> fmax"
    have a0: "0 \<le> a" using za by linarith
    have at: "0 \<le> a + t" using a0 t(2) by simp
    from fin_nonneg_cases[OF at] show ?thesis
    proof (elim disjE conjE)
      assume "fin (a + t) = PInf"
      then show ?thesis using W t(1) by simp
    next
      assume f: "fin (a + t) = Fin (rnd (a + t))" and u: "rnd (a + t) \<le> fmax"
      have w': "fadd W tw = Fin (rnd (a + t))" using W t(1) f by simp
      have "rnd a \<le> rnd (a + t)" using t(2) by (intro rnd_mono) simp
      then have aa: "a \<le> rnd (a + t)" using ra by simp
      from S' have "\<exists>z'. S' = Fin z' \<and> \<bar>z'\<bar> \<le> rnd (a + t)"
      proof (elim disjE exE conjE)
        assume "S' = S"
        then show ?thesis using S za aa by simp
      next
        fix v assume v: "\<bar>v\<bar> \<le> 1" and e: "S' = fadd S (fmul (Fin v) tw)"
        have "\<bar>v * t\<bar> \<le> t" using v t(2) by (simp add: abs_mult mult_left_le_one_le)
        then have p: "fin (v * t) = Fin (rnd (v * t)) \<and> \<bar>rnd (v * t)\<bar> \<le> t"
          using t(3,4) by (rule fin_abs_le)
        have "\<bar>z + rnd (v * t)\<bar> \<le> a + t" using za p by linarith
        then have "\<bar>rnd (z + rnd (v * t))\<bar> \<le> rnd (a + t)" by (rule rnd_abs_le)
        moreover from this have "fin (z + rnd (v * t)) = Fin (rnd (z + rnd (v * t)))"
          using u by (intro fin_Fin) linarith
        ultimately show ?thesis using e S t(1) p by simp
      qed
      then show ?thesis using w' by (auto simp: rnd_idem)
    qed
  qed
qed

lemma review_step_sums:
  assumes "review_step cfg sa clk r s w = (Inr s', w')"
  shows "\<exists>d. fst (calculate_time_decay cfg clk (timestamp r) w) = Inr d
     \<and> weight_sum s' = fadd (weight_sum s)
          (fmul d (if client_verified r then VERIFIED_CLIENT_WEIGHT cfg else UNVERIFIED_CLIENT_WEIGHT cfg))
     \<and> sentiment_sum s' =
         (if comment r \<noteq> [] then
            fadd (sentiment_sum s)
              (fmul (sentiment_value sa (comment r))
                 (fmul d (if client_verified r then VERIFIED_CLIENT_WEIGHT cfg
                          else UNVERIFIED_CLIENT_WEIGHT cfg)))
          else sentiment_sum s)"
proof -
  note p = calculate_time_decay_pair[of cfg clk "timestamp r" w]
  show ?thesis
  proof (cases "fst (calculate_time_decay cfg clk (timestamp r) w)")
    case (Inl e)
    then show ?thesis using p assms by (simp add: review_step_def)
  next
    case (Inr d)
    show ?thesis
    proof (cases "int_to_float (rating r)")
      case (Inl e)
      then show ?thesis using p assms Inr by (simp add: review_step_def Let_def)
    next
      case rf: (Inr x)
      show ?thesis using p assms Inr rf
        by (auto simp: review_step_def Let_def analyze_sentiment_value split: if_splits)
    qed
  qed
qed

lemma review_step_inv:
  assumes "VERIFIED_CLIENT_WEIGHT cfg = Fin cv" "0 \<le> cv"
    "UNVERIFIED_CLIENT_WEIGHT cfg = Fin cu" "0 \<le> cu"
    "\<forall>tx. \<exists>v. sentiment_value sa tx = Fin v \<and> \<bar>v\<bar> \<le> 1"
    "review_step cfg sa clk r s w = (Inr s', w')"
    "(\<exists>a z. weight_sum s = Fin a \<and> sentiment_sum s = Fin z \<and> rnd a = a \<and> \<bar>z\<bar> \<le> a)
     \<or> weight_sum s = PInf \<or> weight_sum s = NaN"
  shows "(\<exists>a z. weight_sum s' = Fin a \<and> sentiment_sum s' = Fin z \<and> rnd a = a \<and> \<bar>z\<bar> \<le> a)
     \<or> weight_sum s' = PInf \<or> weight_sum s' = NaN"
proof -
  let ?cw = "if client_verified r then VERIFIED_CLIENT_WEIGHT cfg else UNVERIFIED_CLIENT_WEIGHT cfg"
  from review_step_sums[OF assms(6)] obtain d where
    d: "fst (calculate_time_decay cfg clk (timestamp r) w) = Inr d"
    and W: "weight_sum s' = fadd (weight_sum s) (fmul d ?cw)"
    and S: "sentiment_sum s' =
         (if comment r \<noteq> [] then
            fadd (sentiment_sum s) (fmul (sentiment_value sa (comment r)) (fmul d ?cw))
          else sentiment_sum s)"
    by blast
  obtain c where c: "?cw = Fin c" "0 \<le> c" using assms(1-4) by (cases "client_verified r") simp_all
  have tw: "fmul d ?cw = PInf \<or> fmul d ?cw = NaN
        \<or> (\<exists>t. fmul d ?cw = Fin t \<and> 0 \<le> t \<and> rnd t = t \<and> t \<le> fmax)"
    unfolding c(1) using d c(2) by (rule total_weight_cases)
  from assms(5) obtain v where v: "sentiment_value sa (comment r) = Fin v" "\<bar>v\<bar> \<le> 1" by blast
  have S': "sentiment_sum s' = sentiment_sum s
        \<or> (\<exists>v. \<bar>v\<bar> \<le> 1 \<and> sentiment_sum s' = fadd (sentiment_sum s) (fmul (Fin v) (fmul d ?cw)))"
    using S v by (cases "comment r = []") auto
  show ?thesis unfolding W using tw assms(7) S' by (rule inv_step)
qed

lemma review_loop_inv:
  assumes "VERIFIED_CLIENT_WEIGHT cfg = Fin cv" "0 \<le> cv"
    "UNVERIFIED_CLIENT_WEIGHT cfg = Fin cu" "0 \<le> cu"
    "\<forall>tx. \<exists>v. sentiment_value sa tx = Fin v \<and> \<bar>v\<bar> \<le> 1"
    "review_loop cfg sa clk rs s w = (Inr s', w')"
    "(\<exists>a z. weight_sum s = Fin a \<and> sentiment_sum s = Fin z \<and> rnd a = a \<and> \<bar>z\<bar> \<le> a)
     \<or> weight_sum s = PInf \<or> weight_sum s = NaN"
  shows "(\<exists>a z. weight_sum s' = Fin a \<and> sentiment_sum s' = Fin z \<and> rnd a = a \<and> \<bar>z\<bar> \<le> a)
     \<or> weight_sum s' = PInf \<or> weight_sum s' = NaN"
  using assms(6,7)
proof (induction rs arbitrary: s w)
  case Nil
  then show ?case by simp
next
  case (Cons r rs)
  obtain x w1 where st: "review_step cfg sa clk r s w = (x, w1)"
    by (cases "review_step cfg sa clk r s w")
  show ?case
  proof (cases x)
    case (Inl e)
    then show ?thesis using st Cons.prems(1) by simp
  next
    case (Inr s1)
    have i1: "(\<exists>a z. weight_sum s1 = Fin a \<and> sentiment_sum s1 = Fin z \<and> rnd a = a \<and> \<bar>z\<bar> \<le> a)
     \<or> weight_sum s1 = PInf \<or> weight_sum s1 = NaN"
      using assms(1-5) st[unfolded Inr] Cons.prems(2) by (rule review_step_inv)
    have "review_loop cfg sa clk rs s1 w1 = (Inr s', w')" using st Inr Cons.prems(1) by simp
    then show ?thesis using i1 by (rule Cons.IH)
  qed
qed

lemma adjustment_bound:
  assumes "SENTIMENT_WEIGHT cfg = Fin sw" "fin sw = Fin sw" "0 \<le> sw"
    "(\<exists>a z. weight_sum s = Fin a \<and> sentiment_sum s = Fin z \<and> rnd a = a \<and> \<bar>z\<bar> \<le> a)
     \<or> weight_sum s = NaN"
    "rating_of_sums cfg s = Inr v"
  shows "\<exists>x. sentiment_adjustment_raw v = Fin x \<and> \<bar>x\<bar> \<le> sw"
proof -
  have sw: "rnd sw = sw" "sw \<le> fmax" using assms(2) is_double_iff[of sw] by auto
  have "\<exists>y. average_sentiment v = Fin y \<and> \<bar>y\<bar> \<le> 1"
    using assms(4)
  proof (elim disjE exE conjE)
    assume "weight_sum s = NaN"
    then show ?thesis using assms(5) by (auto simp: rating_of_sums_def Let_def)
  next
    fix a z assume W: "weight_sum s = Fin a" and S: "sentiment_sum s = Fin z" and za: "\<bar>z\<bar> \<le> a"
    show ?thesis
    proof (cases "0 < a")
      case False
      then show ?thesis using W assms(5) by (auto simp: rating_of_sums_def Let_def)
    next
      case True
      then have "\<bar>z / a\<bar> \<le> 1" using za by simp
      then have "fin (z / a) = Fin (rnd (z / a)) \<and> \<bar>rnd (z / a)\<bar> \<le> 1"
        using le_fmax[of 1] by (intro fin_abs_le) simp_all
      moreover have "average_sentiment v = fin (z / a)"
        using True W S assms(5) by (auto simp: rating_of_sums_def Let_def split: sum.splits)
      ultimately show ?thesis by simp
    qed
  qed
  then obtain y where y: "average_sentiment v = Fin y" "\<bar>y\<bar> \<le> 1" by blast
  have "\<bar>y * sw\<bar> \<le> sw" using y(2) assms(3) by (simp add: abs_mult mult_left_le_one_le)
  then have "fin (y * sw) = Fin (rnd (y * sw)) \<and> \<bar>rnd (y * sw)\<bar> \<le> sw" using sw by (rule fin_abs_le)
  moreover have "sentiment_adjustment_raw v = fmul (average_sentiment v) (SENTIMENT_WEIGHT cfg)"
    using rating_of_sums_total[of cfg s] assms(5) by auto
  ultimately show ?thesis using y(1) assms(1) by simp
qed

lemma reported_bound:
  assumes "\<bar>x\<bar> \<le> sw" "py_round (Fin sw) 2 = Fin sw"
  shows "\<exists>y. py_round (Fin x) 2 = Fin y \<and> \<bar>y\<bar> \<le> sw"
proof -
  have f: "fin (dec_round sw 2) = Fin sw" using assms(2) by simp
  then have r: "rnd (dec_round sw 2) = sw" "sw \<le> fmax"
    using fin_cases[of "dec_round sw 2"] by auto
  have "\<bar>dec_round x 2\<bar> \<le> dec_round sw 2" using assms(1) by (rule dec_round_abs_le)
  then have "\<bar>rnd (dec_round x 2)\<bar> \<le> rnd (dec_round sw 2)" by (rule rnd_abs_le)
  then have b: "\<bar>rnd (dec_round x 2)\<bar> \<le> sw" using r(1) by simp
  then have "fin (dec_round x 2) = Fin (rnd (dec_round x 2))" using r(2) by (intro fin_Fin) linarith
  then show ?thesis using b by simp
qed

subsection \<open>Bounds on the exponential\<close>

lemma exp_taylor_lower:
  fixes x :: real
  assumes "0 \<le> x"
  shows "(\<Sum>m<n. x ^ m / fact m) \<le> exp x"
proof -
  from Maclaurin_exp_le[of x n] obtain t where
    t: "exp x = (\<Sum>m<n. x ^ m / fact m) + exp t / fact n * x ^ n" by blast
  have "0 \<le> exp t / fact n * x ^ n" using assms by simp
  then show ?thesis using t by linarith
qed

lemma exp_taylor_upper:
  fixes x :: real
  assumes "0 \<le> x" "x \<le> 1"
  shows "exp x \<le> (\<Sum>m<n. x ^ m / fact m) + 3 / fact n * x ^ n"
proof -
  from Maclaurin_exp_le[of x n] obtain t where
    t: "\<bar>t\<bar> \<le> \<bar>x\<bar>" "exp x = (\<Sum>m<n. x ^ m / fact m) + exp t / fact n * x ^ n" by blast
  have "t \<le> 1" using t(1) assms by linarith
  then have "exp t \<le> exp 1" by simp
  also have "exp 1 \<le> (3::real)" by (rule exp_le)
  finally have "exp t / fact n \<le> 3 / fact n" by (simp add: divide_right_mono)
  then have "exp t / fact n * x ^ n \<le> 3 / fact n * x ^ n"
    using assms(1) by (intro mult_right_mono) simp_all
  then show ?thesis using t(2) by linarith
qed

lemma exp_ln2_upper: "exp (693 / 1000) \<le> (2::real)"
proof -
  have "exp (693 / 1000 :: real) \<le> (\<Sum>m<8. (693 / 1000) ^ m / fact m) + 3 / fact 8 * (693 / 1000) ^ 8"
    by (rule exp_taylor_upper) simp_all
  also have "\<dots> \<le> 2" by (simp add: lessThan_Suc eval_nat_numeral fact_numeral)
  finally show ?thesis .
qed

lemma exp_ln2_lower: "(2::real) \<le> exp (6934 / 10000)"
proof -
  have "(2::real) \<le> (\<Sum>m<7. (6934 / 10000) ^ m / fact m)"
    by (simp add: lessThan_Suc eval_nat_numeral fact_numeral)
  also have "\<dots> \<le> exp (6934 / 10000)" by (rule exp_taylor_lower) simp
  finally show ?thesis .
qed

subsection \<open>A decay weight close to the largest float\<close>

lemma exp_window:
  assumes "5675 / 8 \<le> x" "x \<le> 1419 / 2"
  shows "2 ^ 1023 \<le> exp x" "exp x \<le> fmax"
proof -
  have "(2::real) ^ 1023 \<le> exp (6934 / 10000) ^ 1023"
    using exp_ln2_lower by (intro power_mono) simp_all
  also have "\<dots> = exp (real 1023 * (6934 / 10000))" by (rule exp_of_nat_mult[symmetric])
  also have "\<dots> \<le> exp x" using assms(1) by simp
  finally show "2 ^ 1023 \<le> exp x" .
  have a: "exp (693 / 1000) ^ 1024 \<le> (2::real) ^ 1024"
    using exp_ln2_upper by (intro power_mono) simp_all
  have "exp (real 1024 * (693 / 1000)) = exp (693 / 1000) ^ 1024" by (rule exp_of_nat_mult)
  then have b: "exp (real 1024 * (693 / 1000)) \<le> 2 ^ 1024" using a by simp
  have "1 + 132 / 1000 \<le> exp (132 / 1000 :: real)" by (rule exp_ge_add_one_self)
  then have "1 / exp (132 / 1000 :: real) \<le> 1 / (1 + 132 / 1000)"
    by (intro divide_left_mono) simp_all
  then have c: "exp (- (132 / 1000) :: real) \<le> 1000 / 1132" by (simp add: exp_minus inverse_eq_divide)
  have "x \<le> - (132 / 1000) + real 1024 * (693 / 1000)" using assms(2) by simp
  then have "exp x \<le> exp (- (132 / 1000) + real 1024 * (693 / 1000))" by simp
  also have "\<dots> = exp (- (132 / 1000)) * exp (real 1024 * (693 / 1000))" by (rule exp_add)
  also have "\<dots> \<le> 1000 / 1132 * 2 ^ 1024" using b c by (intro mult_mono) simp_all
  also have "\<dots> \<le> fmax" by (simp add: fmax_def)
  finally show "exp x \<le> fmax" .
qed

lemma tdf_tight: "52428 / 2 ^ 20 \<le> rnd (1 / 20)" "rnd (1 / 20) \<le> 52429 / 2 ^ 20"
proof -
  have a: "rnd (52428 / 2 ^ 20) = 52428 / 2 ^ 20" using rnd_dyadic[of 52428 20] by simp
  have b: "rnd (52429 / 2 ^ 20) = 52429 / 2 ^ 20" using rnd_dyadic[of 52429 20] by simp
  have "rnd (52428 / 2 ^ 20) \<le> rnd (1 / 20)" by (rule rnd_mono) simp
  then show "52428 / 2 ^ 20 \<le> rnd (1 / 20)" unfolding a .
  have "rnd (1 / 20) \<le> rnd (52429 / 2 ^ 20)" by (rule rnd_mono) simp
  then show "rnd (1 / 20) \<le> 52429 / 2 ^ 20" unfolding b .
qed

lemma window_arg:
  "5675 / 8 \<le> rnd (rnd (1 / 20) * 14188)" "rnd (rnd (1 / 20) * 14188) \<le> 1419 / 2"
proof -
  have a: "rnd (5675 / 8) = 5675 / 8" using rnd_dyadic[of 5675 3] by simp
  have b: "rnd (1419 / 2) = 1419 / 2" using rnd_dyadic[of 1419 1] by simp
  have "5675 / 8 \<le> rnd (1 / 20) * 14188" using tdf_tight(1) by simp
  then have "rnd (5675 / 8) \<le> rnd (rnd (1 / 20) * 14188)" by (rule rnd_mono)
  then show "5675 / 8 \<le> rnd (rnd (1 / 20) * 14188)" unfolding a .
  have "rnd (1 / 20) * 14188 \<le> 1419 / 2" using tdf_tight(2) by simp
  then have "rnd (rnd (1 / 20) * 14188) \<le> rnd (1419 / 2)" by (rule rnd_mono)
  then show "rnd (rnd (1 / 20) * 14188) \<le> 1419 / 2" unfolding b .
qed

lemma window_decay:
  "2 ^ 1023 \<le> rnd (exp (rnd (rnd (1 / 20) * 14188)))"
  "rnd (exp (rnd (rnd (1 / 20) * 14188))) \<le> fmax"
proof -
  note e = exp_window[OF window_arg]
  have "rnd (2 ^ 1023) \<le> rnd (exp (rnd (rnd (1 / 20) * 14188)))" using e(1) by (rule rnd_mono)
  then show "2 ^ 1023 \<le> rnd (exp (rnd (rnd (1 / 20) * 14188)))" by (simp only: rnd_pow2_nat)
  have "rnd (exp (rnd (rnd (1 / 20) * 14188))) \<le> rnd fmax" using e(2) by (rule rnd_mono)
  then show "rnd (exp (rnd (rnd (1 / 20) * 14188))) \<le> fmax" by (simp only: rnd_fmax)
qed

lemma calculate_time_decay_window:
  "calculate_time_decay default_config (frozen_clock 1000) 36775297000 w =
     (Inr (Fin (rnd (exp (rnd (rnd (1 / 20) * 14188))))), w\<lparr>reads := Suc (reads w)\<rparr>)"
proof -
  have q: "rnd (- 14188) = - 14188" using rnd_of_int[of "- 14188"] by simp
  have i: "int_truediv (py_int (frozen_clock 1000 (reads w)) - 36775297000) TIME_UNIT
           = Inr (Fin (- 14188))"
    using le_fmax[of 14188] by (simp add: int_truediv_def TIME_UNIT_def q)
  have "\<bar>rnd (1 / 20) * 14188\<bar> \<le> 2 ^ 1023" using rnd_tdf_bounds by (simp add: abs_le_iff)
  then have f: "fin (rnd (1 / 20) * 14188) = Fin (rnd (rnd (1 / 20) * 14188))" by (rule rnd_small_fin)
  have "fst (calculate_time_decay default_config (frozen_clock 1000) 36775297000 w)
        = Inr (Fin (rnd (exp (rnd (rnd (1 / 20) * 14188)))))"
    using i f window_decay(2)
    by (simp add: calculate_time_decay_fst default_config_fields Let_def)
  then show ?thesis using calculate_time_decay_pair[of default_config "frozen_clock 1000" 36775297000 w]
    by simp
qed

subsection \<open>Sums that overflow\<close>

lemma fin_big:
  assumes "2 ^ 1024 \<le> x"
  shows "fin x = PInf"
proof -
  have "rnd (2 ^ 1024) \<le> rnd x" using assms by (rule rnd_mono)
  then have "2 ^ 1024 \<le> rnd x" by (simp only: rnd_pow2_nat)
  then have "fmax < rnd x" using fmax_lt by linarith
  then show ?thesis by (simp add: fin_def)
qed

lemma fin_double:
  assumes "2 ^ 1023 \<le> t"
  shows "fin (t + t) = PInf" "fin (2 * t) = PInf" "fin (5 * t) = PInf" "fin (t * 5) = PInf"
  using assms by (simp_all add: fin_big)

lemma overflow_sums:
  assumes "tw = PInf \<or> (\<exists>t. tw = Fin t \<and> 2 ^ 1023 \<le> t \<and> fin t = Fin t)"
  shows "fadd (fadd (Fin 0) tw) tw = PInf"
    "fadd (fadd (Fin 0) (fmul (Fin 1) tw)) (fmul (Fin 1) tw) = PInf"
    "fadd (fadd (Fin 0) (fmul (Fin 5) tw)) (fmul (Fin 5) tw) = PInf"
  using assms by (auto simp: fin_double)

lemma nan_rating:
  assumes "weighted_sum s = PInf" "weight_sum s = PInf" "sentiment_sum s = PInf"
  shows "rating_of_sums default_config s =
     Inr \<lparr>weighted_rating = NaN, average_sentiment = NaN, sentiment_adjustment_raw = NaN,
          adjusted_rating = Fin 1, trust_score_raw = Fin 0\<rparr>"
  using assms by (simp add: rating_of_sums_def Let_def py_min_def py_max_def fsub_def)

lemma overflow_weight:
  "fmul (Fin (rnd (exp (rnd (rnd (1 / 20) * 14188))))) (Fin (3 / 2)) = PInf
   \<or> (\<exists>t. fmul (Fin (rnd (exp (rnd (rnd (1 / 20) * 14188))))) (Fin (3 / 2)) = Fin t
          \<and> 2 ^ 1023 \<le> t \<and> fin t = Fin t)"
proof -
  let ?D = "rnd (exp (rnd (rnd (1 / 20) * 14188)))"
  let ?tw = "fmul (Fin ?D) (Fin (3 / 2))"
  have "0 \<le> ?D * (3 / 2)" using window_decay(1) by simp
  from fin_nonneg_cases[OF this]
  show "?tw = PInf \<or> (\<exists>t. ?tw = Fin t \<and> 2 ^ 1023 \<le> t \<and> fin t = Fin t)"
  proof (elim disjE conjE)
    assume "fin (?D * (3 / 2)) = PInf"
    then show ?thesis by simp
  next
    assume f: "fin (?D * (3 / 2)) = Fin (rnd (?D * (3 / 2)))" and u: "rnd (?D * (3 / 2)) \<le> fmax"
      and p: "0 \<le> rnd (?D * (3 / 2))"
    have "2 ^ 1023 \<le> ?D * (3 / 2)" using window_decay(1) by simp
    then have "rnd (2 ^ 1023) \<le> rnd (?D * (3 / 2))" by (rule rnd_mono)
    then have l: "2 ^ 1023 \<le> rnd (?D * (3 / 2))" by (simp only: rnd_pow2_nat)
    have "fin (rnd (?D * (3 / 2))) = Fin (rnd (?D * (3 / 2)))" using f by simp
    then show ?thesis using f l by simp
  qed
qed

lemma overflow_step:
  "review_step default_config (Some positive_pipeline) (frozen_clock 1000)
         \<lparr>client_address = a, client_verified = True, rating = 5, comment = ''good'',
          timestamp = 36775297000\<rparr> s w =
        (Inr \<lparr>weighted_sum = fadd (weighted_sum s)
                 (fmul (Fin 5) (fmul (Fin (rnd (exp (rnd (rnd (1 / 20) * 14188))))) (Fin (3 / 2)))),
              weight_sum = fadd (weight_sum s)
                 (fmul (Fin (rnd (exp (rnd (rnd (1 / 20) * 14188))))) (Fin (3 / 2))),
              sentiment_sum = fadd (sentiment_sum s)
                 (fmul (Fin 1) (fmul (Fin (rnd (exp (rnd (rnd (1 / 20) * 14188))))) (Fin (3 / 2))))\<rparr>,
         w\<lparr>reads := Suc (reads w), sentiment_calls := sentiment_calls w @ [''good'']\<rparr>)"
  by (simp add: review_step_def calculate_time_decay_window default_config_fields Let_def
        analyze_sentiment_def analyze_sentiment_try_def positive_pipeline_def)

lemma overflow_avg_decay:
  "avg_decay default_config (frozen_clock 1000)
     [\<lparr>client_address = a, client_verified = True, rating = 5, comment = ''good'',
       timestamp = 36775297000\<rparr>,
      \<lparr>client_address = b, client_verified = True, rating = 5, comment = ''good'',
       timestamp = 36775297000\<rparr>] w =
   (Inr PInf, w\<lparr>reads := Suc (Suc (reads w))\<rparr>)"
proof -
  let ?D = "rnd (exp (rnd (rnd (1 / 20) * 14188)))"
  have "fin ?D = Fin ?D" using window_decay(1,2) by (intro fin_exact) (simp_all add: rnd_idem)
  moreover have "fin (?D + ?D) = PInf" using window_decay(1) by (rule fin_double)
  ultimately show ?thesis
    by (simp add: avg_decay_def calculate_time_decay_window)
qed

lemma overflow_nan_result:
  "calculate_trust_score default_config (Some positive_pipeline) (frozen_clock 1000)
     [\<lparr>client_address = ''x'', client_verified = True, rating = 5, comment = ''good'',
       timestamp = 36775297000\<rparr>,
      \<lparr>client_address = ''y'', client_verified = True, rating = 5, comment = ''good'',
       timestamp = 36775297000\<rparr>]
     \<lparr>reads = 0, sentiment_calls = []\<rparr> =
   (Inr \<lparr>score = Fin 0, confidence = to_float (1 / 5), review_count = 2, average_rating = NaN,
         sentiment_adjustment = NaN, recency_factor = PInf, calculation_time = 1000\<rparr>,
    \<lparr>reads = 5, sentiment_calls = [''good'', ''good'']\<rparr>)"
proof -
  let ?z = "\<lparr>weighted_sum = Fin 0, weight_sum = Fin 0, sentiment_sum = Fin 0\<rparr>"
  let ?w0 = "\<lparr>reads = 0, sentiment_calls = []\<rparr>"
  let ?r1 = "\<lparr>client_address = ''x'', client_verified = True, rating = 5, comment = ''good'',
       timestamp = 36775297000\<rparr>"
  let ?r2 = "\<lparr>client_address = ''y'', client_verified = True, rating = 5, comment = ''good'',
       timestamp = 36775297000\<rparr>"
  let ?tw = "fmul (Fin (rnd (exp (rnd (rnd (1 / 20) * 14188))))) (Fin (3 / 2))"
  note sums = overflow_sums[OF overflow_weight]
  have rl: "review_loop default_config (Some positive_pipeline) (frozen_clock 1000) [?r1, ?r2] ?z ?w0 =
     (Inr \<lparr>weighted_sum = PInf, weight_sum = PInf, sentiment_sum = PInf\<rparr>,
      \<lparr>reads = 2, sentiment_calls = [''good'', ''good'']\<rparr>)"
    by (simp only: review_loop.simps overflow_step prod.case sum.case loop_sums.simps sums)
       simp
  have rt: "rating_of_sums default_config
              \<lparr>weighted_sum = PInf, weight_sum = PInf, sentiment_sum = PInf\<rparr> =
     Inr \<lparr>weighted_rating = NaN, average_sentiment = NaN, sentiment_adjustment_raw = NaN,
          adjusted_rating = Fin 1, trust_score_raw = Fin 0\<rparr>"
    by (rule nan_rating) simp_all
  show ?thesis
    by (simp add: calculate_trust_score_def rl rt overflow_avg_decay time_time_def to_float_def
        py_min_def del: review_loop.simps)
qed

subsection \<open>Per-review analysis\<close>

lemma sentiment_total_eq:
  "sentiment_total sa rs acc w =
     (Inr (foldl fadd acc (map (\<lambda>r. sentiment_value sa (comment r)) rs)),
      w\<lparr>sentiment_calls := sentiment_calls w @ map comment rs\<rparr>)"
proof (induction rs arbitrary: acc w)
  case Nil
  show ?case by simp
next
  case (Cons r rs)
  show ?case by (simp add: analyze_sentiment_value Cons.IH)
qed

lemma analyze_loop_shape:
  assumes "analyze_loop cfg sa clk ft rs acc w = (Inr out, w')"
  shows "length out = length acc + length rs
     \<and> map ar_client_address out = map ar_client_address acc @ map client_address rs
     \<and> map ar_client_verified out = map ar_client_verified acc @ map client_verified rs
     \<and> map ar_rating out = map ar_rating acc @ map rating rs
     \<and> map ar_comment out = map ar_comment acc @ map comment rs
     \<and> map ar_timestamp out = map ar_timestamp acc @ map timestamp rs"
  using assms
proof (induction rs arbitrary: acc w)
  case Nil
  then show ?case by simp
next
  case (Cons r rs)
  note p = calculate_time_decay_pair[of cfg clk "timestamp r" "w\<lparr>sentiment_calls := sentiment_calls w @ [comment r]\<rparr>"]
  show ?case
  proof (cases "fst (calculate_time_decay cfg clk (timestamp r) (w\<lparr>sentiment_calls := sentiment_calls w @ [comment r]\<rparr>))")
    case (Inl e)
    then show ?thesis using p Cons.prems by (simp add: analyze_sentiment_value)
  next
    case (Inr d)
    show ?thesis
    proof (cases "ft (timestamp r)")
      case (Inl e)
      then show ?thesis using p Inr Cons.prems by (simp add: analyze_sentiment_value)
    next
      case dt: (Inr dt)
      let ?e = "\<lparr>ar_client_address = client_address r,
                 ar_client_verified = client_verified r,
                 ar_rating = rating r,
                 ar_comment = comment r,
                 ar_timestamp = timestamp r,
                 ar_datetime = dt,
                 sentiment_score = py_round (sentiment_value sa (comment r)) 2,
                 time_decay_factor = py_round d 2,
                 effective_weight =
                   py_round
                     (fmul d
                        (if client_verified r then VERIFIED_CLIENT_WEIGHT cfg
                         else UNVERIFIED_CLIENT_WEIGHT cfg)) 2\<rparr>"
      have "analyze_loop cfg sa clk ft rs (acc @ [?e])
              (w\<lparr>sentiment_calls := sentiment_calls w @ [comment r], reads := Suc (reads w)\<rparr>)
            = (Inr out, w')"
        using p Inr dt Cons.prems by (simp add: analyze_sentiment_value)
      from Cons.IH[OF this] show ?thesis by simp
    qed
  qed
qed

lemma analyze_loop_returns:
  assumes "\<forall>r\<in>set rs. \<exists>d. ft (timestamp r) = Inr d"
    "\<forall>r\<in>set rs. \<forall>w'. \<exists>d. fst (calculate_time_decay cfg clk (timestamp r) w') = Inr d"
  shows "\<exists>out. fst (analyze_loop cfg sa clk ft rs acc w) = Inr out"
  using assms
proof (induction rs arbitrary: acc w)
  case Nil
  show ?case by simp
next
  case (Cons r rs)
  let ?w1 = "w\<lparr>sentiment_calls := sentiment_calls w @ [comment r]\<rparr>"
  note p = calculate_time_decay_pair[of cfg clk "timestamp r" ?w1]
  from Cons.prems(2) obtain d where d: "fst (calculate_time_decay cfg clk (timestamp r) ?w1) = Inr d"
    by force
  from Cons.prems(1) obtain dt where dt: "ft (timestamp r) = Inr dt" by force
  have "\<exists>out. fst (analyze_loop cfg sa clk ft rs
          (acc @ [\<lparr>ar_client_address = client_address r,
                 ar_client_verified = client_verified r,
                 ar_rating = rating r,
                 ar_comment = comment r,
                 ar_timestamp = timestamp r,
                 ar_datetime = dt,
                 sentiment_score = py_round (sentiment_value sa (comment r)) 2,
                 time_decay_factor = py_round d 2,
                 effective_weight =
                   py_round
                     (fmul d
                        (if client_verified r then VERIFIED_CLIENT_WEIGHT cfg
                         else UNVERIFIED_CLIENT_WEIGHT cfg)) 2\<rparr>])
          (?w1\<lparr>reads := Suc (reads w)\<rparr>)) = Inr out"
    using Cons.prems by (intro Cons.IH) simp_all
  then show ?case using p d dt by (simp add: analyze_sentiment_value)
qed

lemma analyze_reviews_empty:
  assumes "\<not> api_key_rejected required_api_key api_key"
  shows "analyze_reviews cfg sa clk ft required_api_key address api_key [] [] w =
        (Inr \<lparr>resp_address = address, resp_reviews = [], resp_analysis = None\<rparr>, w)"
  using assms by (simp add: analyze_reviews_def)

lemma analyze_reviews_unfold:
  assumes "\<not> api_key_rejected required_api_key api_key" "c = b @ a" "c \<noteq> []"
  shows "analyze_reviews cfg sa clk ft required_api_key address api_key b a w =
     (case analyze_loop cfg sa clk ft c [] w of
        (Inl e, w1) \<Rightarrow> (Inl e, w1)
      | (Inr analyzed, w1) \<Rightarrow>
          (case int_truediv (sum_list (map rating c)) (int (length c)) of
             Inl e \<Rightarrow> (Inl e, w1)
           | Inr avg_rating \<Rightarrow>
               (case int_to_float (int (length c)) of
                  Inl e \<Rightarrow> (Inl e, w1\<lparr>sentiment_calls := sentiment_calls w1 @ map comment c\<rparr>)
                | Inr n \<Rightarrow>
                    (case fdiv (foldl fadd (Fin 0) (map (\<lambda>r. sentiment_value sa (comment r)) c)) n of
                       Inl e \<Rightarrow> (Inl e, w1\<lparr>sentiment_calls := sentiment_calls w1 @ map comment c\<rparr>)
                     | Inr avg_sentiment \<Rightarrow>
                         (case int_truediv (int (length (filter client_verified c))) (int (length c)) of
                            Inl e \<Rightarrow> (Inl e, w1\<lparr>sentiment_calls := sentiment_calls w1 @ map comment c\<rparr>)
                          | Inr verified_fraction \<Rightarrow>
                              (Inr \<lparr>resp_address = address,
                                    resp_reviews = analyzed,
                                    resp_analysis =
                                      Some \<lparr>an_review_count = length analyzed,
                                            an_average_rating = py_round avg_rating 2,
                                            an_average_sentiment = py_round avg_sentiment 2,
                                            verified_client_percentage =
                                              py_round (fmul verified_fraction (Fin 100)) 1\<rparr>\<rparr>,
                               w1\<lparr>sentiment_calls := sentiment_calls w1 @ map comment c\<rparr>))))))"
proof -
  have "analyze_reviews cfg sa clk ft required_api_key address api_key b a w =
     (let combined = c
         in if combined = [] then
              (Inr \<lparr>resp_address = address, resp_reviews = [], resp_analysis = None\<rparr>, w)
            else
              (case analyze_loop cfg sa clk ft combined [] w of
                 (Inl e, w1) \<Rightarrow> (Inl e, w1)
               | (Inr analyzed, w1) \<Rightarrow>
                   (case int_truediv (sum_list (map rating combined)) (int (length combined)) of
                      Inl e \<Rightarrow> (Inl e, w1)
                    | Inr avg_rating \<Rightarrow>
                        (case sentiment_total sa combined (Fin 0) w1 of
                           (Inl e, w2) \<Rightarrow> (Inl e, w2)
                         | (Inr sum_sentiment, w2) \<Rightarrow>
                             (case int_to_float (int (length combined)) of
                                Inl e \<Rightarrow> (Inl e, w2)
                              | Inr n \<Rightarrow>
                                  (case fdiv sum_sentiment n of
                                     Inl e \<Rightarrow> (Inl e, w2)
                                   | Inr avg_sentiment \<Rightarrow>
                                       (case int_truediv
                                               (int (length (filter client_verified combined)))
                                               (int (length combined)) of
                                          Inl e \<Rightarrow> (Inl e, w2)
                                        | Inr verified_fraction \<Rightarrow>
                                            (Inr \<lparr>resp_address = address,
                                                  resp_reviews = analyzed,
                                                  resp_analysis =
                                                    Some \<lparr>an_review_count = length analyzed,
                                                          an_average_rating = py_round avg_rating 2,
                                                          an_average_sentiment =
                                                            py_round avg_sentiment 2,
                                                          verified_client_percentage =
                                                            py_round
                                                              (fmul verified_fraction (Fin 100))
                                                              1\<rparr>\<rparr>,
                                             w2))))))))"
    unfolding analyze_reviews_def assms(2) using assms(1) by (simp only: if_False)
  then show ?thesis using assms(3)
    by (simp add: Let_def sentiment_total_eq del: fdiv.simps split: sum.splits prod.splits)
qed

lemma analyze_combined_result:
  assumes "\<not> api_key_rejected required_api_key api_key" "c = b @ a" "c \<noteq> []"
    "analyze_reviews cfg sa clk ft required_api_key address api_key b a w = (Inr resp, w')"
  shows "resp_address resp = address
     \<and> map ar_client_address (resp_reviews resp) = map client_address c
     \<and> map ar_client_verified (resp_reviews resp) = map client_verified c
     \<and> map ar_rating (resp_reviews resp) = map rating c
     \<and> map ar_comment (resp_reviews resp) = map comment c
     \<and> map ar_timestamp (resp_reviews resp) = map timestamp c
     \<and> (\<exists>avg_rating n avg_sentiment verified_fraction.
          int_truediv (sum_list (map rating c)) (int (length c)) = Inr avg_rating
        \<and> int_to_float (int (length c)) = Inr n
        \<and> fdiv (foldl fadd (Fin 0) (map (\<lambda>r. sentiment_value sa (comment r)) c)) n
            = Inr avg_sentiment
        \<and> int_truediv (int (length (filter client_verified c))) (int (length c))
            = Inr verified_fraction
        \<and> resp_analysis resp =
            Some \<lparr>an_review_count = length c,
                  an_average_rating = py_round avg_rating 2,
                  an_average_sentiment = py_round avg_sentiment 2,
                  verified_client_percentage = py_round (fmul verified_fraction (Fin 100)) 1\<rparr>)"
proof -
  note u = analyze_reviews_unfold[OF assms(1-3), of cfg sa clk ft address w]
  obtain x w1 where al: "analyze_loop cfg sa clk ft c [] w = (x, w1)"
    by (cases "analyze_loop cfg sa clk ft c [] w")
  show ?thesis
  proof (cases x)
    case (Inl e)
    then show ?thesis using assms(4) al unfolding u by simp
  next
    case (Inr out)
    note sh = analyze_loop_shape[OF al[unfolded Inr]]
    show ?thesis
      using assms(4) al Inr sh unfolding u
      by (auto simp del: fdiv.simps split: sum.splits)
  qed
qed

lemma analyze_combined_returns:
  assumes "\<not> api_key_rejected required_api_key api_key" "c = b @ a" "c \<noteq> []"
    "\<forall>r\<in>set c. \<exists>d. ft (timestamp r) = Inr d"
    "\<forall>r\<in>set c. \<forall>w'. \<exists>d. fst (calculate_time_decay cfg clk (timestamp r) w') = Inr d"
    "\<forall>r\<in>set c. valid_review r" "length c < 2 ^ 63"
  shows "\<exists>resp. fst (analyze_reviews cfg sa clk ft required_api_key address api_key b a w) = Inr resp"
proof -
  let ?n = "length c"
  note u = analyze_reviews_unfold[OF assms(1-3), of cfg sa clk ft address w]
  from analyze_loop_returns[OF assms(4,5), of sa "[]" w] obtain out where
    "fst (analyze_loop cfg sa clk ft c [] w) = Inr out" by blast
  then obtain w1 where al: "analyze_loop cfg sa clk ft c [] w = (Inr out, w1)"
    by (cases "analyze_loop cfg sa clk ft c [] w") simp
  have n1: "1 \<le> real ?n" using assms(3) by (cases c) simp_all
  have n0: "int ?n \<noteq> 0" using assms(3) by simp
  have "sum_list (map rating c) \<le> sum_list (map (\<lambda>r. 5) c)"
    using assms(6) by (intro sum_list_mono) (simp add: valid_review_def)
  then have su: "sum_list (map rating c) \<le> 5 * int ?n" by (simp add: sum_list_triv)
  have "sum_list (map (\<lambda>r. 1) c) \<le> sum_list (map rating c)"
    using assms(6) by (intro sum_list_mono) (simp add: valid_review_def)
  then have sl: "0 \<le> sum_list (map rating c)" by (simp add: sum_list_triv)
  have "(of_int (sum_list (map rating c)) :: real) \<le> of_int (5 * int ?n)"
    using su by (simp only: of_int_le_iff)
  then have q1: "(of_int (sum_list (map rating c)) :: real) / of_int (int ?n) \<le> 5"
    using n1 by (simp add: divide_le_eq)
  have q0: "0 \<le> (of_int (sum_list (map rating c)) :: real) / of_int (int ?n)"
    using sl by simp
  have "\<bar>(of_int (sum_list (map rating c)) :: real) / of_int (int ?n)\<bar> \<le> 2 ^ 1023"
    using q0 q1 by simp
  with n0 have r1: "int_truediv (sum_list (map rating c)) (int ?n)
      = Inr (Fin (rnd (of_int (sum_list (map rating c)) / of_int (int ?n))))"
    by (rule int_truediv_small)
  have "length (filter client_verified c) \<le> ?n" by (rule length_filter_le)
  then have "real (length (filter client_verified c)) / real ?n \<le> 1" using n1 by (simp add: divide_le_eq)
  then have "\<bar>(of_int (int (length (filter client_verified c))) :: real) / of_int (int ?n)\<bar> \<le> 2 ^ 1023"
    by simp
  with n0 have r2: "int_truediv (int (length (filter client_verified c))) (int ?n)
      = Inr (Fin (rnd (of_int (int (length (filter client_verified c))) / of_int (int ?n))))"
    by (rule int_truediv_small)
  have n: "1 \<le> rnd (real ?n)" using assms(3) by (simp add: rnd_nat_ge1)
  have r3: "\<exists>m. fdiv (foldl fadd (Fin 0) (map (\<lambda>r. sentiment_value sa (comment r)) c))
                  (Fin (rnd (real ?n))) = Inr m"
    using n by simp
  then obtain x3 where x3:
    "fdiv (foldl fadd (Fin 0) (map (\<lambda>r. sentiment_value sa (comment r)) c))
                  (Fin (rnd (real ?n))) = Inr x3"
    by blast
  show ?thesis
    unfolding u using al r1 r2 x3 length_float(1)[OF assms(7)]
    by (simp del: fdiv.simps)
qed

subsection \<open>Evaluated aggregations, continued\<close>

lemma rhe_numeral [simp]: "round_half_even (numeral k) = numeral k"
  using rhe_of_int[of "numeral k"] by simp

lemma dec_round_num [simp]: "dec_round (numeral k) n = numeral k"
  using dec_round_of_int[of "numeral k" n] by simp

lemma dec_round_half_int:
  assumes "0 < n"
  shows "dec_round (of_int m / 2) n = of_int m / 2"
proof -
  obtain j where n: "n = Suc j" using assms by (cases n) simp_all
  have "(of_int m / 2 :: real) * 10 ^ Suc j = of_int (m * 5 * 10 ^ j)" by simp
  then have "round_half_even (of_int m / 2 * 10 ^ Suc j) = m * 5 * 10 ^ j"
    by (simp only: rhe_of_int)
  then show ?thesis unfolding n by (simp add: dec_round_def)
qed

lemma dec_round_half [simp]: "0 < n \<Longrightarrow> dec_round (numeral k / 2) n = numeral k / 2"
  using dec_round_half_int[of n "numeral k"] by (simp only: of_int_numeral)


lemma scenario_good:
  "calculate_trust_score default_config (Some positive_pipeline) (frozen_clock 1000)
     [\<lparr>client_address = ''x'', client_verified = True, rating = 5, comment = ''good'', timestamp = 1000\<rparr>]
     w =
   (Inr \<lparr>score = Fin 100, confidence = to_float (1 / 10), review_count = 1, average_rating = Fin 5,
         sentiment_adjustment = to_float (3 / 10), recency_factor = Fin 1, calculation_time = 1000\<rparr>,
    w\<lparr>reads := Suc (Suc (Suc (reads w))), sentiment_calls := sentiment_calls w @ [''good'']\<rparr>)"
proof -
  have "5 \<le> 5 + rnd (3 / 10)" "5 + rnd (3 / 10) \<le> 6" by simp_all
  then have "rnd 5 \<le> rnd (5 + rnd (3 / 10))" "rnd (5 + rnd (3 / 10)) \<le> rnd 6"
    by (simp_all only: rnd_mono)
  moreover have "rnd 6 = 6" using rnd_of_int[of 6] by simp
  ultimately have b: "5 \<le> rnd (5 + rnd (3 / 10))" "rnd (5 + rnd (3 / 10)) \<le> 6" by simp_all
  have "(6::real) \<le> 2 ^ 1023" by simp
  then have "\<bar>5 + rnd (3 / 10)\<bar> \<le> 2 ^ 1023"
    using rnd_tenths(3,4) by (simp only: abs_le_iff) linarith
  then have f: "fin (5 + rnd (3 / 10)) = Fin (rnd (5 + rnd (3 / 10)))" by (rule rnd_small_fin)
  show ?thesis using b f by (simp add: eval_simps)
qed

lemma scenario_two:
  "calculate_trust_score default_config (Some failing_pipeline) (frozen_clock 1000)
     [\<lparr>client_address = ''x'', client_verified = True, rating = 5, comment = ''slow'', timestamp = 1000\<rparr>,
      \<lparr>client_address = ''y'', client_verified = True, rating = 4, comment = [], timestamp = 1000\<rparr>]
     w =
   (Inr \<lparr>score = Fin (175 / 2), confidence = to_float (1 / 5), review_count = 2,
         average_rating = Fin (9 / 2), sentiment_adjustment = Fin 0, recency_factor = Fin 1,
         calculation_time = 1000\<rparr>,
    w\<lparr>reads := Suc (Suc (Suc (Suc (Suc (reads w))))), sentiment_calls := sentiment_calls w @ [''slow'']\<rparr>)"
  by (simp add: eval_simps)

lemma calculate_time_decay_ancient:
  "calculate_time_decay default_config (frozen_clock 1000) (- 169869311000) w =
     (Inr (Fin 0), w\<lparr>reads := Suc (reads w)\<rparr>)"
proof -
  let ?l = "rnd (1 / 20)"
  have l: "1 / 32 \<le> ?l" "?l \<le> 1 / 16" using rnd_tdf_bounds by simp_all
  have q: "rnd 65536 = 65536" using rnd_of_int[of 65536] by simp
  have i: "int_truediv (py_int (frozen_clock 1000 (reads w)) - (- 169869311000)) TIME_UNIT
           = Inr (Fin 65536)"
    using le_fmax[of 65536] by (simp add: int_truediv_def TIME_UNIT_def q)
  have zl: "- 4096 \<le> - ?l * 65536" using l(2) by simp
  have zu: "- ?l * 65536 \<le> - 2048" using l(1) by simp
  have "\<bar>- ?l * 65536\<bar> \<le> 2 ^ 1023" using zl zu by (simp add: abs_le_iff)
  then have f: "fin (- ?l * 65536) = Fin (rnd (- ?l * 65536))" by (rule rnd_small_fin)
  have "rnd (- ?l * 65536) \<le> rnd (- 2048)" using zu by (rule rnd_mono)
  moreover have "rnd (- 2048) = - 2048" using rnd_of_int[of "- 2048"] by simp
  ultimately have "rnd (- ?l * 65536) \<le> - 1076" by simp
  then have "math_exp (Fin (rnd (- ?l * 65536))) = Inr (Fin 0)" by (rule math_exp_underflow)
  then have "fst (calculate_time_decay default_config (frozen_clock 1000) (- 169869311000) w)
        = Inr (Fin 0)"
    using i f by (simp add: calculate_time_decay_fst default_config_fields)
  then show ?thesis
    using calculate_time_decay_pair[of default_config "frozen_clock 1000" "- 169869311000" w]
    by simp
qed





subsection \<open>Dependence on the clock and on the adapter\<close>

lemma calculate_trust_score_calls:
  "\<exists>k \<le> length reviews.
     sentiment_calls (snd (calculate_trust_score cfg sa clk reviews w)) =
       sentiment_calls w @ filter (\<lambda>c. c \<noteq> []) (map comment (take k reviews))
     \<and> ((\<exists>res. fst (calculate_trust_score cfg sa clk reviews w) = Inr res) \<longrightarrow> k = length reviews)"
proof (cases "reviews = []")
  case True
  then show ?thesis by (simp add: calculate_trust_score_empty)
next
  case False
  let ?z = "\<lparr>weighted_sum = Fin 0, weight_sum = Fin 0, sentiment_sum = Fin 0\<rparr>"
  obtain x w1 where rl: "review_loop cfg sa clk reviews ?z w = (x, w1)"
    by (cases "review_loop cfg sa clk reviews ?z w")
  from review_loop_cases[of reviews cfg sa clk ?z w] obtain k where k: "k \<le> length reviews"
    "sentiment_calls w1 = sentiment_calls w @ filter (\<lambda>c. c \<noteq> []) (map comment (take k reviews))"
    "x = Inl OverflowError \<or> (\<exists>s'. x = Inr s') \<and> k = length reviews"
    unfolding rl by auto
  show ?thesis
  proof (cases x)
    case (Inl e)
    then have "calculate_trust_score cfg sa clk reviews w = (Inl e, w1)"
      using False rl by (simp add: calculate_trust_score_def)
    then show ?thesis using k(1,2) by auto
  next
    case (Inr s)
    then have kn: "k = length reviews" using k(3) by simp
    obtain y w2 where ad: "avg_decay cfg clk reviews w1 = (y, w2)"
      by (cases "avg_decay cfg clk reviews w1")
    have c2: "sentiment_calls w2 = sentiment_calls w1"
      using avg_decay_cases[OF False, of cfg clk w1] unfolding ad by simp
    have "sentiment_calls (snd (calculate_trust_score cfg sa clk reviews w)) = sentiment_calls w1"
      using False rl Inr ad c2
      by (simp add: calculate_trust_score_def time_time_def split: sum.splits prod.splits)
    then show ?thesis using k(1,2) kn by auto
  qed
qed

lemma calculate_trust_score_agree:
  assumes "\<forall>i \<le> 2 * length reviews. clk1 (reads w1 + i) = clk2 (reads w2 + i)"
  shows "fst (calculate_trust_score cfg sa clk1 reviews w1)
       = fst (calculate_trust_score cfg sa clk2 reviews w2)"
proof (cases "reviews = []")
  case True
  have "clk1 (reads w1) = clk2 (reads w2)" using assms by force
  then show ?thesis using True by (simp add: calculate_trust_score_empty)
next
  case False
  let ?z = "\<lparr>weighted_sum = Fin 0, weight_sum = Fin 0, sentiment_sum = Fin 0\<rparr>"
  let ?n = "length reviews"
  have a1: "\<forall>i < ?n. clk1 (reads w1 + i) = clk2 (reads w2 + i)" using assms by simp
  have e: "fst (review_loop cfg sa clk1 reviews ?z w1) = fst (review_loop cfg sa clk2 reviews ?z w2)"
    using a1 by (rule review_loop_agree)
  obtain x1 u1 where r1: "review_loop cfg sa clk1 reviews ?z w1 = (x1, u1)"
    by (cases "review_loop cfg sa clk1 reviews ?z w1")
  obtain x2 u2 where r2: "review_loop cfg sa clk2 reviews ?z w2 = (x2, u2)"
    by (cases "review_loop cfg sa clk2 reviews ?z w2")
  have x: "x1 = x2" using e r1 r2 by simp
  show ?thesis
  proof (cases x1)
    case (Inl e1)
    then show ?thesis using False r1 r2 x by (simp add: calculate_trust_score_def)
  next
    case (Inr s)
    have ru1: "reads u1 = reads w1 + ?n"
      using review_loop_cases[of reviews cfg sa clk1 ?z w1] r1 Inr by auto
    have ru2: "reads u2 = reads w2 + ?n"
      using review_loop_cases[of reviews cfg sa clk2 ?z w2] r2 Inr x by auto
    have a2: "\<forall>i < ?n. clk1 (reads u1 + i) = clk2 (reads u2 + i)"
    proof (intro allI impI)
      fix i assume "i < ?n"
      then have "?n + i \<le> 2 * ?n" by simp
      with assms have "clk1 (reads w1 + (?n + i)) = clk2 (reads w2 + (?n + i))" by blast
      then show "clk1 (reads u1 + i) = clk2 (reads u2 + i)" using ru1 ru2 by (simp add: add.assoc)
    qed
    have e2: "fst (avg_decay cfg clk1 reviews u1) = fst (avg_decay cfg clk2 reviews u2)"
      using a2 by (rule avg_decay_agree)
    obtain y1 v1 where d1: "avg_decay cfg clk1 reviews u1 = (y1, v1)"
      by (cases "avg_decay cfg clk1 reviews u1")
    obtain y2 v2 where d2: "avg_decay cfg clk2 reviews u2 = (y2, v2)"
      by (cases "avg_decay cfg clk2 reviews u2")
    have y: "y1 = y2" using e2 d1 d2 by simp
    show ?thesis
    proof (cases y1)
      case (Inl e1)
      then show ?thesis using False r1 r2 x Inr d1 d2 y
        by (simp add: calculate_trust_score_def split: sum.splits)
    next
      case m: (Inr m)
      have rv1: "reads v1 = reads u1 + ?n"
        using avg_decay_cases[OF False, of cfg clk1 u1] d1 m by auto
      have rv2: "reads v2 = reads u2 + ?n"
        using avg_decay_cases[OF False, of cfg clk2 u2] d2 m y by auto
      have "clk1 (reads w1 + 2 * ?n) = clk2 (reads w2 + 2 * ?n)" using assms by blast
      then have "clk1 (reads v1) = clk2 (reads v2)" using rv1 rv2 ru1 ru2 by (simp add: add.assoc mult_2)
      then show ?thesis using False r1 r2 x Inr d1 d2 y m
        by (simp add: calculate_trust_score_def time_time_def split: sum.splits)
    qed
  qed
qed

lemma dec_round_four_fifths [simp]: "dec_round (rnd (4 / 5)) 2 = 4 / 5"
  using dec_round_rnd[of 80] by simp

lemma int_truediv_halves [simp]:
  "int_truediv 7 2 = Inr (Fin (7 / 2))" "int_truediv 1 2 = Inr (Fin (1 / 2))"
proof -
  have "rnd (7 / 2) = 7 / 2" "rnd (1 / 2) = 1 / 2" using rnd_dyadic[of 7 1] rnd_dyadic[of 1 1] by simp_all
  then show "int_truediv 7 2 = Inr (Fin (7 / 2))" "int_truediv 1 2 = Inr (Fin (1 / 2))"
    using int_truediv_small[of 2 7] int_truediv_small[of 2 1] by simp_all
qed

lemma analysis_sample:
  "analyze_reviews default_config None (frozen_clock 1000) sample_fromtimestamp None ''0xf1'' None
     [\<lparr>client_address = ''x'', client_verified = True, rating = 5, comment = ''A'', timestamp = 1000\<rparr>]
     [\<lparr>client_address = ''x'', client_verified = False, rating = 2, comment = ''B'', timestamp = 1000\<rparr>]
     \<lparr>reads = 0, sentiment_calls = []\<rparr> =
   (Inr \<lparr>resp_address = ''0xf1'',
         resp_reviews =
           [\<lparr>ar_client_address = ''x'', ar_client_verified = True, ar_rating = 5, ar_comment = ''A'',
             ar_timestamp = 1000, ar_datetime = ''1970-01-01T00:16:40'', sentiment_score = Fin 0,
             time_decay_factor = Fin 1, effective_weight = Fin (3 / 2)\<rparr>,
            \<lparr>ar_client_address = ''x'', ar_client_verified = False, ar_rating = 2, ar_comment = ''B'',
             ar_timestamp = 1000, ar_datetime = ''1970-01-01T00:16:40'', sentiment_score = Fin 0,
             time_decay_factor = Fin 1, effective_weight = to_float (4 / 5)\<rparr>],
         resp_analysis =
           Some \<lparr>an_review_count = 2, an_average_rating = Fin (7 / 2), an_average_sentiment = Fin 0,
                 verified_client_percentage = Fin 50\<rparr>\<rparr>,
    \<lparr>reads = 2, sentiment_calls = [''A'', ''B'', ''A'', ''B'']\<rparr>)"
  by (simp add: analyze_reviews_def api_key_rejected_def eval_simps sample_fromtimestamp_def)

subsection \<open>Merging the two review sources\<close>

lemma merge_blockchain_eq:
  "merge_blockchain rs m =
     \<lparr>seen_clients = seen_clients m \<union> client_address ` set rs,
      combined_reviews = combined_reviews m @ rs\<rparr>"
  by (induction rs arbitrary: m) auto

lemma merge_api_combined:
  "combined_reviews (merge_api rs m) =
     combined_reviews m @
     map ((!) rs)
       (filter (\<lambda>i. client_address (rs ! i) \<notin> seen_clients m \<union> client_address ` set (take i rs))
          [0..<length rs])"
proof (induction rs arbitrary: m)
  case Nil
  show ?case by simp
next
  case (Cons r rs)
  have upt: "[0..<length (r # rs)] = 0 # map Suc [0..<length rs]"
    by (simp add: upt_conv_Cons map_Suc_upt del: upt_Suc)
  show ?case
  proof (cases "client_address r \<in> seen_clients m")
    case True
    then have ins: "insert (client_address r) (seen_clients m) = seen_clients m" by auto
    have same: "(\<lambda>i. client_address (rs ! i) \<notin>
                insert (client_address r) (seen_clients m) \<union> client_address ` set (take i rs)) =
          (\<lambda>i. client_address (rs ! i) \<notin> seen_clients m \<union> client_address ` set (take i rs))"
      by (simp only: ins)
    have "filter (\<lambda>i. client_address ((r # rs) ! i) \<notin>
                seen_clients m \<union> client_address ` set (take i (r # rs))) [0..<length (r # rs)] =
          map Suc (filter (\<lambda>i. client_address (rs ! i) \<notin>
                insert (client_address r) (seen_clients m) \<union> client_address ` set (take i rs)) [0..<length rs])"
      using True by (simp only: upt) (simp add: filter_map comp_def conj_ac)
    then show ?thesis
      using True Cons.IH[of m] by (simp only: same) (simp add: comp_def)
  next
    case False
    show ?thesis
      using False
        Cons.IH[of "\<lparr>seen_clients = insert (client_address r) (seen_clients m),
                      combined_reviews = combined_reviews m @ [r]\<rparr>"]
      by (simp only: upt) (simp add: filter_map comp_def conj_ac)
  qed
qed

lemma merge_reviews_eq:
  "merge_reviews p s =
     p @ map ((!) s)
           (filter (\<lambda>i. client_address (s ! i) \<notin> client_address ` set p \<union> client_address ` set (take i s))
              [0..<length s])"
  by (simp add: merge_reviews_def merge_api_combined merge_blockchain_eq)

lemma kept_subseq:
  "subseq (map ((!) s) (filter P [0..<length s])) s"
proof -
  have "subseq (map ((!) s) (filter P [0..<length s])) (map ((!) s) [0..<length s])"
    by (intro subseq_map subseq_filter_left)
  then show ?thesis by (simp add: map_nth)
qed

lemma kept_distinct:
  "distinct (map client_address (map ((!) s)
     (filter (\<lambda>i. client_address (s ! i) \<notin> A \<union> client_address ` set (take i s)) [0..<length s])))"
proof -
  let ?P = "\<lambda>i. client_address (s ! i) \<notin> A \<union> client_address ` set (take i s)"
  have "inj_on (\<lambda>i. client_address (s ! i)) (set (filter ?P [0..<length s]))"
  proof (rule inj_onI)
    fix i j
    assume i: "i \<in> set (filter ?P [0..<length s])" and j: "j \<in> set (filter ?P [0..<length s])"
      and eq: "client_address (s ! i) = client_address (s ! j)"
    have earlier: "\<not> a < b" if a: "a < length s" and b: "b < length s" and Pb: "?P b"
      and e: "client_address (s ! a) = client_address (s ! b)" for a b
    proof
      assume "a < b"
      then have "take b s ! a = s ! a" "a < length (take b s)"
        using b by simp_all
      then have "s ! a \<in> set (take b s)"
        using nth_mem[of a "take b s"] by simp
      then have "client_address (s ! a) \<in> client_address ` set (take b s)"
        by (rule imageI)
      with Pb e show False by simp
    qed
    from i have i': "i < length s" "?P i" by simp_all
    from j have j': "j < length s" "?P j" by simp_all
    have "\<not> i < j" using earlier[OF i'(1) j'(1) j'(2) eq] .
    moreover have "\<not> j < i" using earlier[OF j'(1) i'(1) i'(2) eq[symmetric]] .
    ultimately show "i = j" by linarith
  qed
  then show ?thesis by (simp add: distinct_map comp_def)
qed

lemma kept_fresh:
  assumes "r \<in> set (map ((!) s)
     (filter (\<lambda>i. client_address (s ! i) \<notin> A \<union> client_address ` set (take i s)) [0..<length s]))"
  shows "client_address r \<notin> A"
  using assms by auto

lemma distinct_map_append_fresh:
  assumes dp: "distinct (map f p)" and dk: "distinct (map f k)"
    and fresh: "\<forall>r \<in> set k. f r \<notin> f ` set p"
  shows "distinct (map f (p @ k))"
proof -
  have ne: "f a \<noteq> f b" if a: "a \<in> set p" and b: "b \<in> set k" for a b
  proof
    assume e: "f a = f b"
    have "f a \<in> f ` set p" using a by (rule imageI)
    then have "f b \<in> f ` set p" by (simp only: e)
    moreover have "f b \<notin> f ` set p" using fresh b by (rule bspec)
    ultimately show False by (rule notE[rotated])
  qed
  have "set (map f p) \<inter> set (map f k) = {}"
  proof (rule equals0I)
    fix c assume "c \<in> set (map f p) \<inter> set (map f k)"
    then have "c \<in> f ` set p" "c \<in> f ` set k" by simp_all
    then obtain a b where "a \<in> set p" "c = f a" "b \<in> set k" "c = f b"
      by (elim imageE)
    with ne[of a b] show False by simp
  qed
  with dp dk show ?thesis
    by (simp only: map_append distinct_append simp_thms)
qed

lemma merge_structure:
  "\<exists>kept. merge_reviews p s = p @ kept
     \<and> subseq kept s
     \<and> distinct (map client_address kept)
     \<and> (\<forall>r \<in> set kept. client_address r \<notin> client_address ` set p)
     \<and> (distinct (map client_address p) \<longrightarrow> distinct (map client_address (merge_reviews p s)))"
proof -
  define kept where "kept = map ((!) s)
           (filter (\<lambda>i. client_address (s ! i) \<notin> client_address ` set p \<union> client_address ` set (take i s))
              [0..<length s])"
  have eq: "merge_reviews p s = p @ kept"
    unfolding kept_def by (rule merge_reviews_eq)
  have sub: "subseq kept s"
    unfolding kept_def by (rule kept_subseq)
  have dist: "distinct (map client_address kept)"
    unfolding kept_def by (rule kept_distinct)
  have fresh: "\<forall>r \<in> set kept. client_address r \<notin> client_address ` set p"
    unfolding kept_def by (rule ballI) (rule kept_fresh)
  have all: "distinct (map client_address p) \<longrightarrow> distinct (map client_address (merge_reviews p s))"
  proof
    assume "distinct (map client_address p)"
    then have "distinct (map client_address (p @ kept))"
      using dist fresh by (rule distinct_map_append_fresh)
    then show "distinct (map client_address (merge_reviews p s))"
      by (simp only: eq)
  qed
  show ?thesis
    by (rule exI[of _ kept]) (intro conjI; fact)
qed

section \<open>Properties of the scoring code\<close>

text \<open>
  C3. Aggregation over the empty review sequence raises nothing and returns exactly the
  neutral result: score 50, confidence 0, review count 0, average rating 0, sentiment
  adjustment 0 and recency factor 1 (with the time of the calculation, the one clock read
  it makes).
\<close>

theorem empty_reviews_neutral_result:
  "calculate_trust_score cfg sa clk [] w =
     (Inr \<lparr>score = Fin 50, confidence = Fin 0, review_count = 0, average_rating = Fin 0,
           sentiment_adjustment = Fin 0, recency_factor = Fin 1, calculation_time = clk (reads w)\<rparr>,
      w\<lparr>reads := Suc (reads w)\<rparr>)"
  by (rule calculate_trust_score_empty)



text \<open>
  C2. The list the scoring path hands to the aggregation (the merge of what
  \<^verbatim>\<open>fetch_blockchain_reviews\<close> returns with the reviews of the API) holds at most one
  review for each client. For any two lists, the merged list is the blockchain reviews,
  unchanged and in their order, followed by a subsequence of the API reviews in their
  order; the API reviews that survive have pairwise distinct clients, none of them a
  client of a blockchain review (so where both sources have a review of one client the
  blockchain one is kept and the API one dropped whole); and when the blockchain reviews
  have pairwise distinct clients, as the empty list the fetch returns has, at most one
  review for each client survives.
\<close>

theorem merge_primary_wins:
  "distinct (map client_address (scoring_reviews use_blockchain contract address s))
   \<and> (\<exists>kept. merge_reviews p s = p @ kept
        \<and> subseq kept s
        \<and> distinct (map client_address kept)
        \<and> (\<forall>r \<in> set kept. client_address r \<notin> client_address ` set p)
        \<and> (distinct (map client_address p) \<longrightarrow> distinct (map client_address (merge_reviews p s))))"
proof
  from merge_structure[of "[]" s]
  have "distinct (map client_address (merge_reviews [] s))" by auto
  then show "distinct (map client_address (scoring_reviews use_blockchain contract address s))"
    by (simp add: scoring_reviews_def fetch_blockchain_reviews_def)
next
  show "\<exists>kept. merge_reviews p s = p @ kept
        \<and> subseq kept s
        \<and> distinct (map client_address kept)
        \<and> (\<forall>r \<in> set kept. client_address r \<notin> client_address ` set p)
        \<and> (distinct (map client_address p) \<longrightarrow> distinct (map client_address (merge_reviews p s)))"
    by (rule merge_structure)
qed

theorem merge_primary_wins_witness:
  "distinct (map client_address
      [\<lparr>client_address = ''x'', client_verified = True, rating = 5, comment = ''A'', timestamp = 100\<rparr>])
   \<and> merge_reviews
        [\<lparr>client_address = ''x'', client_verified = True, rating = 5, comment = ''A'', timestamp = 100\<rparr>]
        [\<lparr>client_address = ''x'', client_verified = False, rating = 2, comment = ''B'', timestamp = 300\<rparr>,
         \<lparr>client_address = ''y'', client_verified = False, rating = 4, comment = ''C'', timestamp = 200\<rparr>] =
        [\<lparr>client_address = ''x'', client_verified = True, rating = 5, comment = ''A'', timestamp = 100\<rparr>,
         \<lparr>client_address = ''y'', client_verified = False, rating = 4, comment = ''C'', timestamp = 200\<rparr>]
   \<and> distinct (map client_address
        (merge_reviews
          [\<lparr>client_address = ''x'', client_verified = True, rating = 5, comment = ''A'', timestamp = 100\<rparr>]
          [\<lparr>client_address = ''x'', client_verified = False, rating = 2, comment = ''B'', timestamp = 300\<rparr>,
           \<lparr>client_address = ''y'', client_verified = False, rating = 4, comment = ''C'', timestamp = 200\<rparr>]))
   \<and> scoring_reviews True True ''0xf1''
        [\<lparr>client_address = ''x'', client_verified = False, rating = 2, comment = ''B'', timestamp = 300\<rparr>,
         \<lparr>client_address = ''x'', client_verified = False, rating = 4, comment = ''C'', timestamp = 200\<rparr>] =
        [\<lparr>client_address = ''x'', client_verified = False, rating = 2, comment = ''B'', timestamp = 300\<rparr>]"
proof -
  let ?p = "[\<lparr>client_address = ''x'', client_verified = True, rating = 5, comment = ''A'', timestamp = 100\<rparr>]"
  let ?s = "[\<lparr>client_address = ''x'', client_verified = False, rating = 2, comment = ''B'', timestamp = 300\<rparr>,
          \<lparr>client_address = ''y'', client_verified = False, rating = 4, comment = ''C'', timestamp = 200\<rparr>]"
  have d: "distinct (map client_address ?p)" by simp
  from merge_primary_wins[of True True "''0xf1''" ?s ?p] d
  have "distinct (map client_address (merge_reviews ?p ?s))" by blast
  moreover have "merge_reviews ?p ?s =
        [\<lparr>client_address = ''x'', client_verified = True, rating = 5, comment = ''A'', timestamp = 100\<rparr>,
         \<lparr>client_address = ''y'', client_verified = False, rating = 4, comment = ''C'', timestamp = 200\<rparr>]"
    by (simp add: merge_reviews_def)
  moreover have "scoring_reviews True True ''0xf1''
        [\<lparr>client_address = ''x'', client_verified = False, rating = 2, comment = ''B'', timestamp = 300\<rparr>,
         \<lparr>client_address = ''x'', client_verified = False, rating = 4, comment = ''C'', timestamp = 200\<rparr>] =
        [\<lparr>client_address = ''x'', client_verified = False, rating = 2, comment = ''B'', timestamp = 300\<rparr>]"
    by (simp add: scoring_reviews_def fetch_blockchain_reviews_def merge_reviews_def)
  ultimately show ?thesis using d by (intro conjI)
qed

text \<open>
  C10. Deduplication is one-sided: the merged list starts with all the blockchain reviews,
  whatever clients they share, and goes on with exactly those API reviews whose client is
  neither the client of a blockchain review nor of an earlier API review, that is the first
  API review of each client not seen before.
\<close>

theorem merge_dedup_one_sided:
  "take (length p) (merge_reviews p s) = p
   \<and> drop (length p) (merge_reviews p s) =
       map ((!) s)
         (filter (\<lambda>i. client_address (s ! i) \<notin> client_address ` set p \<union> client_address ` set (take i s))
            [0..<length s])"
  by (simp add: merge_reviews_eq)

text \<open>
  C4. The claim that a timestamp in the future gives a weight strictly greater than 1.0
  fails two ways. Under the default configuration a review dated 32768 units (some 2700
  years) after the current time makes \<^verbatim>\<open>math.exp\<close> raise \<^verbatim>\<open>OverflowError\<close>, so the call
  gives no weight at all; and with \<^verbatim>\<open>TIME_DECAY_FACTOR\<close> set to 0, which the
  configuration allows, a review dated one unit ahead gets exactly 1.0.
\<close>

theorem time_decay_future_not_above_one:
  "fst (calculate_time_decay default_config (frozen_clock 1000) 84934657000
          \<lparr>reads = 0, sentiment_calls = []\<rparr>) = Inl OverflowError
   \<and> fst (calculate_time_decay (default_config\<lparr>TIME_DECAY_FACTOR := to_float 0\<rparr>)
          (frozen_clock 1000) 2593000 \<lparr>reads = 0, sentiment_calls = []\<rparr>) = Inr (Fin 1)"
  using decay_far_future_overflow decay_zero_factor_future by simp

text \<open>
  C4, as the code has it. With \<^verbatim>\<open>TIME_DECAY_FACTOR\<close> a finite float that is not negative:
  of two calls that read the same current time and return, the one on the older timestamp
  never returns the strictly larger weight; a timestamp equal to the current time gives
  exactly 1.0; a timestamp in the future makes the call raise \<^verbatim>\<open>OverflowError\<close> or
  gives a weight of at least 1.0, possibly infinite, nothing being clamped; and a
  timestamp not in the future and at most \<open>2\<^sup>1\<^sup>0\<^sup>2\<^sup>3\<close> seconds old gives a weight between 0
  and 1. Under the default factor 0.05 a timestamp in the future makes the call raise
  \<^verbatim>\<open>OverflowError\<close> or gives a finite weight strictly greater than 1.0.
\<close>

theorem time_decay_monotone_unclamped:
  "(TIME_DECAY_FACTOR cfg = Fin l \<and> 0 \<le> l \<longrightarrow>
      (py_int (clk (reads w)) = py_int (clk' (reads w')) \<and> older \<le> newer
         \<and> fst (calculate_time_decay cfg clk older w) = Inr d_older
         \<and> fst (calculate_time_decay cfg clk' newer w') = Inr d_newer \<longrightarrow> \<not> fgt d_older d_newer)
    \<and> fst (calculate_time_decay cfg clk (py_int (clk (reads w))) w) = Inr (Fin 1)
    \<and> (py_int (clk (reads w)) < ts \<longrightarrow>
          fst (calculate_time_decay cfg clk ts w) = Inl OverflowError
          \<or> (\<exists>d. fst (calculate_time_decay cfg clk ts w) = Inr (Fin d) \<and> 1 \<le> d)
          \<or> fst (calculate_time_decay cfg clk ts w) = Inr PInf)
    \<and> (ts \<le> py_int (clk (reads w)) \<and> py_int (clk (reads w)) - ts \<le> 2 ^ 1023 \<longrightarrow>
          (\<exists>d. fst (calculate_time_decay cfg clk ts w) = Inr (Fin d) \<and> 0 \<le> d \<and> d \<le> 1)))
   \<and> (py_int (clk (reads w)) < ts \<longrightarrow>
         fst (calculate_time_decay default_config clk ts w) = Inl OverflowError
         \<or> (\<exists>d. fst (calculate_time_decay default_config clk ts w) = Inr (Fin d) \<and> 1 < d))"
proof (intro conjI impI)
  assume c: "TIME_DECAY_FACTOR cfg = Fin l \<and> 0 \<le> l"
    and m: "py_int (clk (reads w)) = py_int (clk' (reads w')) \<and> older \<le> newer
         \<and> fst (calculate_time_decay cfg clk older w) = Inr d_older
         \<and> fst (calculate_time_decay cfg clk' newer w') = Inr d_newer"
  have "fst (calculate_time_decay cfg clk newer w) = fst (calculate_time_decay cfg clk' newer w')"
    using m by (simp add: calculate_time_decay_fst)
  then have d_newer: "fst (calculate_time_decay cfg clk newer w) = Inr d_newer" using m by simp
  show "\<not> fgt d_older d_newer"
    using c m d_newer decay_mono[of cfg l older newer clk w d_older d_newer] by blast
next
  assume c: "TIME_DECAY_FACTOR cfg = Fin l \<and> 0 \<le> l"
  then show "fst (calculate_time_decay cfg clk (py_int (clk (reads w))) w) = Inr (Fin 1)"
    using decay_now[of cfg l clk w "py_int (clk (reads w))"] by simp
next
  assume c: "TIME_DECAY_FACTOR cfg = Fin l \<and> 0 \<le> l" and f: "py_int (clk (reads w)) < ts"
  show "fst (calculate_time_decay cfg clk ts w) = Inl OverflowError
          \<or> (\<exists>d. fst (calculate_time_decay cfg clk ts w) = Inr (Fin d) \<and> 1 \<le> d)
          \<or> fst (calculate_time_decay cfg clk ts w) = Inr PInf"
    using c f decay_future[of cfg l clk w ts] by blast
next
  assume c: "TIME_DECAY_FACTOR cfg = Fin l \<and> 0 \<le> l"
    and p: "ts \<le> py_int (clk (reads w)) \<and> py_int (clk (reads w)) - ts \<le> 2 ^ 1023"
  show "\<exists>d. fst (calculate_time_decay cfg clk ts w) = Inr (Fin d) \<and> 0 \<le> d \<and> d \<le> 1"
    using c p decay_past_returns[of cfg l ts clk w] by blast
next
  assume "py_int (clk (reads w)) < ts"
  then show "fst (calculate_time_decay default_config clk ts w) = Inl OverflowError
         \<or> (\<exists>d. fst (calculate_time_decay default_config clk ts w) = Inr (Fin d) \<and> 1 < d)"
    by (rule decay_future_default)
qed

theorem time_decay_monotone_unclamped_witness:
  "fst (calculate_time_decay default_config (frozen_clock 1000) (- 169869311000)
          \<lparr>reads = 0, sentiment_calls = []\<rparr>) = Inr (Fin 0)
   \<and> fst (calculate_time_decay default_config (frozen_clock 1000) 1000
          \<lparr>reads = 0, sentiment_calls = []\<rparr>) = Inr (Fin 1)
   \<and> \<not> fgt (Fin 0) (Fin 1)
   \<and> fst (calculate_time_decay default_config (frozen_clock 1000) 84934657000
          \<lparr>reads = 0, sentiment_calls = []\<rparr>) = Inl OverflowError"
  using time_decay_monotone_unclamped[where cfg = default_config and l = "rnd (1 / 20)"
      and clk = "frozen_clock 1000" and clk' = "frozen_clock 1000"
      and w = "\<lparr>reads = 0, sentiment_calls = []\<rparr>" and w' = "\<lparr>reads = 0, sentiment_calls = []\<rparr>"
      and older = "- 169869311000" and newer = 1000 and d_older = "Fin 0" and d_newer = "Fin 1"
      and ts = 84934657000]
  by (simp add: calculate_time_decay_ancient decay_far_future_overflow)




text \<open>
  C6. The claim that the sentiment adjustment never exceeds \<^verbatim>\<open>SENTIMENT_WEIGHT\<close> in
  absolute value fails under the default configuration, with a sentiment model that
  scores every comment 1.0: for two five-star reviews dated 14188 units (some 1166 years)
  ahead, each decay weight is a finite float above \<open>2\<^sup>1\<^sup>0\<^sup>2\<^sup>3\<close>, the sums of the weights
  overflow to infinity, and the weighted rating and the average sentiment are
  \<^verbatim>\<open>inf / inf\<close>: the adjustment reported is NaN, the average rating is NaN, the recency
  factor is infinite and the score is 0.
\<close>

theorem sentiment_adjustment_not_a_number:
  "calculate_trust_score default_config (Some positive_pipeline) (frozen_clock 1000)
     [\<lparr>client_address = ''x'', client_verified = True, rating = 5, comment = ''good'',
       timestamp = 36775297000\<rparr>,
      \<lparr>client_address = ''y'', client_verified = True, rating = 5, comment = ''good'',
       timestamp = 36775297000\<rparr>]
     \<lparr>reads = 0, sentiment_calls = []\<rparr> =
   (Inr \<lparr>score = Fin 0, confidence = to_float (1 / 5), review_count = 2, average_rating = NaN,
         sentiment_adjustment = NaN, recency_factor = PInf, calculation_time = 1000\<rparr>,
    \<lparr>reads = 5, sentiment_calls = [''good'', ''good'']\<rparr>)"
  by (rule overflow_nan_result)

text \<open>
  C6, as the code has it. For a non-empty review sequence on which the aggregation
  returns: the adjusted rating is the sum of the weighted rating and the sentiment
  adjustment passed through \<^verbatim>\<open>min(5, max(1, .))\<close>, a float between 1 and 5 whatever the
  sum is (1 when it is NaN), and the score is computed from that clamped value; the
  reported adjustment is the adjustment rounded to two decimals. When moreover the
  sentiment model only returns numbers between -1 and 1, \<^verbatim>\<open>SENTIMENT_WEIGHT\<close> is a finite
  float that is not negative, the two client weights are finite and not negative, and the
  sum of the weights has not overflowed to infinity, the adjustment is a float of absolute
  value at most \<^verbatim>\<open>SENTIMENT_WEIGHT\<close>; so is the reported adjustment when
  \<^verbatim>\<open>SENTIMENT_WEIGHT\<close> has at most two decimals, as the default 0.3 has. Under the
  default configuration the conditions on the model and on the sum of the weights are
  enough.
\<close>

theorem sentiment_adjustment_bounded:
  assumes ne: "reviews \<noteq> []"
    and ret: "calculate_trust_score cfg sa clk reviews w = (Inr res, w')"
  shows "\<exists>s w1 v b.
      review_loop cfg sa clk reviews
        \<lparr>weighted_sum = Fin 0, weight_sum = Fin 0, sentiment_sum = Fin 0\<rparr> w = (Inr s, w1)
    \<and> rating_of_sums cfg s = Inr v
    \<and> sentiment_adjustment res = py_round (sentiment_adjustment_raw v) 2
    \<and> adjusted_rating v =
        py_min (Fin 5) (py_max (Fin 1) (fadd (weighted_rating v) (sentiment_adjustment_raw v)))
    \<and> adjusted_rating v = Fin b \<and> 1 \<le> b \<and> b \<le> 5
    \<and> score res = py_round (fmul (fsub (adjusted_rating v) (Fin 1)) (Fin 25)) 1
    \<and> ((\<forall>tx. \<exists>x. sentiment_value sa tx = Fin x \<and> \<bar>x\<bar> \<le> 1)
         \<and> SENTIMENT_WEIGHT cfg = Fin sw \<and> to_float sw = Fin sw \<and> 0 \<le> sw
         \<and> VERIFIED_CLIENT_WEIGHT cfg = Fin cv \<and> 0 \<le> cv
         \<and> UNVERIFIED_CLIENT_WEIGHT cfg = Fin cu \<and> 0 \<le> cu
         \<and> weight_sum s \<noteq> PInf \<longrightarrow>
        (\<exists>a. sentiment_adjustment_raw v = Fin a \<and> \<bar>a\<bar> \<le> sw
           \<and> (py_round (Fin sw) 2 = Fin sw \<longrightarrow>
                (\<exists>y. sentiment_adjustment res = Fin y \<and> \<bar>y\<bar> \<le> sw))))
    \<and> (cfg = default_config
         \<and> (\<forall>tx. \<exists>x. sentiment_value sa tx = Fin x \<and> \<bar>x\<bar> \<le> 1)
         \<and> weight_sum s \<noteq> PInf \<longrightarrow>
        (\<exists>d a y. SENTIMENT_WEIGHT cfg = Fin d
           \<and> sentiment_adjustment_raw v = Fin a \<and> \<bar>a\<bar> \<le> d
           \<and> sentiment_adjustment res = Fin y \<and> \<bar>y\<bar> \<le> d))"
proof -
  let ?z = "\<lparr>weighted_sum = Fin 0, weight_sum = Fin 0, sentiment_sum = Fin 0\<rparr>"
  from calculate_trust_score_cases[OF ne, of cfg sa clk w] ret
  obtain s w1 v where rl: "review_loop cfg sa clk reviews ?z w = (Inr s, w1)"
    and v: "rating_of_sums cfg s = Inr v"
    and sa': "sentiment_adjustment res = py_round (sentiment_adjustment_raw v) 2"
    and sc: "score res = py_round (trust_score_raw v) 1"
    by auto
  from rating_of_sums_total[of cfg s] v
  have ar: "adjusted_rating v =
        py_min (Fin 5) (py_max (Fin 1) (fadd (weighted_rating v) (sentiment_adjustment_raw v)))"
    and ts: "trust_score_raw v = fmul (fsub (adjusted_rating v) (Fin 1)) (Fin 25)"
    by auto
  from clamp_range[of "fadd (weighted_rating v) (sentiment_adjustment_raw v)"]
  obtain b where b: "adjusted_rating v = Fin b" "1 \<le> b" "b \<le> 5" unfolding ar by blast
  have bound: "(\<forall>tx. \<exists>x. sentiment_value sa tx = Fin x \<and> \<bar>x\<bar> \<le> 1)
         \<and> SENTIMENT_WEIGHT cfg = Fin sw \<and> to_float sw = Fin sw \<and> 0 \<le> sw
         \<and> VERIFIED_CLIENT_WEIGHT cfg = Fin cv \<and> 0 \<le> cv
         \<and> UNVERIFIED_CLIENT_WEIGHT cfg = Fin cu \<and> 0 \<le> cu
         \<and> weight_sum s \<noteq> PInf \<longrightarrow>
        (\<exists>a. sentiment_adjustment_raw v = Fin a \<and> \<bar>a\<bar> \<le> sw
           \<and> (py_round (Fin sw) 2 = Fin sw \<longrightarrow>
                (\<exists>y. sentiment_adjustment res = Fin y \<and> \<bar>y\<bar> \<le> sw)))"
    for sw cv cu
  proof
    assume h: "(\<forall>tx. \<exists>x. sentiment_value sa tx = Fin x \<and> \<bar>x\<bar> \<le> 1)
         \<and> SENTIMENT_WEIGHT cfg = Fin sw \<and> to_float sw = Fin sw \<and> 0 \<le> sw
         \<and> VERIFIED_CLIENT_WEIGHT cfg = Fin cv \<and> 0 \<le> cv
         \<and> UNVERIFIED_CLIENT_WEIGHT cfg = Fin cu \<and> 0 \<le> cu
         \<and> weight_sum s \<noteq> PInf"
    have i0: "(\<exists>a z. weight_sum ?z = Fin a \<and> sentiment_sum ?z = Fin z \<and> rnd a = a \<and> \<bar>z\<bar> \<le> a)
       \<or> weight_sum ?z = PInf \<or> weight_sum ?z = NaN"
      by simp
    have "(\<exists>a z. weight_sum s = Fin a \<and> sentiment_sum s = Fin z \<and> rnd a = a \<and> \<bar>z\<bar> \<le> a)
       \<or> weight_sum s = PInf \<or> weight_sum s = NaN"
      using h rl i0 by (intro review_loop_inv[of cfg cv cu sa clk reviews ?z w s w1]) simp_all
    then have inv: "(\<exists>a z. weight_sum s = Fin a \<and> sentiment_sum s = Fin z \<and> rnd a = a \<and> \<bar>z\<bar> \<le> a)
       \<or> weight_sum s = NaN"
      using h by blast
    have "\<exists>a. sentiment_adjustment_raw v = Fin a \<and> \<bar>a\<bar> \<le> sw"
      using h inv v by (intro adjustment_bound[of cfg sw s v]) (simp_all add: to_float_def)
    then obtain a where a: "sentiment_adjustment_raw v = Fin a" "\<bar>a\<bar> \<le> sw" by blast
    have "py_round (Fin sw) 2 = Fin sw \<longrightarrow> (\<exists>y. sentiment_adjustment res = Fin y \<and> \<bar>y\<bar> \<le> sw)"
    proof
      assume "py_round (Fin sw) 2 = Fin sw"
      with a(2) have "\<exists>y. py_round (Fin a) 2 = Fin y \<and> \<bar>y\<bar> \<le> sw" by (rule reported_bound)
      then show "\<exists>y. sentiment_adjustment res = Fin y \<and> \<bar>y\<bar> \<le> sw" using sa' a(1) by simp
    qed
    then show "\<exists>a. sentiment_adjustment_raw v = Fin a \<and> \<bar>a\<bar> \<le> sw
           \<and> (py_round (Fin sw) 2 = Fin sw \<longrightarrow>
                (\<exists>y. sentiment_adjustment res = Fin y \<and> \<bar>y\<bar> \<le> sw))"
      using a by blast
  qed
  have dflt: "cfg = default_config
         \<and> (\<forall>tx. \<exists>x. sentiment_value sa tx = Fin x \<and> \<bar>x\<bar> \<le> 1)
         \<and> weight_sum s \<noteq> PInf \<longrightarrow>
        (\<exists>d a y. SENTIMENT_WEIGHT cfg = Fin d
           \<and> sentiment_adjustment_raw v = Fin a \<and> \<bar>a\<bar> \<le> d
           \<and> sentiment_adjustment res = Fin y \<and> \<bar>y\<bar> \<le> d)"
  proof
    assume h: "cfg = default_config
         \<and> (\<forall>tx. \<exists>x. sentiment_value sa tx = Fin x \<and> \<bar>x\<bar> \<le> 1)
         \<and> weight_sum s \<noteq> PInf"
    have "(\<forall>tx. \<exists>x. sentiment_value sa tx = Fin x \<and> \<bar>x\<bar> \<le> 1)
         \<and> SENTIMENT_WEIGHT cfg = Fin (rnd (3 / 10))
         \<and> to_float (rnd (3 / 10)) = Fin (rnd (3 / 10)) \<and> 0 \<le> rnd (3 / 10)
         \<and> VERIFIED_CLIENT_WEIGHT cfg = Fin (3 / 2) \<and> 0 \<le> (3 / 2 :: real)
         \<and> UNVERIFIED_CLIENT_WEIGHT cfg = Fin (rnd (4 / 5)) \<and> 0 \<le> rnd (4 / 5)
         \<and> weight_sum s \<noteq> PInf"
      using h by (simp add: default_config_fields to_float_def)
    moreover have "py_round (Fin (rnd (3 / 10))) 2 = Fin (rnd (3 / 10))" by simp
    ultimately have "\<exists>a y. sentiment_adjustment_raw v = Fin a \<and> \<bar>a\<bar> \<le> rnd (3 / 10)
        \<and> sentiment_adjustment res = Fin y \<and> \<bar>y\<bar> \<le> rnd (3 / 10)"
      using bound[of "rnd (3 / 10)" "3 / 2" "rnd (4 / 5)"] by blast
    moreover have "SENTIMENT_WEIGHT cfg = Fin (rnd (3 / 10))" using h by (simp add: default_config_fields)
    ultimately show "\<exists>d a y. SENTIMENT_WEIGHT cfg = Fin d
           \<and> sentiment_adjustment_raw v = Fin a \<and> \<bar>a\<bar> \<le> d
           \<and> sentiment_adjustment res = Fin y \<and> \<bar>y\<bar> \<le> d"
      by blast
  qed
  have sc': "score res = py_round (fmul (fsub (adjusted_rating v) (Fin 1)) (Fin 25)) 1"
    using sc ts by simp
  from rl v sa' ar b sc' bound[of sw cv cu] dflt show ?thesis by blast
qed

theorem sentiment_adjustment_bounded_witness:
  "calculate_trust_score default_config (Some positive_pipeline) (frozen_clock 1000)
     [\<lparr>client_address = ''x'', client_verified = True, rating = 5, comment = ''good'', timestamp = 1000\<rparr>]
     \<lparr>reads = 0, sentiment_calls = []\<rparr> =
   (Inr \<lparr>score = Fin 100, confidence = to_float (1 / 10), review_count = 1, average_rating = Fin 5,
         sentiment_adjustment = to_float (3 / 10), recency_factor = Fin 1, calculation_time = 1000\<rparr>,
    \<lparr>reads = 3, sentiment_calls = [''good'']\<rparr>)
   \<and> (\<exists>y. to_float (3 / 10) = Fin y \<and> \<bar>y\<bar> \<le> rnd (3 / 10))"
proof -
  let ?r = "\<lparr>client_address = ''x'', client_verified = True, rating = 5, comment = ''good'', timestamp = 1000\<rparr>"
  let ?w = "\<lparr>reads = 0, sentiment_calls = []\<rparr>"
  let ?z = "\<lparr>weighted_sum = Fin 0, weight_sum = Fin 0, sentiment_sum = Fin 0\<rparr>"
  let ?res = "\<lparr>score = Fin 100, confidence = to_float (1 / 10), review_count = 1, average_rating = Fin 5,
         sentiment_adjustment = to_float (3 / 10), recency_factor = Fin 1, calculation_time = 1000\<rparr>"
  have run: "calculate_trust_score default_config (Some positive_pipeline) (frozen_clock 1000) [?r] ?w =
     (Inr ?res, \<lparr>reads = 3, sentiment_calls = [''good'']\<rparr>)"
    by (simp add: scenario_good)
  have loop: "review_loop default_config (Some positive_pipeline) (frozen_clock 1000) [?r] ?z ?w =
     (Inr \<lparr>weighted_sum = Fin (15 / 2), weight_sum = Fin (3 / 2), sentiment_sum = Fin (3 / 2)\<rparr>,
      \<lparr>reads = 1, sentiment_calls = [''good'']\<rparr>)"
    by (simp add: eval_simps)
  have adapter: "\<forall>tx. \<exists>x. sentiment_value (Some positive_pipeline) tx = Fin x \<and> \<bar>x\<bar> \<le> 1"
    by (simp add: sentiment_value_def eval_simps)
  note inst = sentiment_adjustment_bounded[where reviews = "[?r]" and cfg = default_config
      and sa = "Some positive_pipeline" and clk = "frozen_clock 1000" and w = ?w and res = ?res
      and w' = "\<lparr>reads = 3, sentiment_calls = [''good'']\<rparr>"
      and sw = "rnd (3 / 10)" and cv = "3 / 2" and cu = "rnd (4 / 5)", OF _ run]
  have "[?r] \<noteq> []" by simp
  from inst[OF this] obtain s w1 v b where c:
    "review_loop default_config (Some positive_pipeline) (frozen_clock 1000) [?r] ?z ?w = (Inr s, w1)
    \<and> rating_of_sums default_config s = Inr v
    \<and> sentiment_adjustment ?res = py_round (sentiment_adjustment_raw v) 2
    \<and> adjusted_rating v =
        py_min (Fin 5) (py_max (Fin 1) (fadd (weighted_rating v) (sentiment_adjustment_raw v)))
    \<and> adjusted_rating v = Fin b \<and> 1 \<le> b \<and> b \<le> 5
    \<and> score ?res = py_round (fmul (fsub (adjusted_rating v) (Fin 1)) (Fin 25)) 1
    \<and> ((\<forall>tx. \<exists>x. sentiment_value (Some positive_pipeline) tx = Fin x \<and> \<bar>x\<bar> \<le> 1)
         \<and> SENTIMENT_WEIGHT default_config = Fin (rnd (3 / 10))
         \<and> to_float (rnd (3 / 10)) = Fin (rnd (3 / 10)) \<and> 0 \<le> rnd (3 / 10)
         \<and> VERIFIED_CLIENT_WEIGHT default_config = Fin (3 / 2) \<and> 0 \<le> (3 / 2 :: real)
         \<and> UNVERIFIED_CLIENT_WEIGHT default_config = Fin (rnd (4 / 5)) \<and> 0 \<le> rnd (4 / 5)
         \<and> weight_sum s \<noteq> PInf \<longrightarrow>
        (\<exists>a. sentiment_adjustment_raw v = Fin a \<and> \<bar>a\<bar> \<le> rnd (3 / 10)
           \<and> (py_round (Fin (rnd (3 / 10))) 2 = Fin (rnd (3 / 10)) \<longrightarrow>
                (\<exists>y. sentiment_adjustment ?res = Fin y \<and> \<bar>y\<bar> \<le> rnd (3 / 10)))))"
    by blast
  have sv: "s = \<lparr>weighted_sum = Fin (15 / 2), weight_sum = Fin (3 / 2), sentiment_sum = Fin (3 / 2)\<rparr>"
    using c loop by simp
  have h: "(\<forall>tx. \<exists>x. sentiment_value (Some positive_pipeline) tx = Fin x \<and> \<bar>x\<bar> \<le> 1)
         \<and> SENTIMENT_WEIGHT default_config = Fin (rnd (3 / 10))
         \<and> to_float (rnd (3 / 10)) = Fin (rnd (3 / 10)) \<and> 0 \<le> rnd (3 / 10)
         \<and> VERIFIED_CLIENT_WEIGHT default_config = Fin (3 / 2) \<and> 0 \<le> (3 / 2 :: real)
         \<and> UNVERIFIED_CLIENT_WEIGHT default_config = Fin (rnd (4 / 5)) \<and> 0 \<le> rnd (4 / 5)
         \<and> weight_sum s \<noteq> PInf"
    using adapter sv by (simp add: default_config_fields to_float_def)
  have p: "py_round (Fin (rnd (3 / 10))) 2 = Fin (rnd (3 / 10))" by simp
  from c h p have "\<exists>y. sentiment_adjustment ?res = Fin y \<and> \<bar>y\<bar> \<le> rnd (3 / 10)" by blast
  then show ?thesis using run by simp
qed

text \<open>
  C7. \<^verbatim>\<open>analyze_sentiment\<close> always returns a value and never an exception; it returns 0
  for the empty text, when no model is loaded, and when the body of its \<^verbatim>\<open>try\<close> raises
  (the model raising, or returning no prediction). The aggregation calls it only for
  non-empty comments, in the order of the reviews: when it returns, the calls made are
  exactly the non-empty comments of the reviews, and when it raises they are the non-empty
  comments of the reviews before the one it raised on. A review with an empty comment
  makes no call, and when its iteration completes it leaves the sentiment sum unchanged.
\<close>

theorem sentiment_adapter_contained:
  "(\<exists>v. analyze_sentiment sa tx w = (Inr v, w\<lparr>sentiment_calls := sentiment_calls w @ [tx]\<rparr>))
   \<and> analyze_sentiment sa [] w = (Inr (Fin 0), w\<lparr>sentiment_calls := sentiment_calls w @ [[]]\<rparr>)
   \<and> analyze_sentiment None tx w = (Inr (Fin 0), w\<lparr>sentiment_calls := sentiment_calls w @ [tx]\<rparr>)
   \<and> (analyze_sentiment_try p tx = Inl e \<longrightarrow>
        analyze_sentiment (Some p) tx w =
          (Inr (Fin 0), w\<lparr>sentiment_calls := sentiment_calls w @ [tx]\<rparr>))
   \<and> (\<exists>k \<le> length reviews.
         sentiment_calls (snd (calculate_trust_score cfg sa clk reviews w)) =
           sentiment_calls w @ filter (\<lambda>c. c \<noteq> []) (map comment (take k reviews))
         \<and> ((\<exists>res. fst (calculate_trust_score cfg sa clk reviews w) = Inr res) \<longrightarrow>
              k = length reviews))
   \<and> (fst (calculate_trust_score cfg sa clk reviews w) = Inr res \<longrightarrow>
        sentiment_calls (snd (calculate_trust_score cfg sa clk reviews w)) =
          sentiment_calls w @ filter (\<lambda>c. c \<noteq> []) (map comment reviews))
   \<and> (comment r = [] \<longrightarrow>
        (\<exists>w'. review_step cfg sa clk r s w = (Inl OverflowError, w')
           \<and> sentiment_calls w' = sentiment_calls w)
        \<or> (\<exists>s' w'. review_step cfg sa clk r s w = (Inr s', w')
           \<and> sentiment_sum s' = sentiment_sum s \<and> sentiment_calls w' = sentiment_calls w))"
proof (intro conjI impI)
  show "\<exists>v. analyze_sentiment sa tx w = (Inr v, w\<lparr>sentiment_calls := sentiment_calls w @ [tx]\<rparr>)"
    by (rule analyze_sentiment_total)
  show "analyze_sentiment sa [] w = (Inr (Fin 0), w\<lparr>sentiment_calls := sentiment_calls w @ [[]]\<rparr>)"
    by (simp add: analyze_sentiment_def)
  show "analyze_sentiment None tx w = (Inr (Fin 0), w\<lparr>sentiment_calls := sentiment_calls w @ [tx]\<rparr>)"
    by (simp add: analyze_sentiment_def)
  show "\<exists>k \<le> length reviews.
         sentiment_calls (snd (calculate_trust_score cfg sa clk reviews w)) =
           sentiment_calls w @ filter (\<lambda>c. c \<noteq> []) (map comment (take k reviews))
         \<and> ((\<exists>res. fst (calculate_trust_score cfg sa clk reviews w) = Inr res) \<longrightarrow>
              k = length reviews)"
    by (rule calculate_trust_score_calls)
next
  assume "analyze_sentiment_try p tx = Inl e"
  then show "analyze_sentiment (Some p) tx w =
          (Inr (Fin 0), w\<lparr>sentiment_calls := sentiment_calls w @ [tx]\<rparr>)"
    by (simp add: analyze_sentiment_def Let_def)
next
  assume r: "fst (calculate_trust_score cfg sa clk reviews w) = Inr res"
  from calculate_trust_score_calls[of reviews cfg sa clk w] obtain k where
    "sentiment_calls (snd (calculate_trust_score cfg sa clk reviews w)) =
           sentiment_calls w @ filter (\<lambda>c. c \<noteq> []) (map comment (take k reviews))"
    "(\<exists>res. fst (calculate_trust_score cfg sa clk reviews w) = Inr res) \<longrightarrow> k = length reviews"
    by blast
  then show "sentiment_calls (snd (calculate_trust_score cfg sa clk reviews w)) =
          sentiment_calls w @ filter (\<lambda>c. c \<noteq> []) (map comment reviews)"
    using r by simp
next
  assume "comment r = []"
  with review_step_cases[of cfg sa clk r s w]
  show "(\<exists>w'. review_step cfg sa clk r s w = (Inl OverflowError, w')
           \<and> sentiment_calls w' = sentiment_calls w)
        \<or> (\<exists>s' w'. review_step cfg sa clk r s w = (Inr s', w')
           \<and> sentiment_sum s' = sentiment_sum s \<and> sentiment_calls w' = sentiment_calls w)"
    by auto
qed

theorem sentiment_adapter_contained_witness:
  "analyze_sentiment_try failing_pipeline ''slow'' = Inl PipelineError
   \<and> analyze_sentiment (Some failing_pipeline) ''slow'' \<lparr>reads = 0, sentiment_calls = []\<rparr> =
       (Inr (Fin 0), \<lparr>reads = 0, sentiment_calls = [''slow'']\<rparr>)
   \<and> comment \<lparr>client_address = ''y'', client_verified = True, rating = 4, comment = [], timestamp = 1000\<rparr> = []
   \<and> review_step default_config (Some failing_pipeline) (frozen_clock 1000)
        \<lparr>client_address = ''y'', client_verified = True, rating = 4, comment = [], timestamp = 1000\<rparr>
        \<lparr>weighted_sum = Fin 0, weight_sum = Fin 0, sentiment_sum = Fin 0\<rparr>
        \<lparr>reads = 0, sentiment_calls = []\<rparr> =
       (Inr \<lparr>weighted_sum = Fin 6, weight_sum = Fin (3 / 2), sentiment_sum = Fin 0\<rparr>,
        \<lparr>reads = 1, sentiment_calls = []\<rparr>)
   \<and> calculate_trust_score default_config (Some failing_pipeline) (frozen_clock 1000)
        [\<lparr>client_address = ''x'', client_verified = True, rating = 5, comment = ''slow'', timestamp = 1000\<rparr>,
         \<lparr>client_address = ''y'', client_verified = True, rating = 4, comment = [], timestamp = 1000\<rparr>]
        \<lparr>reads = 0, sentiment_calls = []\<rparr> =
       (Inr \<lparr>score = Fin (175 / 2), confidence = to_float (1 / 5), review_count = 2,
             average_rating = Fin (9 / 2), sentiment_adjustment = Fin 0, recency_factor = Fin 1,
             calculation_time = 1000\<rparr>,
        \<lparr>reads = 5, sentiment_calls = [''slow'']\<rparr>)"
  using sentiment_adapter_contained[where sa = "Some failing_pipeline" and p = failing_pipeline
      and tx = "''slow''" and e = PipelineError and w = "\<lparr>reads = 0, sentiment_calls = []\<rparr>"
      and cfg = default_config and clk = "frozen_clock 1000"
      and r = "\<lparr>client_address = ''y'', client_verified = True, rating = 4, comment = [], timestamp = 1000\<rparr>"
      and s = "\<lparr>weighted_sum = Fin 0, weight_sum = Fin 0, sentiment_sum = Fin 0\<rparr>"
      and reviews = "[\<lparr>client_address = ''x'', client_verified = True, rating = 5, comment = ''slow'', timestamp = 1000\<rparr>,
         \<lparr>client_address = ''y'', client_verified = True, rating = 4, comment = [], timestamp = 1000\<rparr>]"
      and res = "\<lparr>score = Fin (175 / 2), confidence = to_float (1 / 5), review_count = 2,
             average_rating = Fin (9 / 2), sentiment_adjustment = Fin 0, recency_factor = Fin 1,
             calculation_time = 1000\<rparr>"]
  by (simp add: scenario_two eval_simps)

text \<open>
  C8. Two aggregations of the same reviews under the same configuration and sentiment
  model, whose clock reads return the same values read for read, have the same outcome,
  whatever the state they start in: they return the same record, or they raise the same
  exception.
\<close>

theorem aggregation_repeatable:
  assumes "\<forall>i \<le> 2 * length reviews. clk1 (reads w1 + i) = clk2 (reads w2 + i)"
  shows "fst (calculate_trust_score cfg sa clk1 reviews w1)
       = fst (calculate_trust_score cfg sa clk2 reviews w2)"
  using assms by (rule calculate_trust_score_agree)

theorem aggregation_repeatable_witness:
  "fst (calculate_trust_score default_config (Some positive_pipeline) (frozen_clock 1000)
     [\<lparr>client_address = ''x'', client_verified = True, rating = 5, comment = ''good'', timestamp = 1000\<rparr>]
     \<lparr>reads = 0, sentiment_calls = []\<rparr>) =
   Inr \<lparr>score = Fin 100, confidence = to_float (1 / 10), review_count = 1, average_rating = Fin 5,
        sentiment_adjustment = to_float (3 / 10), recency_factor = Fin 1, calculation_time = 1000\<rparr>
   \<and> fst (calculate_trust_score default_config (Some positive_pipeline) (frozen_clock 1000)
     [\<lparr>client_address = ''x'', client_verified = True, rating = 5, comment = ''good'', timestamp = 1000\<rparr>]
     \<lparr>reads = 3, sentiment_calls = [''good'']\<rparr>) =
   Inr \<lparr>score = Fin 100, confidence = to_float (1 / 10), review_count = 1, average_rating = Fin 5,
        sentiment_adjustment = to_float (3 / 10), recency_factor = Fin 1, calculation_time = 1000\<rparr>"
  using aggregation_repeatable[of
      "[\<lparr>client_address = ''x'', client_verified = True, rating = 5, comment = ''good'',
         timestamp = 1000\<rparr>]"
      "frozen_clock 1000" "\<lparr>reads = 0, sentiment_calls = []\<rparr>"
      "frozen_clock 1000" "\<lparr>reads = 3, sentiment_calls = [''good'']\<rparr>"
      default_config "Some positive_pipeline"]
  by (simp add: scenario_good)

text \<open>
  C9. Once the API key is accepted: with no review from either source \<^verbatim>\<open>analyze_reviews\<close>
  returns the empty response (no reviews, empty analysis) and raises nothing. With reviews,
  a response it returns has one analysed entry for each review of the concatenation of
  the two sources, in order and without deduplication, and its statistics are the plain
  count, the mean of the ratings, the mean of the sentiment values and the percentage of
  verified clients over that concatenation, each computed in floats and rounded: none of
  them depends on the decay, the clock or the client weights. It returns a response
  whenever the ratings are within 1..5, there are fewer than \<open>2\<^sup>6\<^sup>3\<close> reviews, the platform
  converts every timestamp and every call of \<^verbatim>\<open>calculate_time_decay\<close> on a timestamp
  returns.
\<close>

theorem analysis_view_unweighted:
  "(\<not> api_key_rejected required_api_key api_key \<longrightarrow>
      analyze_reviews cfg sa clk fromtimestamp required_api_key address api_key [] [] w =
        (Inr \<lparr>resp_address = address, resp_reviews = [], resp_analysis = None\<rparr>, w))
   \<and> (\<not> api_key_rejected required_api_key api_key \<longrightarrow> b @ a \<noteq> [] \<longrightarrow>
       analyze_reviews cfg sa clk fromtimestamp required_api_key address api_key b a w
         = (Inr resp, w') \<longrightarrow>
       resp_address resp = address
       \<and> map ar_client_address (resp_reviews resp) = map client_address (b @ a)
       \<and> map ar_client_verified (resp_reviews resp) = map client_verified (b @ a)
       \<and> map ar_rating (resp_reviews resp) = map rating (b @ a)
       \<and> map ar_comment (resp_reviews resp) = map comment (b @ a)
       \<and> map ar_timestamp (resp_reviews resp) = map timestamp (b @ a)
       \<and> (\<exists>avg_rating n avg_sentiment verified_fraction.
            int_truediv (sum_list (map rating (b @ a))) (int (length (b @ a))) = Inr avg_rating
          \<and> int_to_float (int (length (b @ a))) = Inr n
          \<and> fdiv (foldl fadd (Fin 0) (map (\<lambda>r. sentiment_value sa (comment r)) (b @ a))) n
              = Inr avg_sentiment
          \<and> int_truediv (int (length (filter client_verified (b @ a)))) (int (length (b @ a)))
              = Inr verified_fraction
          \<and> resp_analysis resp =
              Some \<lparr>an_review_count = length (b @ a),
                    an_average_rating = py_round avg_rating 2,
                    an_average_sentiment = py_round avg_sentiment 2,
                    verified_client_percentage =
                      py_round (fmul verified_fraction (Fin 100)) 1\<rparr>))
   \<and> (\<not> api_key_rejected required_api_key api_key \<longrightarrow> b @ a \<noteq> [] \<longrightarrow>
       (\<forall>r \<in> set (b @ a). valid_review r
          \<and> (\<exists>d. fromtimestamp (timestamp r) = Inr d)
          \<and> (\<forall>u. \<exists>d. fst (calculate_time_decay cfg clk (timestamp r) u) = Inr d)) \<longrightarrow>
       length (b @ a) < 2 ^ 63 \<longrightarrow>
       (\<exists>resp. fst (analyze_reviews cfg sa clk fromtimestamp required_api_key address api_key b a w)
          = Inr resp))"
proof (intro conjI impI)
  assume "\<not> api_key_rejected required_api_key api_key"
  then show "analyze_reviews cfg sa clk fromtimestamp required_api_key address api_key [] [] w =
        (Inr \<lparr>resp_address = address, resp_reviews = [], resp_analysis = None\<rparr>, w)"
    by (rule analyze_reviews_empty)
next
  assume k: "\<not> api_key_rejected required_api_key api_key" and ne: "b @ a \<noteq> []"
    and r: "analyze_reviews cfg sa clk fromtimestamp required_api_key address api_key b a w
         = (Inr resp, w')"
  note res = analyze_combined_result[OF k refl ne r]
  show "resp_address resp = address" using res by blast
  show "map ar_client_address (resp_reviews resp) = map client_address (b @ a)" using res by blast
  show "map ar_client_verified (resp_reviews resp) = map client_verified (b @ a)" using res by blast
  show "map ar_rating (resp_reviews resp) = map rating (b @ a)" using res by blast
  show "map ar_comment (resp_reviews resp) = map comment (b @ a)" using res by blast
  show "map ar_timestamp (resp_reviews resp) = map timestamp (b @ a)" using res by blast
  show "\<exists>avg_rating n avg_sentiment verified_fraction.
            int_truediv (sum_list (map rating (b @ a))) (int (length (b @ a))) = Inr avg_rating
          \<and> int_to_float (int (length (b @ a))) = Inr n
          \<and> fdiv (foldl fadd (Fin 0) (map (\<lambda>r. sentiment_value sa (comment r)) (b @ a))) n
              = Inr avg_sentiment
          \<and> int_truediv (int (length (filter client_verified (b @ a)))) (int (length (b @ a)))
              = Inr verified_fraction
          \<and> resp_analysis resp =
              Some \<lparr>an_review_count = length (b @ a),
                    an_average_rating = py_round avg_rating 2,
                    an_average_sentiment = py_round avg_sentiment 2,
                    verified_client_percentage =
                      py_round (fmul verified_fraction (Fin 100)) 1\<rparr>"
    using res by blast
next
  assume k: "\<not> api_key_rejected required_api_key api_key" and ne: "b @ a \<noteq> []"
    and h: "\<forall>r \<in> set (b @ a). valid_review r
          \<and> (\<exists>d. fromtimestamp (timestamp r) = Inr d)
          \<and> (\<forall>u. \<exists>d. fst (calculate_time_decay cfg clk (timestamp r) u) = Inr d)"
    and n: "length (b @ a) < 2 ^ 63"
  show "\<exists>resp. fst (analyze_reviews cfg sa clk fromtimestamp required_api_key address api_key b a w)
          = Inr resp"
  proof (rule analyze_combined_returns[OF k refl ne])
    show "\<forall>r\<in>set (b @ a). \<exists>d. fromtimestamp (timestamp r) = Inr d" using h by blast
    show "\<forall>r\<in>set (b @ a). \<forall>w'. \<exists>d. fst (calculate_time_decay cfg clk (timestamp r) w') = Inr d"
      using h by blast
    show "\<forall>r\<in>set (b @ a). valid_review r" using h by blast
    show "length (b @ a) < 2 ^ 63" by (rule n)
  qed
qed

theorem analysis_view_unweighted_witness:
  "\<not> api_key_rejected None None
   \<and> analyze_reviews default_config None (frozen_clock 1000) sample_fromtimestamp None ''0xf1'' None [] []
        \<lparr>reads = 0, sentiment_calls = []\<rparr> =
       (Inr \<lparr>resp_address = ''0xf1'', resp_reviews = [], resp_analysis = None\<rparr>,
        \<lparr>reads = 0, sentiment_calls = []\<rparr>)
   \<and> analyze_reviews default_config None (frozen_clock 1000) sample_fromtimestamp None ''0xf1'' None
     [\<lparr>client_address = ''x'', client_verified = True, rating = 5, comment = ''A'', timestamp = 1000\<rparr>]
     [\<lparr>client_address = ''x'', client_verified = False, rating = 2, comment = ''B'', timestamp = 1000\<rparr>]
     \<lparr>reads = 0, sentiment_calls = []\<rparr> =
   (Inr \<lparr>resp_address = ''0xf1'',
         resp_reviews =
           [\<lparr>ar_client_address = ''x'', ar_client_verified = True, ar_rating = 5, ar_comment = ''A'',
             ar_timestamp = 1000, ar_datetime = ''1970-01-01T00:16:40'', sentiment_score = Fin 0,
             time_decay_factor = Fin 1, effective_weight = Fin (3 / 2)\<rparr>,
            \<lparr>ar_client_address = ''x'', ar_client_verified = False, ar_rating = 2, ar_comment = ''B'',
             ar_timestamp = 1000, ar_datetime = ''1970-01-01T00:16:40'', sentiment_score = Fin 0,
             time_decay_factor = Fin 1, effective_weight = to_float (4 / 5)\<rparr>],
         resp_analysis =
           Some \<lparr>an_review_count = 2, an_average_rating = Fin (7 / 2), an_average_sentiment = Fin 0,
                 verified_client_percentage = Fin 50\<rparr>\<rparr>,
    \<lparr>reads = 2, sentiment_calls = [''A'', ''B'', ''A'', ''B'']\<rparr>)"
  using analysis_view_unweighted[where required_api_key = None and api_key = None
      and cfg = default_config and sa = None and clk = "frozen_clock 1000"
      and fromtimestamp = sample_fromtimestamp and address = "''0xf1''"
      and w = "\<lparr>reads = 0, sentiment_calls = []\<rparr>"
      and b = "[\<lparr>client_address = ''x'', client_verified = True, rating = 5, comment = ''A'', timestamp = 1000\<rparr>]"
      and a = "[\<lparr>client_address = ''x'', client_verified = False, rating = 2, comment = ''B'', timestamp = 1000\<rparr>]"]
  by (simp add: analysis_sample api_key_rejected_def)

end
